theory Spec2Isabelle
  imports Main
begin

section \<open>The procedural builder of amaranth/hdl/_dsl.py\<close>

text \<open>
  The builder (class \<open>Module\<close>) is a mutable object driven by a sequence of calls; the
  bodies of its context managers are user code that calls the builder again. The model
  has three layers:
  \<^item> the values the builder stores and queries (signals, expressions, statements);
  \<^item> the builder state as a record, its frame dictionaries in an explicit store, since
    \<open>if_data\<close>, \<open>switch_data\<close> and \<open>fsm_data\<close> are shared between the control stack, the
    running context manager, the \<open>FSM\<close> object and the late bound statements;
  \<^item> the methods as functions from a state to an optional exception and a state (a
    Python exception leaves every mutation done before it in place), and user code as a
    datatype of builder calls interpreted by \<open>exec\<close>.
\<close>

subsection \<open>Values, signals and statements\<close>

type_synonym domain = string

text \<open>
  A signal is compared by identity in \<open>SignalDict\<close>. A signal made by user code carries a
  number; the signals the builder makes itself are identified by the \<open>fsm_data\<close> dictionary
  they belong to (and the state name, for an ongoing indicator): each is made once.
\<close>

datatype sig_ident = UserSig nat | FsmStateSig nat | FsmOngoingSig nat string

datatype shape = Unsigned nat | Signed nat | RangeShape nat

datatype signal = Signal (sig_ident: sig_ident) (sig_name: string) (sig_shape: shape) (sig_init: int)

datatype val =
    VSig signal
  | VConst int
  | VBool val
  | VCat "val list"
  | VEq val val

fun bit_length :: "nat \<Rightarrow> nat" where
  "bit_length n = (if n = 0 then 0 else Suc (bit_length (n div 2)))"

declare bit_length.simps [simp del]

text \<open>
  Modelled from the spec: \<open>bits_for\<close> (imported from \<open>..utils\<close>, which is not among the
  sources) is the minimal bit-width of an integer constant: the length of its binary
  representation, and one more bit for the sign of a value that is not positive.
\<close>

definition bits_for :: "int \<Rightarrow> nat" where
  "bits_for n = (if n > 0 then bit_length (nat n) else bit_length (nat (- n - 1)) + 1)"

text \<open>
  Modelled from the spec: the bit-width of an expression (\<open>len(value)\<close>) and whether it is
  signed, which the value algebra of \<open>_ast\<close> provides; a boolean reduction and an equality
  have one bit, a concatenation the sum of its parts.
\<close>

definition shape_width :: "shape \<Rightarrow> nat" where
  "shape_width s = (case s of Unsigned w \<Rightarrow> w | Signed w \<Rightarrow> w
      | RangeShape n \<Rightarrow> (if n = 0 then 0 else bits_for (int n - 1)))"

definition shape_signed :: "shape \<Rightarrow> bool" where
  "shape_signed s = (case s of Signed w \<Rightarrow> True | _ \<Rightarrow> False)"

fun val_len :: "val \<Rightarrow> nat" where
  "val_len (VSig s) = shape_width (sig_shape s)"
| "val_len (VConst c) = bits_for c"
| "val_len (VBool v) = 1"
| "val_len (VCat vs) = sum_list (map val_len vs)"
| "val_len (VEq a b) = 1"

fun val_signed :: "val \<Rightarrow> bool" where
  "val_signed (VSig s) = shape_signed (sig_shape s)"
| "val_signed (VConst c) = (c < 0)"
| "val_signed v = False"

text \<open>
  Modelled from the spec: the signals written by an assignment's left-hand side
  (\<open>_lhs_signals\<close> of \<open>_ast\<close>), in order of first occurrence.
\<close>

fun od_keys_add :: "'k \<Rightarrow> 'k list \<Rightarrow> 'k list" where
  "od_keys_add k ks = (if k \<in> set ks then ks else ks @ [k])"

fun val_lhs_signals :: "val \<Rightarrow> signal list" where
  "val_lhs_signals (VSig s) = [s]"
| "val_lhs_signals (VCat vs) = foldl (\<lambda>acc k. od_keys_add k acc) [] (concat (map val_lhs_signals vs))"
| "val_lhs_signals v = []"

text \<open>
  The keys the builder gives the cases of a branch node: a priority pattern or \<open>None\<close> for a
  lowered conditional, the tuple of patterns of a \<open>Case\<close> (empty for \<open>Default\<close>), the
  integer encoding of a state.
\<close>

datatype pat = PatStr string | PatInt int

datatype case_key = KNone | KStr string | KTuple "pat list" | KInt nat

text \<open>
  \<open>FSMNext r s\<close> is \<open>FSMNextStatement(ctrl_data, state)\<close>, \<open>r\<close> the address of the
  \<open>fsm_data\<close> dictionary it keeps.
\<close>

datatype stmt =
    Assign val val
  | Property string val
  | FSMNext nat string
  | Switch val "(case_key \<times> stmt list) list"

type_synonym stmts_map = "(domain \<times> stmt list) list"

subsection \<open>Python dictionaries, which keep insertion order\<close>

fun od_get :: "('k \<times> 'v) list \<Rightarrow> 'k \<Rightarrow> 'v option" where
  "od_get [] k = None"
| "od_get ((k', v) # kvs) k = (if k' = k then Some v else od_get kvs k)"

text \<open>\<open>d[k] = v\<close>: a key already there keeps its place.\<close>

fun od_set :: "'k \<Rightarrow> 'v \<Rightarrow> ('k \<times> 'v) list \<Rightarrow> ('k \<times> 'v) list" where
  "od_set k v [] = [(k, v)]"
| "od_set k v ((k', v') # kvs) = (if k' = k then (k, v) # kvs else (k', v') # od_set k v kvs)"

definition od_mem :: "'k \<Rightarrow> ('k \<times> 'v) list \<Rightarrow> bool" where
  "od_mem k kvs = (k \<in> set (map fst kvs))"

text \<open>\<open>d.setdefault(domain, []).append(stmt)\<close>\<close>

fun stmts_append :: "domain \<Rightarrow> stmt \<Rightarrow> stmts_map \<Rightarrow> stmts_map" where
  "stmts_append d s [] = [(d, [s])]"
| "stmts_append d s ((d', ss) # rest) =
     (if d' = d then (d, ss @ [s]) # rest else (d', ss) # stmts_append d s rest)"

text \<open>\<open>d.get(domain, [])\<close>\<close>

definition stmts_get :: "stmts_map \<Rightarrow> domain \<Rightarrow> stmt list" where
  "stmts_get b d = (case od_get b d of None \<Rightarrow> [] | Some ss \<Rightarrow> ss)"

text \<open>
  \<open>domains = {}; for body in bodies: for domain in body: domains[domain] = None\<close>
\<close>

definition touched_domains :: "stmts_map list \<Rightarrow> domain list" where
  "touched_domains bodies = foldl (\<lambda>acc k. od_keys_add k acc) [] (concat (map (map fst) bodies))"

subsection \<open>Exceptions and diagnostics\<close>

datatype ctx = CtxSwitch | CtxFSM

datatype error =
    NotPermittedOutside string "ctx option"
  | NotPermittedInside string ctx string
  | ElifWithoutIf
  | ElseWithoutIf
  | BadPatternBits string
  | BadPatternWidth string nat
  | BadPatternType
  | FsmCombDomain domain
  | ResetAndInit
  | StateNotDefined string
  | StateAlreadyDefined string
  | NextOutsideState
  | OnlyAssignments domain
  | DriverConflict signal domain domain
  | KeyError string
  | IndexError
  | NoneNotSubscriptable
  | UnboundName string
  | UserError nat

datatype warning =
    SubmodulesDomain
  | SignedCondition
  | CaseAfterDefault
  | WiderPattern int nat nat
  | ResetDeprecated

subsection \<open>The builder state\<close>

record if_data =
  if_depth :: int
  if_tests :: "val list"
  if_bodies :: "stmts_map list"

record switch_data =
  switch_test :: val
  switch_cases :: "(pat list \<times> stmts_map) list"

record fsm_data =
  fsm_name :: string
  fsm_init :: "string option"
  fsm_domain :: domain
  fsm_encoding :: "(string \<times> nat) list"
  fsm_decoding :: "(nat \<times> string) list"
  fsm_ongoing :: "(string \<times> signal) list"
  fsm_states :: "(string \<times> stmts_map) list"
  fsm_signal :: "signal option"

text \<open>An entry of \<open>_ctrl_stack\<close>: the construct's name and the address of its dictionary.\<close>

datatype frame = IfFrame nat | SwitchFrame nat | FSMFrame nat

text \<open>
  \<open>ctrl_stack\<close> grows at its end, as the Python list does. \<open>depth\<close> is
  \<open>self.domain._depth\<close>. \<open>warnings\<close> collects the calls of \<open>warnings.warn\<close>.
  \<open>py_before_312\<close> is \<open>sys.version_info < (3, 12, 0)\<close>. \<open>fsm_state_attr\<close> holds the
  attribute \<open>fsm.state\<close> of the \<open>FSM\<close> objects, by the address of their dictionary.
\<close>

record module =
  statements :: stmts_map
  ctrl_context :: "ctx option"
  ctrl_stack :: "frame list"
  top_comb_statements :: "stmt list"
  driving :: "signal \<rightharpoonup> domain"
  depth :: int
  generated :: "(string \<times> nat) list"
  warnings :: "warning list"
  if_store :: "nat \<Rightarrow> if_data"
  switch_store :: "nat \<Rightarrow> switch_data"
  fsm_store :: "nat \<Rightarrow> fsm_data"
  next_ref :: nat
  fsm_state_attr :: "nat \<rightharpoonup> signal"
  py_before_312 :: bool

definition warn :: "warning \<Rightarrow> module \<Rightarrow> module" where
  "warn w m = m\<lparr>warnings := warnings m @ [w]\<rparr>"

subsection \<open>Closing a frame: \<open>_pop_ctrl\<close>\<close>

text \<open>\<open>s.rjust(n, c)\<close>\<close>

definition rjust :: "string \<Rightarrow> nat \<Rightarrow> char \<Rightarrow> string" where
  "rjust s n c = replicate (n - length s) c @ s"

text \<open>\<open>("1" + "-" * (len(tests) - 1)).rjust(len(if_tests), "-")\<close>\<close>

definition if_match :: "nat \<Rightarrow> nat \<Rightarrow> string" where
  "if_match len_tests len_if_tests =
     rjust (CHR ''1'' # replicate (len_tests - 1) CHR ''-'') len_if_tests CHR ''-''"

text \<open>
  The loop over \<open>zip(if_tests + [None], if_bodies)\<close> for one domain, with its two
  accumulators \<open>tests\<close> and \<open>cases\<close>.
\<close>

fun if_lower :: "nat \<Rightarrow> domain \<Rightarrow> (val option \<times> stmts_map) list \<Rightarrow> val list
    \<Rightarrow> (case_key \<times> stmt list) list \<Rightarrow> val list \<times> (case_key \<times> stmt list) list" where
  "if_lower n d [] tests cases = (tests, cases)"
| "if_lower n d ((None, if_case) # rest) tests cases =
     if_lower n d rest tests (od_set KNone (stmts_get if_case d) cases)"
| "if_lower n d ((Some if_test, if_case) # rest) tests cases =
     (let tests' = tests @ [if val_len if_test \<noteq> 1 then VBool if_test else if_test]
      in if_lower n d rest tests'
           (od_set (KStr (if_match (length tests') n)) (stmts_get if_case d) cases))"

definition if_switch :: "if_data \<Rightarrow> domain \<Rightarrow> stmt" where
  "if_switch data d =
     (case if_lower (length (if_tests data)) d
             (zip (map Some (if_tests data) @ [None]) (if_bodies data)) [] [] of
        (tests, cases) \<Rightarrow> Switch (VCat tests) cases)"

fun if_emit :: "if_data \<Rightarrow> domain list \<Rightarrow> stmts_map \<Rightarrow> stmts_map" where
  "if_emit data [] acc = acc"
| "if_emit data (d # ds) acc = if_emit data ds (stmts_append d (if_switch data d) acc)"

definition pop_if :: "if_data \<Rightarrow> module \<Rightarrow> module" where
  "pop_if data m =
     m\<lparr>statements := if_emit data (touched_domains (if_bodies data)) (statements m)\<rparr>"

text \<open>Building an \<open>OrderedDict\<close> from pairs: a repeated key keeps its first place.\<close>

definition od_of :: "('k \<times> 'v) list \<Rightarrow> ('k \<times> 'v) list" where
  "od_of kvs = foldl (\<lambda>acc kv. od_set (fst kv) (snd kv) acc) [] kvs"

definition switch_switch :: "switch_data \<Rightarrow> domain \<Rightarrow> stmt" where
  "switch_switch data d =
     Switch (switch_test data)
       (od_of (map (\<lambda>c. (KTuple (fst c), stmts_get (snd c) d)) (switch_cases data)))"

fun switch_emit :: "switch_data \<Rightarrow> domain list \<Rightarrow> stmts_map \<Rightarrow> stmts_map" where
  "switch_emit data [] acc = acc"
| "switch_emit data (d # ds) acc =
     switch_emit data ds (stmts_append d (switch_switch data d) acc)"

definition pop_switch :: "switch_data \<Rightarrow> module \<Rightarrow> module" where
  "pop_switch data m =
     m\<lparr>statements :=
         switch_emit data (touched_domains (map snd (switch_cases data))) (statements m)\<rparr>"

text \<open>
  \<open>for name, sig in fsm_ongoing.items(): self._top_comb_statements.append(...)\<close>; the
  lookup \<open>fsm_encoding[name]\<close> raises \<open>KeyError\<close> for a missing key.
\<close>

fun fsm_ongoing_loop :: "signal \<Rightarrow> (string \<times> nat) list \<Rightarrow> (string \<times> signal) list
    \<Rightarrow> module \<Rightarrow> error option \<times> module" where
  "fsm_ongoing_loop fsm_sig enc [] m = (None, m)"
| "fsm_ongoing_loop fsm_sig enc ((name, sg) # rest) m =
     (case od_get enc name of
        None \<Rightarrow> (Some (KeyError name), m)
      | Some e \<Rightarrow>
          fsm_ongoing_loop fsm_sig enc rest
            (m\<lparr>top_comb_statements := top_comb_statements m @
                 [Assign (VSig sg) (VEq (VSig fsm_sig) (VConst (int e)))]\<rparr>))"

text \<open>\<open>OrderedDict((fsm_encoding[name], stmts) for name, stmts in domain_states.items())\<close>\<close>

fun fsm_cases :: "(string \<times> nat) list \<Rightarrow> (string \<times> stmt list) list
    \<Rightarrow> error + (case_key \<times> stmt list) list" where
  "fsm_cases enc [] = Inr []"
| "fsm_cases enc ((name, stmts) # rest) =
     (case od_get enc name of
        None \<Rightarrow> Inl (KeyError name)
      | Some e \<Rightarrow>
          (case fsm_cases enc rest of
             Inl x \<Rightarrow> Inl x
           | Inr cs \<Rightarrow> Inr ((KInt e, stmts) # cs)))"

definition fsm_switch :: "signal \<Rightarrow> fsm_data \<Rightarrow> domain \<Rightarrow> error + stmt" where
  "fsm_switch fsm_sig data d =
     (case fsm_cases (fsm_encoding data)
             (od_of (map (\<lambda>s. (fst s, stmts_get (snd s) d)) (fsm_states data))) of
        Inl x \<Rightarrow> Inl x
      | Inr cs \<Rightarrow> Inr (Switch (VSig fsm_sig) (od_of cs)))"

fun fsm_emit :: "signal \<Rightarrow> fsm_data \<Rightarrow> domain list \<Rightarrow> module \<Rightarrow> error option \<times> module" where
  "fsm_emit fsm_sig data [] m = (None, m)"
| "fsm_emit fsm_sig data (d # ds) m =
     (case fsm_switch fsm_sig data d of
        Inl x \<Rightarrow> (Some x, m)
      | Inr sw \<Rightarrow> fsm_emit fsm_sig data ds (m\<lparr>statements := stmts_append d sw (statements m)\<rparr>))"

text \<open>\<open>fsm_encoding[next(iter(fsm_states))]\<close>, or \<open>fsm_encoding[fsm_init]\<close>\<close>

definition fsm_init_key :: "fsm_data \<Rightarrow> string" where
  "fsm_init_key data =
     (case fsm_init data of
        None \<Rightarrow> (case fsm_states data of [] \<Rightarrow> [] | s # _ \<Rightarrow> fst s)
      | Some i \<Rightarrow> i)"

definition pop_fsm :: "nat \<Rightarrow> module \<Rightarrow> error option \<times> module" where
  "pop_fsm r m =
     (let data = fsm_store m r in
      if fsm_states data = [] then
        (None, m\<lparr>fsm_store := (fsm_store m)(r := data\<lparr>fsm_signal :=
            Some (Signal (FsmStateSig r) (fsm_name data @ ''_state'') (Unsigned 0) 0)\<rparr>)\<rparr>)
      else
        (case od_get (fsm_encoding data) (fsm_init_key data) of
           None \<Rightarrow> (Some (KeyError (fsm_init_key data)), m)
         | Some init \<Rightarrow>
             (let fsm_sig = Signal (FsmStateSig r) (fsm_name data @ ''_state'')
                              (RangeShape (length (fsm_encoding data))) (int init);
                  data' = data\<lparr>fsm_decoding :=
                              foldl (\<lambda>acc sn. od_set (snd sn) (fst sn) acc)
                                (fsm_decoding data) (fsm_encoding data),
                            fsm_signal := Some fsm_sig\<rparr>;
                  m1 = m\<lparr>fsm_store := (fsm_store m)(r := data')\<rparr>
              in (case fsm_ongoing_loop fsm_sig (fsm_encoding data') (fsm_ongoing data') m1 of
                    (Some x, m2) \<Rightarrow> (Some x, m2)
                  | (None, m2) \<Rightarrow>
                      fsm_emit fsm_sig data'
                        (touched_domains (map snd (fsm_states data'))) m2))))"

text \<open>\<open>self._ctrl_stack.pop()\<close> raises \<open>IndexError\<close> on an empty stack.\<close>

definition pop_ctrl :: "module \<Rightarrow> error option \<times> module" where
  "pop_ctrl m =
     (if ctrl_stack m = [] then (Some IndexError, m)
      else
        (let m1 = m\<lparr>ctrl_stack := butlast (ctrl_stack m)\<rparr> in
         case last (ctrl_stack m) of
           IfFrame r \<Rightarrow> (None, pop_if (if_store m1 r) m1)
         | SwitchFrame r \<Rightarrow> (None, pop_switch (switch_store m1 r) m1)
         | FSMFrame r \<Rightarrow> pop_fsm r m1))"

lemma fsm_ongoing_loop_stack:
  "fsm_ongoing_loop sg enc og m = (x, m') \<Longrightarrow> ctrl_stack m' = ctrl_stack m"
  by (induction sg enc og m rule: fsm_ongoing_loop.induct) (auto split: option.splits)

lemma fsm_emit_stack:
  "fsm_emit sg data ds m = (x, m') \<Longrightarrow> ctrl_stack m' = ctrl_stack m"
  by (induction sg data ds m rule: fsm_emit.induct) (auto split: sum.splits)

lemma pop_fsm_stack:
  assumes "pop_fsm r m = (x, m')"
  shows "ctrl_stack m' = ctrl_stack m"
proof (cases "fsm_states (fsm_store m r) = []")
  case True
  with assms show ?thesis
    by (auto simp: pop_fsm_def Let_def)
next
  case False
  show ?thesis
  proof (cases "od_get (fsm_encoding (fsm_store m r)) (fsm_init_key (fsm_store m r))")
    case None
    with False assms show ?thesis
      by (auto simp: pop_fsm_def Let_def)
  next
    case (Some init)
    with False assms show ?thesis
      unfolding pop_fsm_def Let_def
      by (auto split: prod.splits option.splits
          dest!: fsm_ongoing_loop_stack fsm_emit_stack)
  qed
qed

lemma pop_ctrl_stack:
  "pop_ctrl m = (x, m') \<Longrightarrow> ctrl_stack m \<noteq> [] \<Longrightarrow> ctrl_stack m' = butlast (ctrl_stack m)"
  by (auto simp: pop_ctrl_def Let_def pop_if_def pop_switch_def split: frame.splits
      dest: pop_fsm_stack)

lemma pop_ctrl_length:
  "pop_ctrl m = (x, m') \<Longrightarrow> ctrl_stack m \<noteq> [] \<Longrightarrow>
   length (ctrl_stack m') < length (ctrl_stack m)"
  by (drule pop_ctrl_stack) (auto simp: length_greater_0_conv [symmetric] simp del: length_greater_0_conv)

subsection \<open>Auto-closing: \<open>_flush_ctrl\<close> and \<open>_set_ctrl\<close>\<close>

text \<open>\<open>while len(self._ctrl_stack) > self.domain._depth: self._pop_ctrl()\<close>\<close>

function flush_ctrl :: "module \<Rightarrow> error option \<times> module" where
  "flush_ctrl m =
     (if int (length (ctrl_stack m)) > depth m then
        (case pop_ctrl m of
           (Some x, m') \<Rightarrow> (Some x, m')
         | (None, m') \<Rightarrow> if ctrl_stack m = [] then (None, m') else flush_ctrl m')
      else (None, m))"
  by pat_completeness auto
termination
  apply (relation "measure (\<lambda>m. length (ctrl_stack m))")
   apply simp
  apply (auto dest: pop_ctrl_length [OF sym])
  done

declare flush_ctrl.simps [simp del]

text \<open>
  \<open>_set_ctrl(name, data)\<close>: flush, then push the new dictionary, whose address is the
  next free one.
\<close>

definition set_ctrl_If :: "if_data \<Rightarrow> module \<Rightarrow> (error + nat) \<times> module" where
  "set_ctrl_If data m =
     (case flush_ctrl m of
        (Some x, m') \<Rightarrow> (Inl x, m')
      | (None, m') \<Rightarrow>
          (Inr (next_ref m'),
           m'\<lparr>ctrl_stack := ctrl_stack m' @ [IfFrame (next_ref m')],
              if_store := (if_store m')(next_ref m' := data),
              next_ref := Suc (next_ref m')\<rparr>))"

definition set_ctrl_Switch :: "switch_data \<Rightarrow> module \<Rightarrow> (error + nat) \<times> module" where
  "set_ctrl_Switch data m =
     (case flush_ctrl m of
        (Some x, m') \<Rightarrow> (Inl x, m')
      | (None, m') \<Rightarrow>
          (Inr (next_ref m'),
           m'\<lparr>ctrl_stack := ctrl_stack m' @ [SwitchFrame (next_ref m')],
              switch_store := (switch_store m')(next_ref m' := data),
              next_ref := Suc (next_ref m')\<rparr>))"

definition set_ctrl_FSM :: "fsm_data \<Rightarrow> module \<Rightarrow> (error + nat) \<times> module" where
  "set_ctrl_FSM data m =
     (case flush_ctrl m of
        (Some x, m') \<Rightarrow> (Inl x, m')
      | (None, m') \<Rightarrow>
          (Inr (next_ref m'),
           m'\<lparr>ctrl_stack := ctrl_stack m' @ [FSMFrame (next_ref m')],
              fsm_store := (fsm_store m')(next_ref m' := data),
              next_ref := Suc (next_ref m')\<rparr>))"

text \<open>\<open>_get_ctrl(name)\<close>: the dictionary of the top frame if it has that name, else \<open>None\<close>.\<close>

definition get_ctrl_If :: "module \<Rightarrow> nat option" where
  "get_ctrl_If m =
     (if ctrl_stack m = [] then None
      else (case last (ctrl_stack m) of IfFrame r \<Rightarrow> Some r | _ \<Rightarrow> None))"

definition get_ctrl_Switch :: "module \<Rightarrow> nat option" where
  "get_ctrl_Switch m =
     (if ctrl_stack m = [] then None
      else (case last (ctrl_stack m) of SwitchFrame r \<Rightarrow> Some r | _ \<Rightarrow> None))"

definition get_ctrl_FSM :: "module \<Rightarrow> nat option" where
  "get_ctrl_FSM m =
     (if ctrl_stack m = [] then None
      else (case last (ctrl_stack m) of FSMFrame r \<Rightarrow> Some r | _ \<Rightarrow> None))"

definition check_context :: "string \<Rightarrow> ctx option \<Rightarrow> module \<Rightarrow> error option" where
  "check_context construct context m =
     (if ctrl_context m \<noteq> context then
        (case ctrl_context m of
           None \<Rightarrow> Some (NotPermittedOutside construct context)
         | Some CtxSwitch \<Rightarrow> Some (NotPermittedInside construct CtxSwitch ''Case'')
         | Some CtxFSM \<Rightarrow> Some (NotPermittedInside construct CtxFSM ''State''))
      else None)"

definition check_signed_cond :: "val \<Rightarrow> module \<Rightarrow> module" where
  "check_signed_cond cond m =
     (if py_before_312 m \<and> val_signed cond then warn SignedCondition m else m)"

subsection \<open>Adding statements: \<open>_add_statement\<close>\<close>

text \<open>\<open>for signal in stmt._lhs_signals(): ...\<close>\<close>

fun drive_signals :: "domain \<Rightarrow> signal list \<Rightarrow> module \<Rightarrow> error option \<times> module" where
  "drive_signals d [] m = (None, m)"
| "drive_signals d (s # ss) m =
     (case driving m s of
        None \<Rightarrow> drive_signals d ss (m\<lparr>driving := (driving m)(s \<mapsto> d)\<rparr>)
      | Some cd_curr \<Rightarrow>
          if cd_curr \<noteq> d then (Some (DriverConflict s d cd_curr), m)
          else drive_signals d ss m)"

text \<open>
  \<open>for stmt in Statement.cast(assigns): ...\<close>; the argument is the list that
  \<open>Statement.cast\<close> returns.
\<close>

fun add_stmts :: "domain \<Rightarrow> stmt list \<Rightarrow> module \<Rightarrow> error option \<times> module" where
  "add_stmts d [] m = (None, m)"
| "add_stmts d (Switch t cs # rest) m = (Some (OnlyAssignments d), m)"
| "add_stmts d (Assign l r # rest) m =
     (case drive_signals d (val_lhs_signals l) m of
        (Some x, m') \<Rightarrow> (Some x, m')
      | (None, m') \<Rightarrow>
          add_stmts d rest (m'\<lparr>statements := stmts_append d (Assign l r) (statements m')\<rparr>))"
| "add_stmts d (st # rest) m =
     add_stmts d rest (m\<lparr>statements := stmts_append d st (statements m)\<rparr>)"

text \<open>The parameter \<open>depth\<close> is not used by the method; its loop is that of \<open>_flush_ctrl\<close>.\<close>

definition add_statement :: "stmt list \<Rightarrow> domain \<Rightarrow> int \<Rightarrow> module \<Rightarrow> error option \<times> module" where
  "add_statement assigns d dep m =
     (case flush_ctrl m of
        (Some x, m') \<Rightarrow> (Some x, m')
      | (None, m') \<Rightarrow> add_stmts d assigns m')"

text \<open>
  \<open>m.d.<name> += assigns\<close>: \<open>_ModuleBuilderDomains.__getattr__\<close>, then
  \<open>_ModuleBuilderDomain.__iadd__\<close>.
\<close>

definition d_iadd :: "domain \<Rightarrow> stmt list \<Rightarrow> module \<Rightarrow> error option \<times> module" where
  "d_iadd name assigns m =
     add_statement assigns name (depth m)
       (if name = ''submodules'' then warn SubmodulesDomain m else m)"

subsection \<open>The context managers, before and after their \<open>yield\<close>\<close>

text \<open>
  Each context manager is a function for the code before its \<open>yield\<close>, which returns what
  the generator keeps in local variables (the address of the frame's dictionary,
  \<open>_outer_case\<close>), and a function for the code after it, which takes the outcome of the
  body: the \<open>finally\<close> clause runs on both paths.
\<close>

definition If_finally :: "stmts_map \<Rightarrow> module \<Rightarrow> module" where
  "If_finally outer_case m = m\<lparr>depth := depth m - 1, statements := outer_case\<rparr>"

definition If_enter :: "val \<Rightarrow> module \<Rightarrow> (error + nat \<times> stmts_map) \<times> module" where
  "If_enter cond m =
     (case check_context ''If'' None m of
        Some x \<Rightarrow> (Inl x, m)
      | None \<Rightarrow>
          (let m1 = check_signed_cond cond m in
           case set_ctrl_If \<lparr>if_depth = depth m1, if_tests = [], if_bodies = []\<rparr> m1 of
             (Inl x, m2) \<Rightarrow> (Inl x, m2)
           | (Inr r, m2) \<Rightarrow>
               (Inr (r, statements m2), m2\<lparr>statements := [], depth := depth m2 + 1\<rparr>)))"

definition If_exit :: "nat \<Rightarrow> val \<Rightarrow> stmts_map \<Rightarrow> error option \<times> module \<Rightarrow> error option \<times> module" where
  "If_exit r cond outer_case res =
     (case res of
        (Some x, m) \<Rightarrow> (Some x, If_finally outer_case m)
      | (None, m) \<Rightarrow>
          (case flush_ctrl m of
             (Some x, m1) \<Rightarrow> (Some x, If_finally outer_case m1)
           | (None, m1) \<Rightarrow>
               (None, If_finally outer_case
                  (m1\<lparr>if_store := (if_store m1)(r := (if_store m1 r)
                        \<lparr>if_tests := if_tests (if_store m1 r) @ [cond],
                         if_bodies := if_bodies (if_store m1 r) @ [statements m1]\<rparr>)\<rparr>))))"

definition Elif_enter :: "val \<Rightarrow> module \<Rightarrow> (error + nat \<times> stmts_map) \<times> module" where
  "Elif_enter cond m =
     (case check_context ''Elif'' None m of
        Some x \<Rightarrow> (Inl x, m)
      | None \<Rightarrow>
          (let m1 = check_signed_cond cond m in
           case get_ctrl_If m1 of
             None \<Rightarrow> (Inl ElifWithoutIf, m1)
           | Some r \<Rightarrow>
               if if_depth (if_store m1 r) \<noteq> depth m1 then (Inl ElifWithoutIf, m1)
               else (Inr (r, statements m1), m1\<lparr>statements := [], depth := depth m1 + 1\<rparr>)))"

definition Else_enter :: "module \<Rightarrow> (error + nat \<times> stmts_map) \<times> module" where
  "Else_enter m =
     (case check_context ''Else'' None m of
        Some x \<Rightarrow> (Inl x, m)
      | None \<Rightarrow>
          (case get_ctrl_If m of
             None \<Rightarrow> (Inl ElseWithoutIf, m)
           | Some r \<Rightarrow>
               if if_depth (if_store m r) \<noteq> depth m then (Inl ElseWithoutIf, m)
               else (Inr (r, statements m), m\<lparr>statements := [], depth := depth m + 1\<rparr>)))"

definition Else_exit :: "nat \<Rightarrow> stmts_map \<Rightarrow> error option \<times> module \<Rightarrow> error option \<times> module" where
  "Else_exit r outer_case res =
     (case res of
        (Some x, m) \<Rightarrow> (Some x, If_finally outer_case m)
      | (None, m) \<Rightarrow>
          (case flush_ctrl m of
             (Some x, m1) \<Rightarrow> (Some x, If_finally outer_case m1)
           | (None, m1) \<Rightarrow>
               pop_ctrl (If_finally outer_case
                  (m1\<lparr>if_store := (if_store m1)(r := (if_store m1 r)
                        \<lparr>if_bodies := if_bodies (if_store m1 r) @ [statements m1]\<rparr>)\<rparr>))))"

definition Switch_finally :: "module \<Rightarrow> module" where
  "Switch_finally m = m\<lparr>depth := depth m - 1, ctrl_context := None\<rparr>"

definition Switch_enter :: "val \<Rightarrow> module \<Rightarrow> error option \<times> module" where
  "Switch_enter test m =
     (case check_context ''Switch'' None m of
        Some x \<Rightarrow> (Some x, m)
      | None \<Rightarrow>
          (case set_ctrl_Switch \<lparr>switch_test = test, switch_cases = []\<rparr> m of
             (Inl x, m1) \<Rightarrow> (Some x, m1)
           | (Inr r, m1) \<Rightarrow>
               (None, m1\<lparr>ctrl_context := Some CtxSwitch, depth := depth m1 + 1\<rparr>)))"

definition Switch_exit :: "error option \<times> module \<Rightarrow> error option \<times> module" where
  "Switch_exit res =
     (case res of
        (Some x, m) \<Rightarrow> (Some x, Switch_finally m)
      | (None, m) \<Rightarrow> pop_ctrl (Switch_finally m))"

text \<open>
  A pattern as \<open>Case\<close> receives it: a string, a value that \<open>Const.cast\<close> accepts (with the
  \<open>value\<close> of the constant), or one that it rejects with \<open>TypeError\<close>.
\<close>

datatype pattern = PStr string | PConst int | PUncastable

definition pattern_bits :: "char list" where
  "pattern_bits = ''01- '' @ [CHR 0x09]"

definition pattern_space :: "char list" where
  "pattern_space = '' '' @ [CHR 0x09]"

text \<open>The loop \<open>for pattern in patterns\<close>, with its accumulator \<open>new_patterns\<close>.\<close>

fun case_patterns :: "nat \<Rightarrow> pattern list \<Rightarrow> pat list \<Rightarrow> module \<Rightarrow> (error + pat list) \<times> module" where
  "case_patterns w [] new_patterns m = (Inr new_patterns, m)"
| "case_patterns w (PStr s # ps) new_patterns m =
     (if \<exists>bit \<in> set s. bit \<notin> set pattern_bits then (Inl (BadPatternBits s), m)
      else if length (filter (\<lambda>c. c \<notin> set pattern_space) s) \<noteq> w then
        (Inl (BadPatternWidth s w), m)
      else case_patterns w ps (new_patterns @ [PatStr s]) m)"
| "case_patterns w (PUncastable # ps) new_patterns m = (Inl BadPatternType, m)"
| "case_patterns w (PConst v # ps) new_patterns m =
     (let pattern_len = (if v = 0 then 0 else bits_for v) in
      if pattern_len > w then
        case_patterns w ps new_patterns (warn (WiderPattern v pattern_len w) m)
      else case_patterns w ps (new_patterns @ [PatInt v]) m)"

definition Case_finally :: "stmts_map \<Rightarrow> module \<Rightarrow> module" where
  "Case_finally outer_case m = m\<lparr>ctrl_context := Some CtxSwitch, statements := outer_case\<rparr>"

definition Case_enter :: "pattern list \<Rightarrow> module \<Rightarrow> (error + nat \<times> pat list \<times> stmts_map) \<times> module" where
  "Case_enter patterns m =
     (case check_context ''Case'' (Some CtxSwitch) m of
        Some x \<Rightarrow> (Inl x, m)
      | None \<Rightarrow>
          (case get_ctrl_Switch m of
             None \<Rightarrow> (Inl NoneNotSubscriptable, m)
           | Some r \<Rightarrow>
               (let m1 = (if od_mem [] (switch_cases (switch_store m r))
                          then warn CaseAfterDefault m else m) in
                case case_patterns (val_len (switch_test (switch_store m1 r))) patterns [] m1 of
                  (Inl x, m2) \<Rightarrow> (Inl x, m2)
                | (Inr new_patterns, m2) \<Rightarrow>
                    (Inr (r, new_patterns, statements m2),
                     m2\<lparr>statements := [], ctrl_context := None\<rparr>))))"

definition Case_exit :: "nat \<Rightarrow> pat list \<Rightarrow> stmts_map \<Rightarrow> error option \<times> module \<Rightarrow> error option \<times> module" where
  "Case_exit r new_patterns outer_case res =
     (case res of
        (Some x, m) \<Rightarrow> (Some x, Case_finally outer_case m)
      | (None, m) \<Rightarrow>
          (case flush_ctrl m of
             (Some x, m1) \<Rightarrow> (Some x, Case_finally outer_case m1)
           | (None, m1) \<Rightarrow>
               (None, Case_finally outer_case
                  (if new_patterns \<noteq> [] \<and> \<not> od_mem new_patterns (switch_cases (switch_store m1 r))
                   then m1\<lparr>switch_store := (switch_store m1)(r := (switch_store m1 r)
                           \<lparr>switch_cases := od_set new_patterns (statements m1)
                                              (switch_cases (switch_store m1 r))\<rparr>)\<rparr>
                   else m1))))"

definition Default_enter :: "module \<Rightarrow> (error + nat \<times> stmts_map) \<times> module" where
  "Default_enter m =
     (case check_context ''Default'' (Some CtxSwitch) m of
        Some x \<Rightarrow> (Inl x, m)
      | None \<Rightarrow>
          (case get_ctrl_Switch m of
             None \<Rightarrow> (Inl NoneNotSubscriptable, m)
           | Some r \<Rightarrow>
               (let m1 = (if od_mem [] (switch_cases (switch_store m r))
                          then warn CaseAfterDefault m else m) in
                (Inr (r, statements m1), m1\<lparr>statements := [], ctrl_context := None\<rparr>))))"

definition Default_exit :: "nat \<Rightarrow> stmts_map \<Rightarrow> error option \<times> module \<Rightarrow> error option \<times> module" where
  "Default_exit r outer_case res =
     (case res of
        (Some x, m) \<Rightarrow> (Some x, Case_finally outer_case m)
      | (None, m) \<Rightarrow>
          (case flush_ctrl m of
             (Some x, m1) \<Rightarrow> (Some x, Case_finally outer_case m1)
           | (None, m1) \<Rightarrow>
               (None, Case_finally outer_case
                  (if \<not> od_mem [] (switch_cases (switch_store m1 r))
                   then m1\<lparr>switch_store := (switch_store m1)(r := (switch_store m1 r)
                           \<lparr>switch_cases := od_set [] (statements m1)
                                              (switch_cases (switch_store m1 r))\<rparr>)\<rparr>
                   else m1))))"

text \<open>
  The three places that meet a state name for the first time (\<open>State\<close>, the setter of
  \<open>next\<close>, \<open>FSM.ongoing\<close>) run the same two assignments:
  \<open>encoding[name] = len(encoding)\<close> and \<open>ongoing[name] = Signal(name=...)\<close>.
\<close>

definition fsm_register :: "string \<Rightarrow> nat \<Rightarrow> module \<Rightarrow> module" where
  "fsm_register name r m =
     (let data = fsm_store m r in
      m\<lparr>fsm_store := (fsm_store m)(r := data
          \<lparr>fsm_encoding := od_set name (length (fsm_encoding data)) (fsm_encoding data),
           fsm_ongoing := od_set name
              (Signal (FsmOngoingSig r name) (fsm_name data @ ''_ongoing_'' @ name) (Unsigned 1) 0)
              (fsm_ongoing data)\<rparr>)\<rparr>)"

definition FSM_finally :: "module \<Rightarrow> module" where
  "FSM_finally m = m\<lparr>depth := depth m - 1, ctrl_context := None\<rparr>"

definition FSM_enter :: "string option \<Rightarrow> domain \<Rightarrow> string \<Rightarrow> string option \<Rightarrow> module
    \<Rightarrow> (error + nat) \<times> module" where
  "FSM_enter init d name reset m =
     (case check_context ''FSM'' None m of
        Some x \<Rightarrow> (Inl x, m)
      | None \<Rightarrow>
          if d = ''comb'' then (Inl (FsmCombDomain d), m)
          else if reset \<noteq> None \<and> init \<noteq> None then (Inl ResetAndInit, m)
          else
            (let m1 = (if reset \<noteq> None then warn ResetDeprecated m else m);
                 init' = (if reset \<noteq> None then reset else init)
             in case set_ctrl_FSM \<lparr>fsm_name = name, fsm_init = init', fsm_domain = d,
                       fsm_encoding = [], fsm_decoding = [], fsm_ongoing = [],
                       fsm_states = [], fsm_signal = None\<rparr> m1 of
                  (Inl x, m2) \<Rightarrow> (Inl x, m2)
                | (Inr r, m2) \<Rightarrow>
                    (Inr r, m2\<lparr>generated := od_set name r (generated m2),
                                ctrl_context := Some CtxFSM, depth := depth m2 + 1\<rparr>)))"

text \<open>
  \<open>for state_name in fsm_data["encoding"]: if state_name not in fsm_data["states"]: raise\<close>
\<close>

fun fsm_undefined :: "(string \<times> nat) list \<Rightarrow> (string \<times> stmts_map) list \<Rightarrow> string option" where
  "fsm_undefined [] states = None"
| "fsm_undefined ((state_name, e) # enc) states =
     (if \<not> od_mem state_name states then Some state_name else fsm_undefined enc states)"

definition FSM_exit :: "nat \<Rightarrow> error option \<times> module \<Rightarrow> error option \<times> module" where
  "FSM_exit r res =
     (case res of
        (Some x, m) \<Rightarrow> (Some x, FSM_finally m)
      | (None, m) \<Rightarrow>
          (case fsm_undefined (fsm_encoding (fsm_store m r)) (fsm_states (fsm_store m r)) of
             Some state_name \<Rightarrow> (Some (StateNotDefined state_name), FSM_finally m)
           | None \<Rightarrow>
               (case pop_ctrl (FSM_finally m) of
                  (Some x, m1) \<Rightarrow> (Some x, m1)
                | (None, m1) \<Rightarrow>
                    (case fsm_signal (fsm_store m1 r) of
                       None \<Rightarrow> (Some (KeyError ''signal''), m1)
                     | Some sg \<Rightarrow>
                         (None, m1\<lparr>fsm_state_attr := (fsm_state_attr m1)(r \<mapsto> sg)\<rparr>)))))"

definition State_finally :: "stmts_map \<Rightarrow> module \<Rightarrow> module" where
  "State_finally outer_case m = m\<lparr>ctrl_context := Some CtxFSM, statements := outer_case\<rparr>"

definition State_enter :: "string \<Rightarrow> module \<Rightarrow> (error + nat \<times> stmts_map) \<times> module" where
  "State_enter name m =
     (case check_context ''FSM State'' (Some CtxFSM) m of
        Some x \<Rightarrow> (Inl x, m)
      | None \<Rightarrow>
          (case get_ctrl_FSM m of
             None \<Rightarrow> (Inl NoneNotSubscriptable, m)
           | Some r \<Rightarrow>
               if od_mem name (fsm_states (fsm_store m r)) then (Inl (StateAlreadyDefined name), m)
               else
                 (let m1 = (if \<not> od_mem name (fsm_encoding (fsm_store m r))
                            then fsm_register name r m else m)
                  in (Inr (r, statements m1), m1\<lparr>statements := [], ctrl_context := None\<rparr>))))"

definition State_exit :: "nat \<Rightarrow> string \<Rightarrow> stmts_map \<Rightarrow> error option \<times> module \<Rightarrow> error option \<times> module" where
  "State_exit r name outer_case res =
     (case res of
        (Some x, m) \<Rightarrow> (Some x, State_finally outer_case m)
      | (None, m) \<Rightarrow>
          (case flush_ctrl m of
             (Some x, m1) \<Rightarrow> (Some x, State_finally outer_case m1)
           | (None, m1) \<Rightarrow>
               (None, State_finally outer_case
                  (m1\<lparr>fsm_store := (fsm_store m1)(r := (fsm_store m1 r)
                        \<lparr>fsm_states := od_set name (statements m1)
                                         (fsm_states (fsm_store m1 r))\<rparr>)\<rparr>))))"

text \<open>
  The setter of \<open>m.next\<close>: the first \<open>FSM\<close> frame from the top of the stack
  (\<open>reversed(self._ctrl_stack)\<close>).
\<close>

fun find_fsm :: "frame list \<Rightarrow> nat option" where
  "find_fsm [] = None"
| "find_fsm (FSMFrame r # fs) = Some r"
| "find_fsm (f # fs) = find_fsm fs"

definition next_setter :: "string \<Rightarrow> module \<Rightarrow> error option \<times> module" where
  "next_setter name m =
     (if ctrl_context m \<noteq> Some CtxFSM then
        (case find_fsm (rev (ctrl_stack m)) of
           Some r \<Rightarrow>
             (let m1 = (if \<not> od_mem name (fsm_encoding (fsm_store m r))
                        then fsm_register name r m else m)
              in add_statement [FSMNext r name] (fsm_domain (fsm_store m1 r))
                   (int (length (ctrl_stack m1))) m1)
         | None \<Rightarrow> (Some NextOutsideState, m))
      else (Some NextOutsideState, m))"

text \<open>\<open>FSM.ongoing(name)\<close>, on the \<open>FSM\<close> object whose dictionary is at \<open>r\<close>.\<close>

definition FSM_ongoing :: "nat \<Rightarrow> string \<Rightarrow> module \<Rightarrow> (error + signal) \<times> module" where
  "FSM_ongoing r name m =
     (let m1 = (if \<not> od_mem name (fsm_encoding (fsm_store m r))
                then fsm_register name r m else m)
      in case od_get (fsm_ongoing (fsm_store m1 r)) name of
           None \<Rightarrow> (Inl (KeyError name), m1)
         | Some sg \<Rightarrow> (Inr sg, m1))"

subsection \<open>User code\<close>

text \<open>
  The calls user code makes on a builder \<open>m\<close>: \<open>m.d.<domain> += stmts\<close>, the context
  managers with the calls of their bodies, \<open>m.next = name\<close>, \<open>fsm.ongoing(name)\<close> on the
  \<open>FSM\<close> object last generated under a name, and \<open>raise\<close> of an exception of its own.
\<close>

datatype cmd =
    d_add domain "stmt list"
  | m_If val "cmd list"
  | m_Elif val "cmd list"
  | m_Else "cmd list"
  | m_Switch val "cmd list"
  | m_Case "pattern list" "cmd list"
  | m_Default "cmd list"
  | m_FSM "string option" domain string "string option" "cmd list"
  | m_State string "cmd list"
  | m_next string
  | m_ongoing string string
  | py_raise nat

fun exec :: "cmd \<Rightarrow> module \<Rightarrow> error option \<times> module"
  and exec_body :: "cmd list \<Rightarrow> module \<Rightarrow> error option \<times> module" where
  "exec (d_add d assigns) m = d_iadd d assigns m"
| "exec (m_If cond body) m =
     (case If_enter cond m of
        (Inl x, m1) \<Rightarrow> (Some x, m1)
      | (Inr (r, outer_case), m1) \<Rightarrow> If_exit r cond outer_case (exec_body body m1))"
| "exec (m_Elif cond body) m =
     (case Elif_enter cond m of
        (Inl x, m1) \<Rightarrow> (Some x, m1)
      | (Inr (r, outer_case), m1) \<Rightarrow> If_exit r cond outer_case (exec_body body m1))"
| "exec (m_Else body) m =
     (case Else_enter m of
        (Inl x, m1) \<Rightarrow> (Some x, m1)
      | (Inr (r, outer_case), m1) \<Rightarrow> Else_exit r outer_case (exec_body body m1))"
| "exec (m_Switch test body) m =
     (case Switch_enter test m of
        (Some x, m1) \<Rightarrow> (Some x, m1)
      | (None, m1) \<Rightarrow> Switch_exit (exec_body body m1))"
| "exec (m_Case patterns body) m =
     (case Case_enter patterns m of
        (Inl x, m1) \<Rightarrow> (Some x, m1)
      | (Inr (r, new_patterns, outer_case), m1) \<Rightarrow>
          Case_exit r new_patterns outer_case (exec_body body m1))"
| "exec (m_Default body) m =
     (case Default_enter m of
        (Inl x, m1) \<Rightarrow> (Some x, m1)
      | (Inr (r, outer_case), m1) \<Rightarrow> Default_exit r outer_case (exec_body body m1))"
| "exec (m_FSM init d name reset body) m =
     (case FSM_enter init d name reset m of
        (Inl x, m1) \<Rightarrow> (Some x, m1)
      | (Inr r, m1) \<Rightarrow> FSM_exit r (exec_body body m1))"
| "exec (m_State name body) m =
     (case State_enter name m of
        (Inl x, m1) \<Rightarrow> (Some x, m1)
      | (Inr (r, outer_case), m1) \<Rightarrow> State_exit r name outer_case (exec_body body m1))"
| "exec (m_next name) m = next_setter name m"
| "exec (m_ongoing fsm name) m =
     (case od_get (generated m) fsm of
        None \<Rightarrow> (Some (UnboundName fsm), m)
      | Some r \<Rightarrow>
          (case FSM_ongoing r name m of
             (Inl x, m1) \<Rightarrow> (Some x, m1)
           | (Inr sg, m1) \<Rightarrow> (None, m1)))"
| "exec (py_raise n) m = (Some (UserError n), m)"
| "exec_body [] m = (None, m)"
| "exec_body (c # cs) m =
     (case exec c m of
        (Some x, m1) \<Rightarrow> (Some x, m1)
      | (None, m1) \<Rightarrow> exec_body cs m1)"

text \<open>\<open>Module()\<close>\<close>

definition Module :: "bool \<Rightarrow> module" where
  "Module before_312 =
     \<lparr>statements = [], ctrl_context = None, ctrl_stack = [], top_comb_statements = [],
      driving = Map.empty, depth = 0, generated = [], warnings = [],
      if_store = (\<lambda>r. \<lparr>if_depth = 0, if_tests = [], if_bodies = []\<rparr>),
      switch_store = (\<lambda>r. \<lparr>switch_test = VConst 0, switch_cases = []\<rparr>),
      fsm_store = (\<lambda>r. \<lparr>fsm_name = [], fsm_init = None, fsm_domain = [],
                         fsm_encoding = [], fsm_decoding = [], fsm_ongoing = [],
                         fsm_states = [], fsm_signal = None\<rparr>),
      next_ref = 0, fsm_state_attr = Map.empty, py_before_312 = before_312\<rparr>"

subsection \<open>Elaboration\<close>

text \<open>
  \<open>resolve_statement\<close> and \<open>resolve_statements\<close>; \<open>FSMNextStatement.resolve\<close> reads the
  dictionary it kept, and a missing key is a \<open>KeyError\<close>.
\<close>

fun resolve_statement :: "(nat \<Rightarrow> fsm_data) \<Rightarrow> stmt \<Rightarrow> error + stmt"
  and resolve_statements :: "(nat \<Rightarrow> fsm_data) \<Rightarrow> stmt list \<Rightarrow> error + stmt list"
  and resolve_cases :: "(nat \<Rightarrow> fsm_data) \<Rightarrow> (case_key \<times> stmt list) list
    \<Rightarrow> error + (case_key \<times> stmt list) list" where
  "resolve_statement st (FSMNext r state) =
     (case fsm_signal (st r) of
        None \<Rightarrow> Inl (KeyError ''signal'')
      | Some sg \<Rightarrow>
          (case od_get (fsm_encoding (st r)) state of
             None \<Rightarrow> Inl (KeyError state)
           | Some e \<Rightarrow> Inr (Assign (VSig sg) (VConst (int e)))))"
| "resolve_statement st (Switch test cases) =
     (case resolve_cases st cases of
        Inl x \<Rightarrow> Inl x
      | Inr cases' \<Rightarrow> Inr (Switch test cases'))"
| "resolve_statement st (Assign l r) = Inr (Assign l r)"
| "resolve_statement st (Property k v) = Inr (Property k v)"
| "resolve_statements st [] = Inr []"
| "resolve_statements st (s # ss) =
     (case resolve_statement st s of
        Inl x \<Rightarrow> Inl x
      | Inr s' \<Rightarrow>
          (case resolve_statements st ss of
             Inl x \<Rightarrow> Inl x
           | Inr ss' \<Rightarrow> Inr (s' # ss')))"
| "resolve_cases st [] = Inr []"
| "resolve_cases st ((k, ss) # cs) =
     (case resolve_statements st ss of
        Inl x \<Rightarrow> Inl x
      | Inr ss' \<Rightarrow>
          (case resolve_cases st cs of
             Inl x \<Rightarrow> Inl x
           | Inr cs' \<Rightarrow> Inr ((k, ss') # cs')))"

text \<open>
  Modelled from the spec: the signals a statement list writes (\<open>_lhs_signals\<close> of \<open>_ast\<close>),
  those of a branch node being those of its cases.
\<close>

fun stmt_lhs_signals :: "stmt \<Rightarrow> signal list"
  and stmts_lhs_signals :: "stmt list \<Rightarrow> signal list"
  and cases_lhs_signals :: "(case_key \<times> stmt list) list \<Rightarrow> signal list" where
  "stmt_lhs_signals (Assign l r) = val_lhs_signals l"
| "stmt_lhs_signals (Property k v) = []"
| "stmt_lhs_signals (FSMNext r state) = []"
| "stmt_lhs_signals (Switch test cases) = cases_lhs_signals cases"
| "stmts_lhs_signals [] = []"
| "stmts_lhs_signals (s # ss) = stmt_lhs_signals s @ stmts_lhs_signals ss"
| "cases_lhs_signals [] = []"
| "cases_lhs_signals ((k, ss) # cs) = stmts_lhs_signals ss @ cases_lhs_signals cs"

text \<open>
  Modelled from the spec: the part of the IR container (\<open>Fragment\<close> of \<open>_ir\<close>) that receives
  statements: \<open>add_statements\<close> extends the statement list of a domain, \<open>add_driver\<close>
  registers a signal as driven by a domain. The registries of submodules and clock
  domains, which \<open>elaborate\<close> hands over before and after the statements and which no
  control construct reads or writes, are not part of the model.
\<close>

record fragment =
  frag_statements :: stmts_map
  frag_drivers :: "(domain \<times> signal list) list"
  frag_generated :: "(string \<times> nat) list"

definition add_statements :: "domain \<Rightarrow> stmt list \<Rightarrow> fragment \<Rightarrow> fragment" where
  "add_statements d ss f =
     f\<lparr>frag_statements := (case od_get (frag_statements f) d of
          None \<Rightarrow> frag_statements f @ [(d, ss)]
        | Some old \<Rightarrow> od_set d (old @ ss) (frag_statements f))\<rparr>"

definition add_driver :: "signal \<Rightarrow> domain \<Rightarrow> fragment \<Rightarrow> fragment" where
  "add_driver sg d f =
     f\<lparr>frag_drivers := (case od_get (frag_drivers f) d of
          None \<Rightarrow> frag_drivers f @ [(d, [sg])]
        | Some old \<Rightarrow> od_set d (od_keys_add sg old) (frag_drivers f))\<rparr>"

text \<open>\<open>_flush\<close>: \<open>while self._ctrl_stack: self._pop_ctrl()\<close>\<close>

function flush :: "module \<Rightarrow> error option \<times> module" where
  "flush m =
     (if ctrl_stack m \<noteq> [] then
        (case pop_ctrl m of
           (Some x, m') \<Rightarrow> (Some x, m')
         | (None, m') \<Rightarrow> flush m')
      else (None, m))"
  by pat_completeness auto
termination
  apply (relation "measure (\<lambda>m. length (ctrl_stack m))")
   apply simp
  apply (auto dest: pop_ctrl_length [OF sym])
  done

declare flush.simps [simp del]

text \<open>\<open>for domain, statements in self._statements.items(): ...\<close>\<close>

fun elaborate_domains :: "(nat \<Rightarrow> fsm_data) \<Rightarrow> stmts_map \<Rightarrow> fragment \<Rightarrow> error + fragment" where
  "elaborate_domains st [] f = Inr f"
| "elaborate_domains st ((d, ss) # rest) f =
     (case resolve_statements st ss of
        Inl x \<Rightarrow> Inl x
      | Inr ss' \<Rightarrow>
          elaborate_domains st rest
            (foldl (\<lambda>f sg. add_driver sg d f) (add_statements d ss' f) (stmts_lhs_signals ss')))"

definition elaborate :: "module \<Rightarrow> (error + fragment) \<times> module" where
  "elaborate m =
     (case flush m of
        (Some x, m1) \<Rightarrow> (Inl x, m1)
      | (None, m1) \<Rightarrow>
          (case elaborate_domains (fsm_store m1) (statements m1)
                  \<lparr>frag_statements = [], frag_drivers = [], frag_generated = []\<rparr> of
             Inl x \<Rightarrow> (Inl x, m1)
           | Inr f \<Rightarrow>
               (Inr ((foldl (\<lambda>f sg. add_driver sg ''comb'' f)
                        (add_statements ''comb'' (top_comb_statements m1) f)
                        (stmts_lhs_signals (top_comb_statements m1)))
                     \<lparr>frag_generated := generated m1\<rparr>), m1)))"

subsection \<open>Example designs\<close>

text \<open>Three user signals, and the builder states the examples start from.\<close>

definition sig_a :: signal where
  "sig_a = Signal (UserSig 0) ''a'' (Unsigned 1) 0"

definition sig_y :: signal where
  "sig_y = Signal (UserSig 1) ''y'' (Unsigned 1) 0"

definition sig_x :: signal where
  "sig_x = Signal (UserSig 2) ''x'' (Unsigned 2) 0"

text \<open>
  After \<open>with m.If(a): m.d.comb += y.eq(1)\<close>: the conditional frame waits for an \<open>Elif\<close> or
  \<open>Else\<close>.
\<close>

definition after_If :: module where
  "after_If = snd (exec (m_If (VSig sig_a) [d_add ''comb'' [Assign (VSig sig_y) (VConst 1)]])
                      (Module False))"

text \<open>Inside \<open>with m.Switch(x):\<close> and inside \<open>with m.FSM():\<close>.\<close>

definition in_Switch :: module where
  "in_Switch = snd (Switch_enter (VSig sig_x) (Module False))"

definition in_FSM :: module where
  "in_FSM = snd (FSM_enter None ''sync'' ''fsm'' None (Module False))"

text \<open>
  After \<open>m.d.comb += y.eq(1)\<close>, and then inside the body of an \<open>If\<close> opened after it.
\<close>

definition after_comb_y :: module where
  "after_comb_y = snd (add_statement [Assign (VSig sig_y) (VConst 1)] ''comb'' 0 (Module False))"

definition in_If_after_comb_y :: module where
  "in_If_after_comb_y = snd (If_enter (VSig sig_a) after_comb_y)"

text \<open>
  The state in which \<open>Else\<close> calls \<open>_pop_ctrl\<close> after
  \<open>with m.If(a): m.d.comb += y.eq(1)\<close> and \<open>with m.Else(): m.d.comb += y.eq(0)\<close>.
\<close>

definition before_Else_pop :: module where
  "before_Else_pop = after_If\<lparr>if_store := (if_store after_If)(0 := (if_store after_If 0)
      \<lparr>if_bodies := if_bodies (if_store after_If 0) @
         [[(''comb'', [Assign (VSig sig_y) (VConst 0)])]]\<rparr>)\<rparr>"

text \<open>
  Inside \<open>with m.Switch(x):\<close>, after \<open>with m.Case("01"): m.d.comb += y.eq(1)\<close>.
\<close>

definition after_Case_01 :: module where
  "after_Case_01 = snd (exec (m_Case [PStr ''01''] [d_add ''comb'' [Assign (VSig sig_y) (VConst 1)]])
                          in_Switch)"

text \<open>
  Inside \<open>with m.FSM():\<close>: in the body of \<open>with m.State("A"):\<close>, after \<open>m.next = "X"\<close>
  there, and after that \<open>State\<close> has been left.
\<close>

definition in_State_A :: module where
  "in_State_A = snd (State_enter ''A'' in_FSM)"

definition after_next_X :: module where
  "after_next_X = snd (next_setter ''X'' in_State_A)"

definition after_State_A :: module where
  "after_State_A = snd (State_exit 0 ''A'' [] (None, after_next_X))"

text \<open>
  After an FSM whose body raises once its two states are declared: the frame is still
  open when the exception has left the construct.
\<close>

definition after_FSM_raise :: module where
  "after_FSM_raise = snd (exec (m_FSM None ''sync'' ''fsm'' None
      [m_State ''A'' [m_next ''B''], m_State ''B'' [], py_raise 0]) (Module False))"

text \<open>
  After \<open>m.d.comb += y.eq(1)\<close>: with a conditional left waiting by
  \<open>with m.If(a): m.d.comb += x.eq(1)\<close>, inside \<open>with m.Switch(x):\<close>, and inside
  \<open>with m.FSM():\<close>. The body \<open>adds_then_raises\<close> is
  \<open>m.d.comb += x.eq(2)\<close> and then \<open>with m.If(a): raise\<close>.
\<close>

definition after_comb_y_If :: module where
  "after_comb_y_If = snd (exec (m_If (VSig sig_a) [d_add ''comb'' [Assign (VSig sig_x) (VConst 1)]])
                            after_comb_y)"

definition in_Switch_after_comb_y :: module where
  "in_Switch_after_comb_y = snd (Switch_enter (VSig sig_x) after_comb_y)"

definition in_FSM_after_comb_y :: module where
  "in_FSM_after_comb_y = snd (FSM_enter None ''sync'' ''fsm'' None after_comb_y)"

definition adds_then_raises :: "cmd list" where
  "adds_then_raises =
     [d_add ''comb'' [Assign (VSig sig_x) (VConst 2)], m_If (VSig sig_a) [py_raise 0]]"

text \<open>
  States in which an exception has left a body that had opened an \<open>If\<close>: after
  \<open>with m.If(a):\<close> at the top level, and after \<open>with m.Case(1):\<close> and
  \<open>with m.State("A"):\<close> inside their \<open>Switch\<close> and \<open>FSM\<close>. The frame of the inner \<open>If\<close>
  is still on the stack.
\<close>

definition after_If_raise :: module where
  "after_If_raise = snd (exec (m_If (VSig sig_a) [m_If (VSig sig_y) [], py_raise 0]) (Module False))"

definition after_Case_raise :: module where
  "after_Case_raise = snd (exec (m_Case [PConst 1] [m_If (VSig sig_a) [], py_raise 0]) in_Switch)"

definition after_State_raise :: module where
  "after_State_raise = snd (exec (m_State ''A'' [m_If (VSig sig_a) [], py_raise 0]) in_FSM)"

lemmas exec_unfold = Module_def If_enter_def If_exit_def If_finally_def Elif_enter_def Else_enter_def
  Else_exit_def Switch_enter_def Switch_exit_def Switch_finally_def Case_enter_def Case_exit_def
  Case_finally_def Default_enter_def Default_exit_def FSM_enter_def FSM_exit_def FSM_finally_def
  State_enter_def State_exit_def State_finally_def next_setter_def FSM_ongoing_def
  check_context_def check_signed_cond_def set_ctrl_If_def set_ctrl_Switch_def set_ctrl_FSM_def
  get_ctrl_If_def get_ctrl_Switch_def get_ctrl_FSM_def d_iadd_def add_statement_def
  flush_ctrl.simps pop_ctrl_def pop_if_def pop_switch_def pop_fsm_def warn_def fsm_register_def
  od_mem_def Let_def shape_width_def shape_signed_def
  sig_a_def sig_y_def sig_x_def after_If_def in_Switch_def in_FSM_def
  after_comb_y_def in_If_after_comb_y_def before_Else_pop_def
  after_Case_01_def pattern_bits_def pattern_space_def
  in_State_A_def after_next_X_def after_State_A_def after_FSM_raise_def
  after_comb_y_If_def in_Switch_after_comb_y_def in_FSM_after_comb_y_def adds_then_raises_def
  after_If_raise_def after_Case_raise_def after_State_raise_def

lemma bits_for_examples:
  "bits_for 0 = 1" "bits_for 1 = 1" "bits_for 2 = 2" "bits_for 3 = 2" "bits_for 4 = 3"
  "bits_for 5 = 3" "bits_for 7 = 3" "bits_for 8 = 4" "bits_for (- 1) = 1"
  by code_simp+

section \<open>Lemmas about the builder's operations\<close>

subsection \<open>What never shrinks\<close>

lemma od_get_od_set: "od_get (od_set k v kvs) k' = (if k' = k then Some v else od_get kvs k')"
  by (induction kvs) auto

lemma od_mem_iff: "od_mem k kvs \<longleftrightarrow> od_get kvs k \<noteq> None"
  by (induction kvs) (auto simp: od_mem_def)

text \<open>
  Every state an FSM knows has its ongoing signal: the two dictionaries are filled
  together, so they have the same keys in the same order.
\<close>

definition fsm_keys_ok :: "module \<Rightarrow> bool" where
  "fsm_keys_ok m \<longleftrightarrow>
     (\<forall>r. map fst (fsm_ongoing (fsm_store m r)) = map fst (fsm_encoding (fsm_store m r)))"

definition grows :: "module \<Rightarrow> module \<Rightarrow> bool" where
  "grows m m' \<longleftrightarrow>
     (\<forall>s d. driving m s = Some d \<longrightarrow> driving m' s = Some d) \<and>
     next_ref m \<le> next_ref m' \<and>
     (\<forall>r k b. r < next_ref m \<longrightarrow> od_get (switch_cases (switch_store m r)) k = Some b \<longrightarrow>
        od_get (switch_cases (switch_store m' r)) k = Some b) \<and>
     (\<forall>r n e. r < next_ref m \<longrightarrow> od_get (fsm_encoding (fsm_store m r)) n = Some e \<longrightarrow>
        od_get (fsm_encoding (fsm_store m' r)) n = Some e) \<and>
     (\<exists>ss. top_comb_statements m' = top_comb_statements m @ ss) \<and>
     (fsm_keys_ok m \<longrightarrow> fsm_keys_ok m')"

lemma grows_refl [simp]: "grows m m"
  by (simp add: grows_def fsm_keys_ok_def)

lemma grows_trans: "grows m1 m2 \<Longrightarrow> grows m2 m3 \<Longrightarrow> grows m1 m3"
  unfolding grows_def fsm_keys_ok_def
  by (intro conjI; (elim conjE)?) (force+)

lemma grows_same:
  "driving m' = driving m \<Longrightarrow> next_ref m' = next_ref m \<Longrightarrow> switch_store m' = switch_store m \<Longrightarrow>
   fsm_store m' = fsm_store m \<Longrightarrow> top_comb_statements m' = top_comb_statements m \<Longrightarrow> grows m m'"
  by (simp add: grows_def fsm_keys_ok_def)

lemma grows_warn [simp]: "grows m (warn w m)"
  by (simp add: grows_def fsm_keys_ok_def warn_def)

lemma fsm_ongoing_loop_grows:
  "fsm_ongoing_loop sg enc og m = (x, m') \<Longrightarrow> grows m m'"
proof (induction sg enc og m rule: fsm_ongoing_loop.induct)
  case (1 fsm_sig enc m)
  then show ?case by simp
next
  case (2 fsm_sig enc name sg rest m)
  show ?case
  proof (cases "od_get enc name")
    case None
    with "2.prems" show ?thesis by simp
  next
    case (Some e)
    let ?m1 = "m\<lparr>top_comb_statements := top_comb_statements m @
                 [Assign (VSig sg) (VEq (VSig fsm_sig) (VConst (int e)))]\<rparr>"
    have "grows m ?m1" by (simp add: grows_def fsm_keys_ok_def)
    moreover have "grows ?m1 m'"
      using "2.IH" [OF Some] "2.prems" Some by simp
    ultimately show ?thesis by (rule grows_trans)
  qed
qed

lemma fsm_emit_grows:
  "fsm_emit sg data ds m = (x, m') \<Longrightarrow> grows m m'"
proof (induction sg data ds m rule: fsm_emit.induct)
  case (1 fsm_sig data m)
  then show ?case by simp
next
  case (2 fsm_sig data d ds m)
  show ?case
  proof (cases "fsm_switch fsm_sig data d")
    case (Inl a)
    with "2.prems" show ?thesis by simp
  next
    case (Inr sw)
    let ?m1 = "m\<lparr>statements := stmts_append d sw (statements m)\<rparr>"
    have "grows m ?m1" by (simp add: grows_def fsm_keys_ok_def)
    moreover have "grows ?m1 m'"
      using "2.IH" [OF Inr] "2.prems" Inr by simp
    ultimately show ?thesis by (rule grows_trans)
  qed
qed

lemma pop_fsm_grows:
  assumes "pop_fsm r m = (x, m')"
  shows "grows m m'"
proof (cases "fsm_states (fsm_store m r) = []")
  case True
  with assms show ?thesis
    by (auto simp: pop_fsm_def Let_def grows_def fsm_keys_ok_def)
next
  case False
  show ?thesis
  proof (cases "od_get (fsm_encoding (fsm_store m r)) (fsm_init_key (fsm_store m r))")
    case None
    with False assms show ?thesis
      by (auto simp: pop_fsm_def Let_def)
  next
    case (Some init)
    define fsm_sig where "fsm_sig = Signal (FsmStateSig r) (fsm_name (fsm_store m r) @ ''_state'')
                              (RangeShape (length (fsm_encoding (fsm_store m r)))) (int init)"
    define data' where "data' = (fsm_store m r)\<lparr>fsm_decoding :=
                              foldl (\<lambda>acc sn. od_set (snd sn) (fst sn) acc)
                                (fsm_decoding (fsm_store m r)) (fsm_encoding (fsm_store m r)),
                            fsm_signal := Some fsm_sig\<rparr>"
    define m1 where "m1 = m\<lparr>fsm_store := (fsm_store m)(r := data')\<rparr>"
    have g1: "grows m m1"
      by (simp add: grows_def fsm_keys_ok_def m1_def data'_def)
    obtain y m2 where l: "fsm_ongoing_loop fsm_sig (fsm_encoding data') (fsm_ongoing data') m1 = (y, m2)"
      by fastforce
    have g2: "grows m1 m2"
      using l by (rule fsm_ongoing_loop_grows)
    show ?thesis
    proof (cases y)
      case (Some e)
      with assms False \<open>od_get _ _ = Some init\<close> l have "m' = m2"
        by (simp add: pop_fsm_def Let_def fsm_sig_def data'_def m1_def)
      with g1 g2 show ?thesis by (blast intro: grows_trans)
    next
      case None
      with assms False \<open>od_get _ _ = Some init\<close> l
      have "fsm_emit fsm_sig data' (touched_domains (map snd (fsm_states data'))) m2 = (x, m')"
        by (simp add: pop_fsm_def Let_def fsm_sig_def data'_def m1_def)
      then have "grows m2 m'" by (rule fsm_emit_grows)
      with g1 g2 show ?thesis by (blast intro: grows_trans)
    qed
  qed
qed

lemma pop_ctrl_grows:
  "pop_ctrl m = (x, m') \<Longrightarrow> grows m m'"
proof -
  assume a: "pop_ctrl m = (x, m')"
  show ?thesis
  proof (cases "ctrl_stack m = []")
    case True
    with a show ?thesis by (simp add: pop_ctrl_def)
  next
    case False
    let ?m1 = "m\<lparr>ctrl_stack := butlast (ctrl_stack m)\<rparr>"
    have g: "grows m ?m1" by (simp add: grows_def fsm_keys_ok_def)
    show ?thesis
    proof (cases "last (ctrl_stack m)")
      case (IfFrame r)
      with a False have "m' = pop_if (if_store ?m1 r) ?m1"
        by (simp add: pop_ctrl_def Let_def)
      then show ?thesis by (simp add: grows_def fsm_keys_ok_def pop_if_def)
    next
      case (SwitchFrame r)
      with a False have "m' = pop_switch (switch_store ?m1 r) ?m1"
        by (simp add: pop_ctrl_def Let_def)
      then show ?thesis by (simp add: grows_def fsm_keys_ok_def pop_switch_def)
    next
      case (FSMFrame r)
      with a False have "pop_fsm r ?m1 = (x, m')"
        by (simp add: pop_ctrl_def Let_def)
      then have "grows ?m1 m'" by (rule pop_fsm_grows)
      with g show ?thesis by (rule grows_trans)
    qed
  qed
qed

lemma flush_ctrl_grows:
  "flush_ctrl m = (x, m') \<Longrightarrow> grows m m'"
proof (induction m rule: flush_ctrl.induct)
  case (1 m)
  from "1.prems" show ?case
    using "1.IH" pop_ctrl_grows grows_trans
    by (subst (asm) flush_ctrl.simps) (fastforce split: if_splits prod.splits option.splits)
qed

lemma set_ctrl_If_grows: "set_ctrl_If data m = (res, m') \<Longrightarrow> grows m m'"
  unfolding set_ctrl_If_def
  by (auto split: prod.splits option.splits dest!: flush_ctrl_grows simp: grows_def fsm_keys_ok_def)

lemma set_ctrl_Switch_grows: "set_ctrl_Switch data m = (res, m') \<Longrightarrow> grows m m'"
  unfolding set_ctrl_Switch_def
  by (auto split: prod.splits option.splits dest!: flush_ctrl_grows simp: grows_def fsm_keys_ok_def)

lemma set_ctrl_FSM_grows:
  "set_ctrl_FSM data m = (res, m') \<Longrightarrow> map fst (fsm_ongoing data) = map fst (fsm_encoding data) \<Longrightarrow>
   grows m m'"
  unfolding set_ctrl_FSM_def
  by (auto split: prod.splits option.splits dest!: flush_ctrl_grows simp: grows_def fsm_keys_ok_def)

lemma drive_signals_grows: "drive_signals d ss m = (x, m') \<Longrightarrow> grows m m'"
proof (induction d ss m rule: drive_signals.induct)
  case (1 d m)
  then show ?case by simp
next
  case (2 d s ss m)
  show ?case
  proof (cases "driving m s")
    case None
    have "grows m (m\<lparr>driving := (driving m)(s \<mapsto> d)\<rparr>)"
      using None by (auto simp: grows_def fsm_keys_ok_def)
    moreover have "grows (m\<lparr>driving := (driving m)(s \<mapsto> d)\<rparr>) m'"
      using "2.IH"(1) [OF None] "2.prems" None by simp
    ultimately show ?thesis by (rule grows_trans)
  next
    case (Some cd)
    with "2.prems" "2.IH"(2) [OF Some] show ?thesis
      by (auto split: if_splits)
  qed
qed

lemma grows_statements [simp]: "grows m (m\<lparr>statements := s\<rparr>)"
  by (simp add: grows_def fsm_keys_ok_def)

lemma grows_statements_left: "grows (m\<lparr>statements := s\<rparr>) m' \<Longrightarrow> grows m m'"
  by (simp add: grows_def fsm_keys_ok_def)

lemma add_stmts_grows: "add_stmts d ss m = (x, m') \<Longrightarrow> grows m m'"
proof (induction d ss m rule: add_stmts.induct)
  case (3 d l r rest m)
  obtain y m1 where ds: "drive_signals d (val_lhs_signals l) m = (y, m1)"
    by fastforce
  then have g: "grows m m1" by (rule drive_signals_grows)
  show ?case
  proof (cases y)
    case None
    with "3.IH" [OF ds [symmetric] None] "3.prems" ds
    have "grows (m1\<lparr>statements := stmts_append d (Assign l r) (statements m1)\<rparr>) m'"
      by simp
    then have "grows m1 m'" by (rule grows_statements_left)
    with g show ?thesis by (rule grows_trans)
  next
    case (Some e)
    with "3.prems" ds g show ?thesis by simp
  qed
qed (auto dest: grows_statements_left)

lemma add_statement_grows: "add_statement assigns d dep m = (x, m') \<Longrightarrow> grows m m'"
  unfolding add_statement_def
  by (auto split: prod.splits option.splits dest!: flush_ctrl_grows add_stmts_grows intro: grows_trans)

lemma d_iadd_grows: "d_iadd d assigns m = (x, m') \<Longrightarrow> grows m m'"
  unfolding d_iadd_def
  by (auto split: if_splits dest!: add_statement_grows intro: grows_trans [OF grows_warn])

lemma grows_right_upd [simp]:
  "grows m (m'\<lparr>statements := a\<rparr>) = grows m m'"
  "grows m (m'\<lparr>depth := b\<rparr>) = grows m m'"
  "grows m (m'\<lparr>ctrl_context := c\<rparr>) = grows m m'"
  "grows m (m'\<lparr>ctrl_stack := e\<rparr>) = grows m m'"
  "grows m (m'\<lparr>warnings := f\<rparr>) = grows m m'"
  "grows m (m'\<lparr>if_store := g\<rparr>) = grows m m'"
  "grows m (m'\<lparr>generated := h\<rparr>) = grows m m'"
  "grows m (m'\<lparr>fsm_state_attr := i\<rparr>) = grows m m'"
  by (simp_all add: grows_def fsm_keys_ok_def)

lemma grows_left_upd [simp]:
  "grows (m\<lparr>statements := a\<rparr>) m' = grows m m'"
  "grows (m\<lparr>depth := b\<rparr>) m' = grows m m'"
  "grows (m\<lparr>ctrl_context := c\<rparr>) m' = grows m m'"
  "grows (m\<lparr>ctrl_stack := e\<rparr>) m' = grows m m'"
  "grows (m\<lparr>warnings := f\<rparr>) m' = grows m m'"
  "grows (m\<lparr>if_store := g\<rparr>) m' = grows m m'"
  "grows (m\<lparr>generated := h\<rparr>) m' = grows m m'"
  "grows (m\<lparr>fsm_state_attr := i\<rparr>) m' = grows m m'"
  by (simp_all add: grows_def fsm_keys_ok_def)

lemma grows_warn_iff [simp]:
  "grows m (warn w m') = grows m m'" "grows (warn w m) m' = grows m m'"
  by (simp_all add: warn_def)

lemma grows_check_signed_cond [simp]:
  "grows m (check_signed_cond c m') = grows m m'" "grows (check_signed_cond c m) m' = grows m m'"
  by (simp_all add: check_signed_cond_def)

lemma If_enter_grows: "If_enter cond m = (res, m') \<Longrightarrow> grows m m'"
  unfolding If_enter_def Let_def
  by (auto split: option.splits prod.splits sum.splits dest!: set_ctrl_If_grows)

lemma If_exit_grows: "If_exit r cond outer (x, m) = (y, m') \<Longrightarrow> grows m m'"
  unfolding If_exit_def If_finally_def
  by (auto split: option.splits prod.splits dest!: flush_ctrl_grows)

lemma Elif_enter_grows: "Elif_enter cond m = (res, m') \<Longrightarrow> grows m m'"
  unfolding Elif_enter_def Let_def
  by (auto split: option.splits if_splits)

lemma Else_enter_grows: "Else_enter m = (res, m') \<Longrightarrow> grows m m'"
  unfolding Else_enter_def Let_def
  by (auto split: option.splits if_splits)

lemma Else_exit_grows: "Else_exit r outer (x, m) = (y, m') \<Longrightarrow> grows m m'"
  unfolding Else_exit_def If_finally_def
  by (auto split: option.splits prod.splits dest!: flush_ctrl_grows pop_ctrl_grows
      intro: grows_trans)

lemma Switch_enter_grows: "Switch_enter t m = (res, m') \<Longrightarrow> grows m m'"
  unfolding Switch_enter_def Let_def
  by (auto split: option.splits prod.splits sum.splits dest!: set_ctrl_Switch_grows)

lemma Switch_exit_grows: "Switch_exit (x, m) = (y, m') \<Longrightarrow> grows m m'"
  unfolding Switch_exit_def Switch_finally_def
  by (auto split: option.splits prod.splits dest!: pop_ctrl_grows)

lemma case_patterns_grows: "case_patterns w ps new m = (res, m') \<Longrightarrow> grows m m'"
  by (induction w ps new m rule: case_patterns.induct) (auto split: if_splits simp: Let_def)

lemma Case_enter_grows: "Case_enter ps m = (res, m') \<Longrightarrow> grows m m'"
  unfolding Case_enter_def Let_def
  by (auto split: option.splits prod.splits sum.splits if_splits dest!: case_patterns_grows)

lemma grows_switch_case:
  "\<not> od_mem k (switch_cases (switch_store m r)) \<Longrightarrow>
   grows m (m\<lparr>switch_store := (switch_store m)(r := (switch_store m r)
       \<lparr>switch_cases := od_set k v (switch_cases (switch_store m r))\<rparr>)\<rparr>)"
  by (auto simp: grows_def fsm_keys_ok_def od_get_od_set od_mem_iff)

lemma Case_exit_grows: "Case_exit r new outer (x, m) = (y, m') \<Longrightarrow> grows m m'"
  unfolding Case_exit_def Case_finally_def
  by (auto split: option.splits prod.splits if_splits dest!: flush_ctrl_grows
      intro: grows_trans [OF _ grows_switch_case])

lemma Default_enter_grows: "Default_enter m = (res, m') \<Longrightarrow> grows m m'"
  unfolding Default_enter_def Let_def
  by (auto split: option.splits if_splits)

lemma Default_exit_grows: "Default_exit r outer (x, m) = (y, m') \<Longrightarrow> grows m m'"
  unfolding Default_exit_def Case_finally_def
  by (auto split: option.splits prod.splits if_splits dest!: flush_ctrl_grows
      intro: grows_trans [OF _ grows_switch_case])

lemma map_fst_od_set_fresh:
  "k \<notin> fst ` set kvs \<Longrightarrow> map fst (od_set k v kvs) = map fst kvs @ [k]"
  by (induction kvs) auto

lemma fsm_register_grows:
  assumes "\<not> od_mem name (fsm_encoding (fsm_store m r))"
  shows "grows m (fsm_register name r m)"
proof -
  let ?data = "fsm_store m r"
  have none: "od_get (fsm_encoding ?data) name = None"
    using assms by (simp add: od_mem_iff)
  have fresh: "name \<notin> fst ` set (fsm_encoding ?data)"
    using assms by (simp add: od_mem_def)
  have keys: "fsm_keys_ok m \<Longrightarrow> fsm_keys_ok (fsm_register name r m)"
  proof -
    assume ok: "fsm_keys_ok m"
    then have "map fst (fsm_ongoing ?data) = map fst (fsm_encoding ?data)"
      by (simp add: fsm_keys_ok_def)
    then have "set (map fst (fsm_ongoing ?data)) = set (map fst (fsm_encoding ?data))"
      by simp
    with fresh have "name \<notin> fst ` set (fsm_ongoing ?data)"
      by simp
    with fresh ok show ?thesis
      by (simp add: fsm_keys_ok_def fsm_register_def Let_def map_fst_od_set_fresh)
  qed
  have enc: "od_get (fsm_encoding (fsm_store (fsm_register name r m) r')) n = Some e"
    if "od_get (fsm_encoding (fsm_store m r')) n = Some e" for r' n e
    using that none by (auto simp: fsm_register_def Let_def od_get_od_set)
  show ?thesis
    unfolding grows_def
    using keys enc by (simp add: fsm_register_def Let_def)
qed

lemma FSM_enter_grows: "FSM_enter init d name reset m = (res, m') \<Longrightarrow> grows m m'"
  unfolding FSM_enter_def Let_def
  by (auto split: option.splits prod.splits sum.splits if_splits dest!: set_ctrl_FSM_grows)

lemma FSM_exit_grows: "FSM_exit r (x, m) = (y, m') \<Longrightarrow> grows m m'"
  unfolding FSM_exit_def FSM_finally_def
  by (auto split: option.splits prod.splits dest!: pop_ctrl_grows)

lemma State_enter_grows: "State_enter name m = (res, m') \<Longrightarrow> grows m m'"
  unfolding State_enter_def Let_def
  by (auto split: option.splits if_splits intro: fsm_register_grows)

lemma grows_fsm_states:
  "grows m (m\<lparr>fsm_store := (fsm_store m)(r := (fsm_store m r)\<lparr>fsm_states := v\<rparr>)\<rparr>)"
  by (auto simp: grows_def fsm_keys_ok_def)

lemma State_exit_grows: "State_exit r name outer (x, m) = (y, m') \<Longrightarrow> grows m m'"
  unfolding State_exit_def State_finally_def
  by (auto split: option.splits prod.splits dest!: flush_ctrl_grows
      intro: grows_trans [OF _ grows_fsm_states])

lemma next_setter_grows: "next_setter name m = (x, m') \<Longrightarrow> grows m m'"
  unfolding next_setter_def Let_def
  by (auto split: option.splits if_splits dest!: add_statement_grows
      intro: grows_trans [OF fsm_register_grows])

lemma FSM_ongoing_grows: "FSM_ongoing r name m = (res, m') \<Longrightarrow> grows m m'"
  unfolding FSM_ongoing_def Let_def
  by (auto split: option.splits if_splits intro: fsm_register_grows)

lemma exec_grows:
  "exec c m = (x, m') \<Longrightarrow> grows m m'"
  "exec_body cs m = (x, m') \<Longrightarrow> grows m m'"
proof (induction c m and cs m arbitrary: x m' and x m' rule: exec_exec_body.induct)
  case (1 d assigns m)
  then show ?case by (auto dest: d_iadd_grows)
next
  case (2 cond body m)
  show ?case
  proof (cases "If_enter cond m")
    case (Pair res m1)
    then have g: "grows m m1" by (rule If_enter_grows)
    show ?thesis
    proof (cases res)
      case (Inl e)
      with Pair "2.prems" g show ?thesis by simp
    next
      case (Inr a)
      obtain r outer where a: "a = (r, outer)" by (cases a)
      obtain y m2 where b: "exec_body body m1 = (y, m2)" by fastforce
      have "grows m1 m2"
        using "2.IH" [OF Pair [symmetric] _ _ b] Inr a by simp
      moreover have "grows m2 m'"
        using "2.prems" Pair Inr a b by (auto dest: If_exit_grows)
      ultimately show ?thesis using g by (blast intro: grows_trans)
    qed
  qed
next
  case (3 cond body m)
  show ?case
  proof (cases "Elif_enter cond m")
    case (Pair res m1)
    then have g: "grows m m1" by (rule Elif_enter_grows)
    show ?thesis
    proof (cases res)
      case (Inl e)
      with Pair "3.prems" g show ?thesis by simp
    next
      case (Inr a)
      obtain r outer where a: "a = (r, outer)" by (cases a)
      obtain y m2 where b: "exec_body body m1 = (y, m2)" by fastforce
      have "grows m1 m2"
        using "3.IH" [OF Pair [symmetric] _ _ b] Inr a by simp
      moreover have "grows m2 m'"
        using "3.prems" Pair Inr a b by (auto dest: If_exit_grows)
      ultimately show ?thesis using g by (blast intro: grows_trans)
    qed
  qed
next
  case (4 body m)
  show ?case
  proof (cases "Else_enter m")
    case (Pair res m1)
    then have g: "grows m m1" by (rule Else_enter_grows)
    show ?thesis
    proof (cases res)
      case (Inl e)
      with Pair "4.prems" g show ?thesis by simp
    next
      case (Inr a)
      obtain r outer where a: "a = (r, outer)" by (cases a)
      obtain y m2 where b: "exec_body body m1 = (y, m2)" by fastforce
      have "grows m1 m2"
        using "4.IH" [OF Pair [symmetric] _ _ b] Inr a by simp
      moreover have "grows m2 m'"
        using "4.prems" Pair Inr a b by (auto dest: Else_exit_grows)
      ultimately show ?thesis using g by (blast intro: grows_trans)
    qed
  qed
next
  case (5 test body m)
  show ?case
  proof (cases "Switch_enter test m")
    case (Pair res m1)
    then have g: "grows m m1" by (rule Switch_enter_grows)
    show ?thesis
    proof (cases res)
      case (Some e)
      with Pair "5.prems" g show ?thesis by simp
    next
      case None
      obtain y m2 where b: "exec_body body m1 = (y, m2)" by fastforce
      have "grows m1 m2"
        using "5.IH" [OF Pair [symmetric] _ b] None by simp
      moreover have "grows m2 m'"
        using "5.prems" Pair None b by (auto dest: Switch_exit_grows)
      ultimately show ?thesis using g by (blast intro: grows_trans)
    qed
  qed
next
  case (6 patterns body m)
  show ?case
  proof (cases "Case_enter patterns m")
    case (Pair res m1)
    then have g: "grows m m1" by (rule Case_enter_grows)
    show ?thesis
    proof (cases res)
      case (Inl e)
      with Pair "6.prems" g show ?thesis by simp
    next
      case (Inr a)
      obtain r new outer where a: "a = (r, new, outer)" by (cases a)
      obtain y m2 where b: "exec_body body m1 = (y, m2)" by fastforce
      have "grows m1 m2"
        using "6.IH" [OF Pair [symmetric] _ _ _ b] Inr a by simp
      moreover have "grows m2 m'"
        using "6.prems" Pair Inr a b by (auto dest: Case_exit_grows)
      ultimately show ?thesis using g by (blast intro: grows_trans)
    qed
  qed
next
  case (7 body m)
  show ?case
  proof (cases "Default_enter m")
    case (Pair res m1)
    then have g: "grows m m1" by (rule Default_enter_grows)
    show ?thesis
    proof (cases res)
      case (Inl e)
      with Pair "7.prems" g show ?thesis by simp
    next
      case (Inr a)
      obtain r outer where a: "a = (r, outer)" by (cases a)
      obtain y m2 where b: "exec_body body m1 = (y, m2)" by fastforce
      have "grows m1 m2"
        using "7.IH" [OF Pair [symmetric] _ _ b] Inr a by simp
      moreover have "grows m2 m'"
        using "7.prems" Pair Inr a b by (auto dest: Default_exit_grows)
      ultimately show ?thesis using g by (blast intro: grows_trans)
    qed
  qed
next
  case (8 init d name reset body m)
  show ?case
  proof (cases "FSM_enter init d name reset m")
    case (Pair res m1)
    then have g: "grows m m1" by (rule FSM_enter_grows)
    show ?thesis
    proof (cases res)
      case (Inl e)
      with Pair "8.prems" g show ?thesis by simp
    next
      case (Inr r)
      obtain y m2 where b: "exec_body body m1 = (y, m2)" by fastforce
      have "grows m1 m2"
        using "8.IH" [OF Pair [symmetric] _ b] Inr by simp
      moreover have "grows m2 m'"
        using "8.prems" Pair Inr b by (auto dest: FSM_exit_grows)
      ultimately show ?thesis using g by (blast intro: grows_trans)
    qed
  qed
next
  case (9 name body m)
  show ?case
  proof (cases "State_enter name m")
    case (Pair res m1)
    then have g: "grows m m1" by (rule State_enter_grows)
    show ?thesis
    proof (cases res)
      case (Inl e)
      with Pair "9.prems" g show ?thesis by simp
    next
      case (Inr a)
      obtain r outer where a: "a = (r, outer)" by (cases a)
      obtain y m2 where b: "exec_body body m1 = (y, m2)" by fastforce
      have "grows m1 m2"
        using "9.IH" [OF Pair [symmetric] _ _ b] Inr a by simp
      moreover have "grows m2 m'"
        using "9.prems" Pair Inr a b by (auto dest: State_exit_grows)
      ultimately show ?thesis using g by (blast intro: grows_trans)
    qed
  qed
next
  case (10 name m)
  then show ?case by (auto dest: next_setter_grows)
next
  case (11 fsm name m)
  then show ?case by (auto split: option.splits prod.splits sum.splits dest: FSM_ongoing_grows)
next
  case (12 n m)
  then show ?case by simp
next
  case (13 m)
  then show ?case by simp
next
  case (14 c cs m)
  obtain y m1 where a: "exec c m = (y, m1)" by fastforce
  then have g: "grows m m1" by (rule "14.IH"(1))
  show ?case
  proof (cases y)
    case None
    with "14.prems" a have "exec_body cs m1 = (x, m')" by simp
    then have "grows m1 m'"
      using "14.IH"(2) [OF a [symmetric] None] by simp
    with g show ?thesis by (rule grows_trans)
  next
    case (Some e)
    with "14.prems" a g show ?thesis by simp
  qed
qed

subsection \<open>The nesting depth\<close>

lemma fsm_ongoing_loop_depth:
  "fsm_ongoing_loop sg enc og m = (x, m') \<Longrightarrow> depth m' = depth m"
  by (induction sg enc og m rule: fsm_ongoing_loop.induct) (auto split: option.splits)

lemma fsm_emit_depth:
  "fsm_emit sg data ds m = (x, m') \<Longrightarrow> depth m' = depth m"
  by (induction sg data ds m rule: fsm_emit.induct) (auto split: sum.splits)

lemma pop_fsm_depth:
  assumes "pop_fsm r m = (x, m')"
  shows "depth m' = depth m"
proof (cases "fsm_states (fsm_store m r) = []")
  case True
  with assms show ?thesis
    by (auto simp: pop_fsm_def Let_def)
next
  case False
  show ?thesis
  proof (cases "od_get (fsm_encoding (fsm_store m r)) (fsm_init_key (fsm_store m r))")
    case None
    with False assms show ?thesis
      by (auto simp: pop_fsm_def Let_def)
  next
    case (Some init)
    with False assms show ?thesis
      unfolding pop_fsm_def Let_def
      by (auto split: prod.splits option.splits
          dest!: fsm_ongoing_loop_depth fsm_emit_depth)
  qed
qed

lemma pop_ctrl_depth:
  "pop_ctrl m = (x, m') \<Longrightarrow> depth m' = depth m"
  by (auto simp: pop_ctrl_def Let_def pop_if_def pop_switch_def split: frame.splits if_splits
      dest: pop_fsm_depth)

lemma flush_ctrl_depth:
  "flush_ctrl m = (x, m') \<Longrightarrow> depth m' = depth m"
proof (induction m rule: flush_ctrl.induct)
  case (1 m)
  from "1.prems" show ?case
    using "1.IH" pop_ctrl_depth
    by (subst (asm) flush_ctrl.simps) (auto split: if_splits prod.splits option.splits)
qed

lemma flush_ctrl_stack:
  "flush_ctrl m = (None, m') \<Longrightarrow>
   ctrl_stack m' = take (nat (depth m)) (ctrl_stack m) \<and> int (length (ctrl_stack m')) \<le> depth m"
proof (induction m rule: flush_ctrl.induct)
  case (1 m)
  show ?case
  proof (cases "int (length (ctrl_stack m)) > depth m")
    case False
    with "1.prems" show ?thesis
      by (subst (asm) flush_ctrl.simps) auto
  next
    case True
    from "1.prems" True obtain m1 where p: "pop_ctrl m = (None, m1)"
      by (subst (asm) flush_ctrl.simps) (auto split: prod.splits option.splits)
    have ne: "ctrl_stack m \<noteq> []"
      using p by (auto simp: pop_ctrl_def)
    from "1.prems" True p ne have f: "flush_ctrl m1 = (None, m')"
      by (subst (asm) flush_ctrl.simps) auto
    have s1: "ctrl_stack m1 = butlast (ctrl_stack m)" and d1: "depth m1 = depth m"
      using p ne pop_ctrl_stack pop_ctrl_depth by auto
    from "1.IH" [OF True p [symmetric] refl ne f] s1 d1 True show ?thesis
      by (auto simp: take_butlast butlast_conv_take)
  qed
qed

lemma set_ctrl_depth:
  "set_ctrl_If idata m = (res, m') \<Longrightarrow> depth m' = depth m"
  "set_ctrl_Switch sdata m = (res, m') \<Longrightarrow> depth m' = depth m"
  "set_ctrl_FSM fdata m = (res, m') \<Longrightarrow> depth m' = depth m"
  unfolding set_ctrl_If_def set_ctrl_Switch_def set_ctrl_FSM_def
  by (auto split: prod.splits option.splits dest!: flush_ctrl_depth)

lemma drive_signals_depth: "drive_signals d ss m = (x, m') \<Longrightarrow> depth m' = depth m"
  by (induction d ss m rule: drive_signals.induct) (auto split: option.splits if_splits)

lemma add_stmts_depth: "add_stmts d ss m = (x, m') \<Longrightarrow> depth m' = depth m"
  by (induction d ss m rule: add_stmts.induct)
    (auto split: option.splits prod.splits dest!: drive_signals_depth)

lemma add_statement_depth: "add_statement assigns d dep m = (x, m') \<Longrightarrow> depth m' = depth m"
  unfolding add_statement_def
  by (auto split: prod.splits option.splits dest!: flush_ctrl_depth add_stmts_depth)

lemma depth_warn [simp]: "depth (warn w m) = depth m"
  by (simp add: warn_def)

lemma depth_check_signed_cond [simp]: "depth (check_signed_cond c m) = depth m"
  by (simp add: check_signed_cond_def)

lemma depth_fsm_register [simp]: "depth (fsm_register name r m) = depth m"
  by (simp add: fsm_register_def Let_def)

lemma d_iadd_depth: "d_iadd d assigns m = (x, m') \<Longrightarrow> depth m' = depth m"
  unfolding d_iadd_def
  by (auto split: if_splits dest!: add_statement_depth)

lemma If_enter_depth:
  "If_enter cond m = (res, m') \<Longrightarrow> depth m' = (case res of Inl e \<Rightarrow> depth m | Inr a \<Rightarrow> depth m + 1)"
  unfolding If_enter_def Let_def
  by (auto split: option.splits prod.splits sum.splits dest!: set_ctrl_depth)

lemma If_exit_depth: "If_exit r cond outer (x, m) = (y, m') \<Longrightarrow> depth m' = depth m - 1"
  unfolding If_exit_def If_finally_def
  by (auto split: option.splits prod.splits dest!: flush_ctrl_depth)

lemma Elif_enter_depth:
  "Elif_enter cond m = (res, m') \<Longrightarrow> depth m' = (case res of Inl e \<Rightarrow> depth m | Inr a \<Rightarrow> depth m + 1)"
  unfolding Elif_enter_def Let_def
  by (auto split: option.splits if_splits)

lemma Else_enter_depth:
  "Else_enter m = (res, m') \<Longrightarrow> depth m' = (case res of Inl e \<Rightarrow> depth m | Inr a \<Rightarrow> depth m + 1)"
  unfolding Else_enter_def Let_def
  by (auto split: option.splits if_splits)

lemma Else_exit_depth: "Else_exit r outer (x, m) = (y, m') \<Longrightarrow> depth m' = depth m - 1"
  unfolding Else_exit_def If_finally_def
  by (auto split: option.splits prod.splits dest!: flush_ctrl_depth pop_ctrl_depth)

lemma Switch_enter_depth:
  "Switch_enter t m = (Some e, m') \<Longrightarrow> depth m' = depth m"
  "Switch_enter t m = (None, m') \<Longrightarrow> depth m' = depth m + 1"
  unfolding Switch_enter_def Let_def
  by (auto split: option.splits prod.splits sum.splits dest!: set_ctrl_depth)

lemma Switch_exit_depth: "Switch_exit (x, m) = (y, m') \<Longrightarrow> depth m' = depth m - 1"
  unfolding Switch_exit_def Switch_finally_def
  by (auto split: option.splits prod.splits dest!: pop_ctrl_depth)

lemma case_patterns_depth: "case_patterns w ps new m = (res, m') \<Longrightarrow> depth m' = depth m"
  by (induction w ps new m rule: case_patterns.induct) (auto split: if_splits simp: Let_def)

lemma Case_enter_depth: "Case_enter ps m = (res, m') \<Longrightarrow> depth m' = depth m"
  unfolding Case_enter_def Let_def
  by (auto split: option.splits prod.splits sum.splits if_splits dest!: case_patterns_depth)

lemma Case_exit_depth: "Case_exit r new outer (x, m) = (y, m') \<Longrightarrow> depth m' = depth m"
  unfolding Case_exit_def Case_finally_def
  by (auto split: option.splits prod.splits if_splits dest!: flush_ctrl_depth)

lemma Default_enter_depth: "Default_enter m = (res, m') \<Longrightarrow> depth m' = depth m"
  unfolding Default_enter_def Let_def
  by (auto split: option.splits if_splits)

lemma Default_exit_depth: "Default_exit r outer (x, m) = (y, m') \<Longrightarrow> depth m' = depth m"
  unfolding Default_exit_def Case_finally_def
  by (auto split: option.splits prod.splits if_splits dest!: flush_ctrl_depth)

lemma FSM_enter_depth:
  "FSM_enter init d name reset m = (res, m') \<Longrightarrow>
   depth m' = (case res of Inl e \<Rightarrow> depth m | Inr a \<Rightarrow> depth m + 1)"
  unfolding FSM_enter_def Let_def
  by (auto split: option.splits prod.splits sum.splits if_splits dest!: set_ctrl_depth)

lemma FSM_exit_depth: "FSM_exit r (x, m) = (y, m') \<Longrightarrow> depth m' = depth m - 1"
  unfolding FSM_exit_def FSM_finally_def
  by (auto split: option.splits prod.splits dest!: pop_ctrl_depth)

lemma State_enter_depth: "State_enter name m = (res, m') \<Longrightarrow> depth m' = depth m"
  unfolding State_enter_def Let_def
  by (auto split: option.splits if_splits)

lemma State_exit_depth: "State_exit r name outer (x, m) = (y, m') \<Longrightarrow> depth m' = depth m"
  unfolding State_exit_def State_finally_def
  by (auto split: option.splits prod.splits dest!: flush_ctrl_depth)

lemma next_setter_depth: "next_setter name m = (x, m') \<Longrightarrow> depth m' = depth m"
  unfolding next_setter_def Let_def
  by (auto split: option.splits if_splits dest!: add_statement_depth)

lemma FSM_ongoing_depth: "FSM_ongoing r name m = (res, m') \<Longrightarrow> depth m' = depth m"
  unfolding FSM_ongoing_def Let_def
  by (auto split: option.splits if_splits)

text \<open>Every call returns with the depth it was made at, whether it raises or not.\<close>

lemma exec_depth:
  "exec c m = (x, m') \<Longrightarrow> depth m' = depth m"
  "exec_body cs m = (x, m') \<Longrightarrow> depth m' = depth m"
proof (induction c m and cs m arbitrary: x m' and x m' rule: exec_exec_body.induct)
  case (1 d assigns m)
  then show ?case by (auto dest: d_iadd_depth)
next
  case (2 cond body m)
  obtain res m1 where e: "If_enter cond m = (res, m1)" by fastforce
  show ?case
  proof (cases res)
    case (Inl err)
    with e "2.prems" If_enter_depth [OF e] show ?thesis by simp
  next
    case (Inr a)
    obtain r outer where a: "a = (r, outer)" by (cases a)
    obtain y m2 where b: "exec_body body m1 = (y, m2)" by fastforce
    have "depth m2 = depth m1"
      using "2.IH" [OF e [symmetric] _ _ b] Inr a by simp
    moreover have "depth m' = depth m2 - 1"
      using "2.prems" e Inr a b by (auto dest: If_exit_depth)
    ultimately show ?thesis using If_enter_depth [OF e] Inr by simp
  qed
next
  case (3 cond body m)
  obtain res m1 where e: "Elif_enter cond m = (res, m1)" by fastforce
  show ?case
  proof (cases res)
    case (Inl err)
    with e "3.prems" Elif_enter_depth [OF e] show ?thesis by simp
  next
    case (Inr a)
    obtain r outer where a: "a = (r, outer)" by (cases a)
    obtain y m2 where b: "exec_body body m1 = (y, m2)" by fastforce
    have "depth m2 = depth m1"
      using "3.IH" [OF e [symmetric] _ _ b] Inr a by simp
    moreover have "depth m' = depth m2 - 1"
      using "3.prems" e Inr a b by (auto dest: If_exit_depth)
    ultimately show ?thesis using Elif_enter_depth [OF e] Inr by simp
  qed
next
  case (4 body m)
  obtain res m1 where e: "Else_enter m = (res, m1)" by fastforce
  show ?case
  proof (cases res)
    case (Inl err)
    with e "4.prems" Else_enter_depth [OF e] show ?thesis by simp
  next
    case (Inr a)
    obtain r outer where a: "a = (r, outer)" by (cases a)
    obtain y m2 where b: "exec_body body m1 = (y, m2)" by fastforce
    have "depth m2 = depth m1"
      using "4.IH" [OF e [symmetric] _ _ b] Inr a by simp
    moreover have "depth m' = depth m2 - 1"
      using "4.prems" e Inr a b by (auto dest: Else_exit_depth)
    ultimately show ?thesis using Else_enter_depth [OF e] Inr by simp
  qed
next
  case (5 test body m)
  obtain res m1 where e: "Switch_enter test m = (res, m1)" by fastforce
  show ?case
  proof (cases res)
    case (Some err)
    with e "5.prems" Switch_enter_depth(1) show ?thesis by auto
  next
    case None
    obtain y m2 where b: "exec_body body m1 = (y, m2)" by fastforce
    have "depth m2 = depth m1"
      using "5.IH" [OF e [symmetric] _ b] None by simp
    moreover have "depth m' = depth m2 - 1"
      using "5.prems" e None b by (auto dest: Switch_exit_depth)
    ultimately show ?thesis using Switch_enter_depth(2) e None by auto
  qed
next
  case (6 patterns body m)
  obtain res m1 where e: "Case_enter patterns m = (res, m1)" by fastforce
  show ?case
  proof (cases res)
    case (Inl err)
    with e "6.prems" Case_enter_depth [OF e] show ?thesis by simp
  next
    case (Inr a)
    obtain r new outer where a: "a = (r, new, outer)" by (cases a)
    obtain y m2 where b: "exec_body body m1 = (y, m2)" by fastforce
    have "depth m2 = depth m1"
      using "6.IH" [OF e [symmetric] _ _ _ b] Inr a by simp
    moreover have "depth m' = depth m2"
      using "6.prems" e Inr a b by (auto dest: Case_exit_depth)
    ultimately show ?thesis using Case_enter_depth [OF e] by simp
  qed
next
  case (7 body m)
  obtain res m1 where e: "Default_enter m = (res, m1)" by fastforce
  show ?case
  proof (cases res)
    case (Inl err)
    with e "7.prems" Default_enter_depth [OF e] show ?thesis by simp
  next
    case (Inr a)
    obtain r outer where a: "a = (r, outer)" by (cases a)
    obtain y m2 where b: "exec_body body m1 = (y, m2)" by fastforce
    have "depth m2 = depth m1"
      using "7.IH" [OF e [symmetric] _ _ b] Inr a by simp
    moreover have "depth m' = depth m2"
      using "7.prems" e Inr a b by (auto dest: Default_exit_depth)
    ultimately show ?thesis using Default_enter_depth [OF e] by simp
  qed
next
  case (8 init d name reset body m)
  obtain res m1 where e: "FSM_enter init d name reset m = (res, m1)" by fastforce
  show ?case
  proof (cases res)
    case (Inl err)
    with e "8.prems" FSM_enter_depth [OF e] show ?thesis by simp
  next
    case (Inr r)
    obtain y m2 where b: "exec_body body m1 = (y, m2)" by fastforce
    have "depth m2 = depth m1"
      using "8.IH" [OF e [symmetric] _ b] Inr by simp
    moreover have "depth m' = depth m2 - 1"
      using "8.prems" e Inr b by (auto dest: FSM_exit_depth)
    ultimately show ?thesis using FSM_enter_depth [OF e] Inr by simp
  qed
next
  case (9 name body m)
  obtain res m1 where e: "State_enter name m = (res, m1)" by fastforce
  show ?case
  proof (cases res)
    case (Inl err)
    with e "9.prems" State_enter_depth [OF e] show ?thesis by simp
  next
    case (Inr a)
    obtain r outer where a: "a = (r, outer)" by (cases a)
    obtain y m2 where b: "exec_body body m1 = (y, m2)" by fastforce
    have "depth m2 = depth m1"
      using "9.IH" [OF e [symmetric] _ _ b] Inr a by simp
    moreover have "depth m' = depth m2"
      using "9.prems" e Inr a b by (auto dest: State_exit_depth)
    ultimately show ?thesis using State_enter_depth [OF e] by simp
  qed
next
  case (10 name m)
  then show ?case by (auto dest: next_setter_depth)
next
  case (11 fsm name m)
  then show ?case by (auto split: option.splits prod.splits sum.splits dest: FSM_ongoing_depth)
next
  case (12 n m)
  then show ?case by simp
next
  case (13 m)
  then show ?case by simp
next
  case (14 c cs m)
  obtain y m1 where a: "exec c m = (y, m1)" by fastforce
  then have g: "depth m1 = depth m" by (rule "14.IH"(1))
  show ?case
  proof (cases y)
    case None
    with "14.prems" a have "exec_body cs m1 = (x, m')" by simp
    then have "depth m' = depth m1"
      using "14.IH"(2) [OF a [symmetric] None] by simp
    with g show ?thesis by simp
  next
    case (Some e)
    with "14.prems" a g show ?thesis by simp
  qed
qed

subsection \<open>A body that raises\<close>

lemma flush_ctrl_noop:
  "int (length (ctrl_stack m)) \<le> depth m \<Longrightarrow> flush_ctrl m = (None, m)"
  by (subst flush_ctrl.simps) simp

lemma If_enter_outer:
  assumes "If_enter cond m = (Inr (r, outer), m1)"
  shows "outer = statements (snd (flush_ctrl (check_signed_cond cond m)))"
    and "depth m1 = depth m + 1"
  using assms If_enter_depth [OF assms]
  unfolding If_enter_def Let_def set_ctrl_If_def
  by (auto split: option.splits prod.splits sum.splits)

lemma If_body_raises:
  assumes e: "If_enter cond m = (Inr (r, outer), m1)"
    and b: "exec_body body m1 = (Some x, m2)"
  shows "\<exists>m'. exec (m_If cond body) m = (Some x, m') \<and> depth m' = depth m \<and>
      statements m' = outer"
  using e b If_enter_outer(2) [OF e] exec_depth(2) [OF b]
  by (simp add: If_exit_def If_finally_def)

lemma Elif_body_raises:
  assumes e: "Elif_enter cond m = (Inr (r, outer), m1)"
    and b: "exec_body body m1 = (Some x, m2)"
  shows "\<exists>m'. exec (m_Elif cond body) m = (Some x, m') \<and> depth m' = depth m \<and>
      statements m' = statements m"
proof -
  from e have "outer = statements m" "depth m1 = depth m + 1"
    unfolding Elif_enter_def Let_def
    by (auto split: option.splits if_splits simp: check_signed_cond_def warn_def)
  with e b exec_depth(2) [OF b] show ?thesis
    by (simp add: If_exit_def If_finally_def)
qed

lemma Else_body_raises:
  assumes e: "Else_enter m = (Inr (r, outer), m1)"
    and b: "exec_body body m1 = (Some x, m2)"
  shows "\<exists>m'. exec (m_Else body) m = (Some x, m') \<and> depth m' = depth m \<and>
      statements m' = statements m"
proof -
  from e have "outer = statements m" "depth m1 = depth m + 1"
    unfolding Else_enter_def Let_def
    by (auto split: option.splits if_splits)
  with e b exec_depth(2) [OF b] show ?thesis
    by (simp add: Else_exit_def If_finally_def)
qed

lemma case_patterns_statements:
  "case_patterns w ps new m = (res, m') \<Longrightarrow> statements m' = statements m"
  by (induction w ps new m rule: case_patterns.induct)
    (auto split: if_splits simp: Let_def warn_def)

lemma Case_body_raises:
  assumes e: "Case_enter patterns m = (Inr (r, new, outer), m1)"
    and b: "exec_body body m1 = (Some x, m2)"
  shows "\<exists>m'. exec (m_Case patterns body) m = (Some x, m') \<and> depth m' = depth m \<and>
      statements m' = statements m"
proof -
  from e have "outer = statements m"
    unfolding Case_enter_def Let_def
    by (auto split: option.splits if_splits prod.splits sum.splits
        dest!: case_patterns_statements simp: warn_def)
  with e b exec_depth(2) [OF b] Case_enter_depth [OF e] show ?thesis
    by (simp add: Case_exit_def Case_finally_def)
qed

lemma Default_body_raises:
  assumes e: "Default_enter m = (Inr (r, outer), m1)"
    and b: "exec_body body m1 = (Some x, m2)"
  shows "\<exists>m'. exec (m_Default body) m = (Some x, m') \<and> depth m' = depth m \<and>
      statements m' = statements m"
proof -
  from e have "outer = statements m"
    unfolding Default_enter_def Let_def
    by (auto split: option.splits if_splits simp: warn_def)
  with e b exec_depth(2) [OF b] Default_enter_depth [OF e] show ?thesis
    by (simp add: Default_exit_def Case_finally_def)
qed

lemma State_body_raises:
  assumes e: "State_enter name m = (Inr (r, outer), m1)"
    and b: "exec_body body m1 = (Some x, m2)"
  shows "\<exists>m'. exec (m_State name body) m = (Some x, m') \<and> depth m' = depth m \<and>
      statements m' = statements m"
proof -
  from e have "outer = statements m"
    unfolding State_enter_def Let_def
    by (auto split: option.splits if_splits simp: fsm_register_def Let_def)
  with e b exec_depth(2) [OF b] State_enter_depth [OF e] show ?thesis
    by (simp add: State_exit_def State_finally_def)
qed

lemma Switch_body_raises:
  assumes e: "Switch_enter test m = (None, m1)"
    and b: "exec_body body m1 = (Some x, m2)"
  shows "\<exists>m'. exec (m_Switch test body) m = (Some x, m') \<and> depth m' = depth m \<and>
      ctrl_context m' = None \<and> statements m' = statements m2"
  using e b exec_depth(2) [OF b] Switch_enter_depth(2) [OF e]
  by (simp add: Switch_exit_def Switch_finally_def)

subsection \<open>The control stack after a flush\<close>

lemma add_stmts_stack: "add_stmts d ss m = (x, m') \<Longrightarrow> ctrl_stack m' = ctrl_stack m"
proof -
  have ds: "\<And>d ss m x m'. drive_signals d ss m = (x, m') \<Longrightarrow> ctrl_stack m' = ctrl_stack m"
    subgoal for d ss m x m'
      by (induction d ss m rule: drive_signals.induct) (auto split: option.splits if_splits)
    done
  show "add_stmts d ss m = (x, m') \<Longrightarrow> ctrl_stack m' = ctrl_stack m"
    by (induction d ss m rule: add_stmts.induct)
      (auto split: option.splits prod.splits dest!: ds)
qed

lemma add_statement_stack:
  assumes "add_statement assigns d dep m = (None, m')"
  shows "ctrl_stack m' = take (nat (depth m)) (ctrl_stack m)"
    and "int (length (ctrl_stack m')) \<le> depth m"
  using assms unfolding add_statement_def
  by (auto split: prod.splits option.splits dest!: flush_ctrl_stack add_stmts_stack)

lemma If_enter_stack:
  assumes "If_enter cond m = (Inr (r, outer), m1)"
  shows "ctrl_stack m1 = take (nat (depth m)) (ctrl_stack m) @ [IfFrame r]"
  using assms unfolding If_enter_def Let_def set_ctrl_If_def
  by (auto split: prod.splits option.splits dest!: flush_ctrl_stack
      simp: check_signed_cond_def warn_def)

lemma Switch_enter_stack:
  assumes "Switch_enter test m = (None, m1)"
  shows "\<exists>r. ctrl_stack m1 = take (nat (depth m)) (ctrl_stack m) @ [SwitchFrame r]"
  using assms unfolding Switch_enter_def Let_def set_ctrl_Switch_def
  by (auto split: prod.splits option.splits dest!: flush_ctrl_stack)

lemma FSM_enter_stack:
  assumes "FSM_enter init d name reset m = (Inr r, m1)"
  shows "ctrl_stack m1 = take (nat (depth m)) (ctrl_stack m) @ [FSMFrame r]"
  using assms unfolding FSM_enter_def Let_def set_ctrl_FSM_def
  by (auto split: prod.splits option.splits if_splits dest!: flush_ctrl_stack
      simp: warn_def)

lemma flush_ctrl_sibling:
  assumes "ctrl_stack m = fs @ [f]" and "int (length fs) = depth m"
  shows "flush_ctrl m = pop_ctrl m"
proof (cases "pop_ctrl m")
  case (Pair x mp)
  show ?thesis
  proof (cases x)
    case (Some e)
    with Pair assms show ?thesis
      by (subst flush_ctrl.simps) simp
  next
    case None
    from Pair assms have "ctrl_stack mp = fs" "depth mp = depth m"
      using pop_ctrl_stack [of m x mp] pop_ctrl_depth [of m x mp] by auto
    with assms have "flush_ctrl mp = (None, mp)"
      by (simp add: flush_ctrl_noop)
    with Pair None assms show ?thesis
      by (subst flush_ctrl.simps) simp
  qed
qed

lemma flush_ctrl_closed:
  "flush_ctrl m = (None, m') \<Longrightarrow> int (length (ctrl_stack m')) \<le> depth m'"
proof -
  assume f: "flush_ctrl m = (None, m')"
  then have "int (length (ctrl_stack m')) \<le> depth m"
    by (rule flush_ctrl_stack [THEN conjunct2])
  with flush_ctrl_depth [OF f] show ?thesis
    by (simp only:)
qed

lemma scoped_exit_closed:
  "exec (m_Case patterns body) m = (None, m') \<Longrightarrow> int (length (ctrl_stack m')) \<le> depth m'"
  "exec (m_Default body) m = (None, m') \<Longrightarrow> int (length (ctrl_stack m')) \<le> depth m'"
  "exec (m_State name body) m = (None, m') \<Longrightarrow> int (length (ctrl_stack m')) \<le> depth m'"
  by (auto simp: Case_exit_def Case_finally_def Default_exit_def State_exit_def State_finally_def
      split: prod.splits sum.splits option.splits if_splits
      dest!: flush_ctrl_closed)

subsection \<open>Builder code between two points of a run\<close>

text \<open>
  One step of builder code: a whole call, or the part of a context manager before or
  after its body, so that two points anywhere in nested bodies are linked by a chain of
  steps.
\<close>

inductive builder_step :: "module \<Rightarrow> module \<Rightarrow> bool" where
  step_exec: "exec c m = (x, m') \<Longrightarrow> builder_step m m'"
| step_If_enter: "If_enter cond m = (res, m') \<Longrightarrow> builder_step m m'"
| step_Elif_enter: "Elif_enter cond m = (res, m') \<Longrightarrow> builder_step m m'"
| step_Else_enter: "Else_enter m = (res, m') \<Longrightarrow> builder_step m m'"
| step_Switch_enter: "Switch_enter test m = (x, m') \<Longrightarrow> builder_step m m'"
| step_Case_enter: "Case_enter patterns m = (res3, m') \<Longrightarrow> builder_step m m'"
| step_Default_enter: "Default_enter m = (res, m') \<Longrightarrow> builder_step m m'"
| step_FSM_enter: "FSM_enter init d name reset m = (res1, m') \<Longrightarrow> builder_step m m'"
| step_State_enter: "State_enter name m = (res, m') \<Longrightarrow> builder_step m m'"
| step_If_exit: "If_exit r cond outer (x, m) = (y, m') \<Longrightarrow> builder_step m m'"
| step_Else_exit: "Else_exit r outer (x, m) = (y, m') \<Longrightarrow> builder_step m m'"
| step_Switch_exit: "Switch_exit (x, m) = (y, m') \<Longrightarrow> builder_step m m'"
| step_Case_exit: "Case_exit r new outer (x, m) = (y, m') \<Longrightarrow> builder_step m m'"
| step_Default_exit: "Default_exit r outer (x, m) = (y, m') \<Longrightarrow> builder_step m m'"
| step_FSM_exit: "FSM_exit r (x, m) = (y, m') \<Longrightarrow> builder_step m m'"
| step_State_exit: "State_exit r name outer (x, m) = (y, m') \<Longrightarrow> builder_step m m'"
| step_ongoing: "FSM_ongoing r name m = (res2, m') \<Longrightarrow> builder_step m m'"

lemma builder_step_grows: "builder_step m m' \<Longrightarrow> grows m m'"
  by (induction rule: builder_step.induct)
    (blast intro: exec_grows If_enter_grows Elif_enter_grows Else_enter_grows Switch_enter_grows
      Case_enter_grows Default_enter_grows FSM_enter_grows State_enter_grows If_exit_grows
      Else_exit_grows Switch_exit_grows Case_exit_grows Default_exit_grows FSM_exit_grows
      State_exit_grows FSM_ongoing_grows)+

lemma builder_steps_grows: "builder_step\<^sup>*\<^sup>* m m' \<Longrightarrow> grows m m'"
  by (induction rule: rtranclp_induct) (auto dest: builder_step_grows intro: grows_trans)

lemma grows_driving: "grows m m' \<Longrightarrow> driving m s = Some d \<Longrightarrow> driving m' s = Some d"
  by (simp add: grows_def fsm_keys_ok_def)

lemma drive_signals_ok:
  "drive_signals d ss m = (None, m') \<Longrightarrow> s \<in> set ss \<Longrightarrow> driving m' s = Some d"
proof (induction d ss m rule: drive_signals.induct)
  case (1 d m)
  then show ?case by simp
next
  case (2 d s' ss m)
  show ?case
  proof (cases "driving m s'")
    case None
    let ?m1 = "m\<lparr>driving := (driving m)(s' \<mapsto> d)\<rparr>"
    from None "2.prems" have r: "drive_signals d ss ?m1 = (None, m')" by simp
    show ?thesis
    proof (cases "s \<in> set ss")
      case True
      with "2.IH"(1) [OF None r] show ?thesis by simp
    next
      case False
      with "2.prems" have "s = s'" by simp
      then have "driving ?m1 s = Some d" by simp
      with drive_signals_grows [OF r] show ?thesis by (blast dest: grows_driving)
    qed
  next
    case (Some cd)
    with "2.prems" have eq: "cd = d" and r: "drive_signals d ss m = (None, m')"
      by (auto split: if_splits)
    show ?thesis
    proof (cases "s \<in> set ss")
      case True
      with "2.IH"(2) [OF Some _ r] eq show ?thesis by simp
    next
      case False
      with "2.prems" have "s = s'" by simp
      with Some eq have "driving m s = Some d" by simp
      with drive_signals_grows [OF r] show ?thesis by (blast dest: grows_driving)
    qed
  qed
qed

lemma add_stmts_ok:
  "add_stmts d ss m = (None, m') \<Longrightarrow> Assign l r \<in> set ss \<Longrightarrow> s \<in> set (val_lhs_signals l) \<Longrightarrow>
   driving m' s = Some d"
proof (induction d ss m rule: add_stmts.induct)
  case (1 d m)
  then show ?case by simp
next
  case (2 d t cs rest m)
  then show ?case by simp
next
  case (3 d l' r' rest m)
  from "3.prems"(1) obtain m1 where ds: "drive_signals d (val_lhs_signals l') m = (None, m1)"
    and rest: "add_stmts d rest (m1\<lparr>statements := stmts_append d (Assign l' r') (statements m1)\<rparr>)
        = (None, m')"
    by (auto split: prod.splits option.splits)
  show ?case
  proof (cases "Assign l r \<in> set rest")
    case True
    from "3.IH" [OF ds [symmetric] refl rest True "3.prems"(3)] show ?thesis .
  next
    case False
    with "3.prems" have "l = l'" by simp
    with ds "3.prems"(3) have "driving m1 s = Some d"
      by (auto dest: drive_signals_ok)
    moreover have "grows m1 m'"
      using add_stmts_grows [OF rest] by simp
    ultimately show ?thesis by (blast dest: grows_driving)
  qed
qed auto

lemma drive_signals_conflict:
  "driving m s = Some cd \<Longrightarrow> cd \<noteq> d \<Longrightarrow> s \<in> set ss \<Longrightarrow>
   \<exists>s' cd' m'. drive_signals d ss m = (Some (DriverConflict s' d cd'), m') \<and> cd' \<noteq> d"
proof (induction d ss m rule: drive_signals.induct)
  case (1 d m)
  then show ?case by simp
next
  case (2 d s' ss m)
  show ?case
  proof (cases "driving m s'")
    case None
    with "2.prems" have "s \<noteq> s'" by auto
    with "2.prems" have "s \<in> set ss" by simp
    moreover have "driving (m\<lparr>driving := (driving m)(s' \<mapsto> d)\<rparr>) s = Some cd"
      using \<open>s \<noteq> s'\<close> "2.prems" by simp
    ultimately show ?thesis
      using "2.IH"(1) [OF None _ "2.prems"(2)] None by simp
  next
    case (Some cd')
    show ?thesis
    proof (cases "cd' = d")
      case True
      with Some "2.prems" have "s \<noteq> s'" by auto
      with "2.prems" have "s \<in> set ss" by simp
      with "2.IH"(2) [OF Some _ "2.prems"(1,2)] Some True show ?thesis by simp
    next
      case False
      with Some show ?thesis by simp
    qed
  qed
qed

lemma drive_signals_error:
  "drive_signals d ss m = (Some e, m') \<Longrightarrow> \<exists>s' cd'. e = DriverConflict s' d cd' \<and> cd' \<noteq> d"
  by (induction d ss m rule: drive_signals.induct) (auto split: option.splits if_splits)

lemma add_stmts_conflict:
  "driving m s = Some cd \<Longrightarrow> cd \<noteq> d \<Longrightarrow> Assign l r \<in> set ss \<Longrightarrow>
   s \<in> set (val_lhs_signals l) \<Longrightarrow>
   \<exists>x m'. add_stmts d ss m = (Some x, m') \<and>
     (x = OnlyAssignments d \<or> (\<exists>s' cd'. x = DriverConflict s' d cd' \<and> cd' \<noteq> d))"
proof (induction d ss m rule: add_stmts.induct)
  case (1 d m)
  then show ?case by simp
next
  case (2 d t cs rest m)
  then show ?case by simp
next
  case (3 d l' r' rest m)
  obtain y m1 where ds: "drive_signals d (val_lhs_signals l') m = (y, m1)"
    by fastforce
  show ?case
  proof (cases y)
    case (Some e)
    show ?thesis
    proof (cases "s \<in> set (val_lhs_signals l')")
      case True
      from drive_signals_conflict [OF "3.prems"(1,2) True] ds Some show ?thesis by auto
    next
      case False
      have "\<exists>s' cd'. e = DriverConflict s' d cd' \<and> cd' \<noteq> d"
        using ds Some by (auto dest: drive_signals_error)
      with ds Some show ?thesis by simp
    qed
  next
    case None
    let ?m2 = "m1\<lparr>statements := stmts_append d (Assign l' r') (statements m1)\<rparr>"
    have "s \<notin> set (val_lhs_signals l')"
    proof
      assume "s \<in> set (val_lhs_signals l')"
      from drive_signals_conflict [OF "3.prems"(1,2) this] ds None show False by auto
    qed
    with "3.prems" have mem: "Assign l r \<in> set rest" by auto
    have "driving ?m2 s = Some cd"
      using drive_signals_grows [OF ds] "3.prems"(1) by (simp add: grows_def fsm_keys_ok_def)
    from "3.IH" [OF ds [symmetric] None this "3.prems"(2) mem "3.prems"(4)] ds None
    show ?thesis by simp
  qed
qed auto

subsection \<open>Lowering a conditional\<close>

lemma stmts_get_stmts_append:
  "stmts_get (stmts_append d s acc) d' = (if d' = d then stmts_get acc d @ [s] else stmts_get acc d')"
  by (induction acc) (auto simp: stmts_get_def)












subsection \<open>Cases of a pattern switch\<close>

lemma grows_switch_cases:
  "grows m m' \<Longrightarrow> r < next_ref m \<Longrightarrow> od_get (switch_cases (switch_store m r)) k = Some b \<Longrightarrow>
   od_get (switch_cases (switch_store m' r)) k = Some b"
  by (simp add: grows_def fsm_keys_ok_def)

lemma case_patterns_consts:
  "case_patterns w (map PConst vs) new m =
     (Inr (new @ map PatInt (filter (\<lambda>v. \<not> w < (if v = 0 then 0 else bits_for v)) vs)),
      m\<lparr>warnings := warnings m @
           map (\<lambda>v. WiderPattern v (bits_for v) w)
             (filter (\<lambda>v. w < (if v = 0 then 0 else bits_for v)) vs)\<rparr>)"
proof (induction vs arbitrary: new m)
  case Nil
  show ?case by simp
next
  case (Cons v vs)
  show ?case
    by (cases "v = 0") (simp_all add: Cons.IH Let_def warn_def)
qed

lemma case_patterns_append:
  "case_patterns w (ps1 @ ps2) new m =
     (case case_patterns w ps1 new m of
        (Inl e, m') \<Rightarrow> (Inl e, m')
      | (Inr new1, m1) \<Rightarrow> case_patterns w ps2 new1 m1)"
  by (induction w ps1 new m rule: case_patterns.induct) (simp_all add: Let_def)

subsection \<open>States of an FSM\<close>

lemma grows_fsm_encoding:
  "grows m m' \<Longrightarrow> r < next_ref m \<Longrightarrow> od_get (fsm_encoding (fsm_store m r)) n = Some e \<Longrightarrow>
   od_get (fsm_encoding (fsm_store m' r)) n = Some e"
  by (simp add: grows_def fsm_keys_ok_def)

lemma grows_next_ref: "grows m m' \<Longrightarrow> r < next_ref m \<Longrightarrow> r < next_ref m'"
  by (simp add: grows_def fsm_keys_ok_def)

lemma fsm_undefined_some:
  "od_mem x enc \<Longrightarrow> \<not> od_mem x states \<Longrightarrow>
   \<exists>y. fsm_undefined enc states = Some y \<and> \<not> od_mem y states"
proof (induction enc)
  case Nil
  then show ?case by (simp add: od_mem_def)
next
  case (Cons a enc)
  obtain n e where a: "a = (n, e)" by (cases a)
  show ?case
  proof (cases "od_mem n states")
    case False
    with a show ?thesis by simp
  next
    case True
    with Cons.prems(2) have "x \<noteq> n" by blast
    with Cons.prems(1) a have "od_mem x enc" by (simp add: od_mem_def)
    from Cons.IH [OF this Cons.prems(2)] True a show ?thesis by simp
  qed
qed

lemma fsm_register_mem:
  "od_mem name (fsm_encoding (fsm_store (fsm_register name r m) r))"
  by (simp add: fsm_register_def Let_def od_mem_iff od_get_od_set)

lemma next_ref_fsm_register [simp]: "next_ref (fsm_register name r m) = next_ref m"
  by (simp add: fsm_register_def Let_def)

lemma next_setter_registers:
  assumes "next_setter x m = (None, m')" and "find_fsm (rev (ctrl_stack m)) = Some r"
    and "r < next_ref m"
  shows "od_mem x (fsm_encoding (fsm_store m' r))"
proof -
  let ?m1 = "if \<not> od_mem x (fsm_encoding (fsm_store m r)) then fsm_register x r m else m"
  have mem: "od_mem x (fsm_encoding (fsm_store ?m1 r))"
    by (simp add: fsm_register_mem)
  then obtain e where e: "od_get (fsm_encoding (fsm_store ?m1 r)) x = Some e"
    by (auto simp: od_mem_iff)
  have r: "r < next_ref ?m1"
    using assms(3) by simp
  from assms(1,2) have "add_statement [FSMNext r x] (fsm_domain (fsm_store ?m1 r))
      (int (length (ctrl_stack ?m1))) ?m1 = (None, m')"
    by (simp add: next_setter_def Let_def split: if_splits)
  then have "grows ?m1 m'"
    by (rule add_statement_grows)
  from grows_fsm_encoding [OF this r e] show ?thesis
    by (simp add: od_mem_iff)
qed

lemma FSM_ongoing_registers:
  "FSM_ongoing r x m = (res, m') \<Longrightarrow> od_mem x (fsm_encoding (fsm_store m' r))"
  unfolding FSM_ongoing_def Let_def
  by (auto split: option.splits if_splits simp: fsm_register_mem)

lemma fsm_ongoing_loop_error:
  "fsm_ongoing_loop sg enc og m = (Some e, m') \<Longrightarrow> \<exists>k. e = KeyError k"
  by (induction sg enc og m rule: fsm_ongoing_loop.induct) (auto split: option.splits)

lemma fsm_cases_error: "fsm_cases enc ss = Inl e \<Longrightarrow> \<exists>k. e = KeyError k"
  by (induction enc ss rule: fsm_cases.induct) (auto split: option.splits sum.splits)

lemma fsm_emit_error:
  "fsm_emit sg data ds m = (Some e, m') \<Longrightarrow> \<exists>k. e = KeyError k"
  by (induction sg data ds m rule: fsm_emit.induct)
    (auto split: sum.splits simp: fsm_switch_def dest: fsm_cases_error)

lemma pop_fsm_error:
  assumes "pop_fsm r m = (Some e, m')"
  shows "\<exists>k. e = KeyError k"
proof (cases "fsm_states (fsm_store m r) = []")
  case True
  with assms show ?thesis
    by (auto simp: pop_fsm_def Let_def)
next
  case False
  show ?thesis
  proof (cases "od_get (fsm_encoding (fsm_store m r)) (fsm_init_key (fsm_store m r))")
    case None
    with False assms show ?thesis
      by (auto simp: pop_fsm_def Let_def)
  next
    case (Some init)
    with False assms show ?thesis
      unfolding pop_fsm_def Let_def
      by (auto split: prod.splits option.splits
          dest!: fsm_ongoing_loop_error fsm_emit_error)
  qed
qed

lemma pop_ctrl_error:
  "pop_ctrl m = (Some e, m') \<Longrightarrow> e = IndexError \<or> (\<exists>k. e = KeyError k)"
  by (auto simp: pop_ctrl_def Let_def split: frame.splits if_splits dest: pop_fsm_error)

lemma flush_ctrl_error:
  "flush_ctrl m = (Some e, m') \<Longrightarrow> e = IndexError \<or> (\<exists>k. e = KeyError k)"
proof (induction m rule: flush_ctrl.induct)
  case (1 m)
  from "1.prems" show ?case
    using "1.IH" pop_ctrl_error
    by (subst (asm) flush_ctrl.simps) (fastforce split: if_splits prod.splits option.splits)
qed

lemma next_setter_error:
  "next_setter x m = (Some e, m') \<Longrightarrow> e \<noteq> StateNotDefined z"
  unfolding next_setter_def Let_def add_statement_def
  by (auto split: option.splits if_splits prod.splits dest!: flush_ctrl_error)

lemma FSM_ongoing_error:
  "FSM_ongoing r x m = (Inl e, m') \<Longrightarrow> e \<noteq> StateNotDefined z"
  unfolding FSM_ongoing_def Let_def
  by (auto split: option.splits if_splits)

subsection \<open>Closing an FSM frame, and elaboration\<close>

lemma Module_keys_ok: "fsm_keys_ok (Module b)"
  by (simp add: fsm_keys_ok_def Module_def)

lemma reachable_keys_ok: "builder_step\<^sup>*\<^sup>* (Module b) m \<Longrightarrow> fsm_keys_ok m"
  using builder_steps_grows [of "Module b" m] Module_keys_ok [of b]
  by (simp add: grows_def)

lemma fsm_ongoing_loop_result:
  "fsm_ongoing_loop sg enc og m = (None, m') \<Longrightarrow>
   \<exists>new. m' = m\<lparr>top_comb_statements := top_comb_statements m @ new\<rparr> \<and>
     list_all2 (\<lambda>no st. \<exists>e. od_get enc (fst no) = Some e \<and>
        st = Assign (VSig (snd no)) (VEq (VSig sg) (VConst (int e)))) og new"
proof (induction sg enc og m rule: fsm_ongoing_loop.induct)
  case (1 fsm_sig enc m)
  then show ?case by simp
next
  case (2 fsm_sig enc name sg rest m)
  from "2.prems" obtain e where e: "od_get enc name = Some e"
    by (auto split: option.splits)
  let ?st = "Assign (VSig sg) (VEq (VSig fsm_sig) (VConst (int e)))"
  let ?m1 = "m\<lparr>top_comb_statements := top_comb_statements m @ [?st]\<rparr>"
  from "2.prems" e have "fsm_ongoing_loop fsm_sig enc rest ?m1 = (None, m')"
    by simp
  from "2.IH" [OF e this] obtain new
    where m': "m' = ?m1\<lparr>top_comb_statements := top_comb_statements ?m1 @ new\<rparr>"
      and all: "list_all2 (\<lambda>no st. \<exists>e. od_get enc (fst no) = Some e \<and>
        st = Assign (VSig (snd no)) (VEq (VSig fsm_sig) (VConst (int e)))) rest new"
    by blast
  show ?case
    by (rule exI [of _ "?st # new"]) (use m' all e in simp)
qed

lemma fsm_emit_result:
  "fsm_emit sg data ds m = (x, m') \<Longrightarrow>
   top_comb_statements m' = top_comb_statements m \<and> fsm_store m' = fsm_store m \<and>
   (\<forall>d. \<exists>rest. stmts_get (statements m') d = stmts_get (statements m) d @ rest \<and>
      (\<forall>st \<in> set rest. \<exists>t cs. st = Switch t cs))"
proof (induction sg data ds m rule: fsm_emit.induct)
  case (1 fsm_sig data m)
  then show ?case by simp
next
  case (2 fsm_sig data d ds m)
  show ?case
  proof (cases "fsm_switch fsm_sig data d")
    case (Inl a)
    with "2.prems" show ?thesis by simp
  next
    case (Inr sw)
    then obtain cs where sw: "sw = Switch (VSig fsm_sig) cs"
      by (auto simp: fsm_switch_def split: sum.splits)
    let ?m1 = "m\<lparr>statements := stmts_append d sw (statements m)\<rparr>"
    from "2.prems" Inr have "fsm_emit fsm_sig data ds ?m1 = (x, m')" by simp
    from "2.IH" [OF Inr this]
    have tc: "top_comb_statements m' = top_comb_statements m" "fsm_store m' = fsm_store m"
      and st: "\<And>d'. \<exists>rest. stmts_get (statements m') d' = stmts_get (statements ?m1) d' @ rest \<and>
      (\<forall>st \<in> set rest. \<exists>t cs. st = Switch t cs)"
      by simp_all
    have "\<exists>rest. stmts_get (statements m') d' = stmts_get (statements m) d' @ rest \<and>
      (\<forall>st \<in> set rest. \<exists>t cs. st = Switch t cs)" for d'
    proof -
      from st [of d'] obtain rest
        where r: "stmts_get (statements m') d' = stmts_get (statements ?m1) d' @ rest"
          "\<forall>st \<in> set rest. \<exists>t cs. st = Switch t cs"
        by blast
      show ?thesis
      proof (cases "d' = d")
        case True
        with r sw show ?thesis
          by (intro exI [of _ "sw # rest"]) (simp add: stmts_get_stmts_append)
      next
        case False
        with r show ?thesis
          by (intro exI [of _ rest]) (simp add: stmts_get_stmts_append)
      qed
    qed
    with tc show ?thesis by blast
  qed
qed

lemma pop_fsm_result:
  assumes pop: "pop_fsm r m = (None, m')" and states: "fsm_states (fsm_store m r) \<noteq> []"
  shows "\<exists>sg new. fsm_signal (fsm_store m' r) = Some sg \<and>
      top_comb_statements m' = top_comb_statements m @ new \<and>
      list_all2 (\<lambda>no st. \<exists>e. od_get (fsm_encoding (fsm_store m r)) (fst no) = Some e \<and>
         st = Assign (VSig (snd no)) (VEq (VSig sg) (VConst (int e))))
        (fsm_ongoing (fsm_store m r)) new \<and>
      (\<forall>d. \<exists>rest. stmts_get (statements m') d = stmts_get (statements m) d @ rest \<and>
         (\<forall>st \<in> set rest. \<exists>t cs. st = Switch t cs))"
proof -
  let ?data = "fsm_store m r"
  from pop states obtain init where init: "od_get (fsm_encoding ?data) (fsm_init_key ?data) = Some init"
    by (auto simp: pop_fsm_def Let_def split: option.splits)
  define fsm_sig where "fsm_sig = Signal (FsmStateSig r) (fsm_name ?data @ ''_state'')
                              (RangeShape (length (fsm_encoding ?data))) (int init)"
  define data' where "data' = ?data\<lparr>fsm_decoding :=
                              foldl (\<lambda>acc sn. od_set (snd sn) (fst sn) acc)
                                (fsm_decoding ?data) (fsm_encoding ?data),
                            fsm_signal := Some fsm_sig\<rparr>"
  define m1 where "m1 = m\<lparr>fsm_store := (fsm_store m)(r := data')\<rparr>"
  obtain y m2 where l: "fsm_ongoing_loop fsm_sig (fsm_encoding data') (fsm_ongoing data') m1 = (y, m2)"
    by fastforce
  have y: "y = None"
    using pop states init l
    by (cases y) (simp_all add: pop_fsm_def Let_def fsm_sig_def data'_def m1_def)
  have e: "fsm_emit fsm_sig data' (touched_domains (map snd (fsm_states data'))) m2 = (None, m')"
    using pop states init l y
    by (simp add: pop_fsm_def Let_def fsm_sig_def data'_def m1_def)
  from fsm_ongoing_loop_result [OF l [unfolded y]] obtain new
    where m2: "m2 = m1\<lparr>top_comb_statements := top_comb_statements m1 @ new\<rparr>"
      and all: "list_all2 (\<lambda>no st. \<exists>e. od_get (fsm_encoding data') (fst no) = Some e \<and>
        st = Assign (VSig (snd no)) (VEq (VSig fsm_sig) (VConst (int e)))) (fsm_ongoing data') new"
    by blast
  from fsm_emit_result [OF e]
  have tc: "top_comb_statements m' = top_comb_statements m2" and fs: "fsm_store m' = fsm_store m2"
    and st: "\<forall>d. \<exists>rest. stmts_get (statements m') d = stmts_get (statements m2) d @ rest \<and>
      (\<forall>st \<in> set rest. \<exists>t cs. st = Switch t cs)"
    by simp_all
  have "fsm_signal (fsm_store m' r) = Some fsm_sig"
    using fs m2 by (simp add: m1_def data'_def)
  moreover have "top_comb_statements m' = top_comb_statements m @ new"
    using tc m2 by (simp add: m1_def)
  moreover have "list_all2 (\<lambda>no st. \<exists>e. od_get (fsm_encoding ?data) (fst no) = Some e \<and>
         st = Assign (VSig (snd no)) (VEq (VSig fsm_sig) (VConst (int e))))
        (fsm_ongoing ?data) new"
    using all by (simp add: data'_def)
  moreover have "\<forall>d. \<exists>rest. stmts_get (statements m') d = stmts_get (statements m) d @ rest \<and>
         (\<forall>st \<in> set rest. \<exists>t cs. st = Switch t cs)"
    using st m2 by (simp add: m1_def)
  ultimately show ?thesis by blast
qed

lemma flush_grows: "flush m = (x, m') \<Longrightarrow> grows m m'"
proof (induction m rule: flush.induct)
  case (1 m)
  from "1.prems" show ?case
    using "1.IH" pop_ctrl_grows grows_trans
    by (subst (asm) flush.simps) (fastforce split: if_splits prod.splits option.splits)
qed

lemma od_get_append:
  "od_get (xs @ ys) k = (case od_get xs k of None \<Rightarrow> od_get ys k | Some v \<Rightarrow> Some v)"
  by (induction xs) auto

lemma add_statements_get:
  "stmts_get (frag_statements (add_statements d ss f)) d = stmts_get (frag_statements f) d @ ss"
  by (cases "od_get (frag_statements f) d")
    (simp_all add: add_statements_def stmts_get_def od_get_append od_get_od_set)

lemma add_driver_statements [simp]:
  "frag_statements (add_driver sg d f) = frag_statements f"
  by (simp add: add_driver_def)

lemma add_drivers_statements [simp]:
  "frag_statements (foldl (\<lambda>f sg. add_driver sg d f) f sgs) = frag_statements f"
  by (induction sgs arbitrary: f) simp_all

lemma add_driver_mem:
  "\<exists>l. od_get (frag_drivers (add_driver sg d f)) d = Some l \<and> sg \<in> set l \<and>
     (\<forall>l0. od_get (frag_drivers f) d = Some l0 \<longrightarrow> set l0 \<subseteq> set l)"
  by (cases "od_get (frag_drivers f) d")
    (auto simp: add_driver_def od_get_append od_get_od_set)

lemma add_drivers_keep:
  "od_get (frag_drivers f) d = Some l0 \<Longrightarrow>
   \<exists>l. od_get (frag_drivers (foldl (\<lambda>f sg. add_driver sg d f) f sgs)) d = Some l \<and> set l0 \<subseteq> set l"
proof (induction sgs arbitrary: f l0)
  case Nil
  then show ?case by simp
next
  case (Cons sg sgs)
  from add_driver_mem [of sg d f] Cons.prems obtain l1
    where l1: "od_get (frag_drivers (add_driver sg d f)) d = Some l1" "set l0 \<subseteq> set l1"
    by blast
  from Cons.IH [OF l1(1)] l1(2) show ?case
    by auto
qed

lemma add_drivers_mem:
  "sg \<in> set sgs \<Longrightarrow>
   \<exists>l. od_get (frag_drivers (foldl (\<lambda>f sg. add_driver sg d f) f sgs)) d = Some l \<and> sg \<in> set l"
proof (induction sgs arbitrary: f)
  case Nil
  then show ?case by simp
next
  case (Cons s sgs)
  show ?case
  proof (cases "sg = s")
    case True
    from add_driver_mem [of s d f] obtain l1
      where l1: "od_get (frag_drivers (add_driver s d f)) d = Some l1" "s \<in> set l1"
      by blast
    from add_drivers_keep [OF l1(1), of sgs] l1(2) True show ?thesis
      by auto
  next
    case False
    with Cons.prems have "sg \<in> set sgs" by simp
    from Cons.IH [OF this, of "add_driver s d f"] show ?thesis by simp
  qed
qed

section \<open>Properties\<close>

subsection \<open>The encoding of the initial state\<close>

text \<open>
  C1. The builder numbers the states of an FSM in the order of their first reference and
  leaves that numbering as it is when the frame closes: \<open>_pop_ctrl\<close> only looks the initial
  state's number up and gives it to the state signal as its reset value. With
  \<open>m.FSM(init="A")\<close> and the states declared in the order \<open>B\<close>, \<open>A\<close>, the construct
  completes, the final encoding is \<open>B \<mapsto> 0\<close>, \<open>A \<mapsto> 1\<close>, and the state signal has the
  reset value \<open>1\<close>: the initial state does not have the encoding \<open>0\<close>.
\<close>

theorem fsm_init_encoding_B_A:
  "fst (exec (m_FSM (Some ''A'') ''sync'' ''fsm'' None [m_State ''B'' [], m_State ''A'' []])
          (Module False)) = None \<and>
   fsm_encoding (fsm_store (snd (exec (m_FSM (Some ''A'') ''sync'' ''fsm'' None
          [m_State ''B'' [], m_State ''A'' []]) (Module False))) 0)
     = [(''B'', 0), (''A'', 1)] \<and>
   od_get (fsm_encoding (fsm_store (snd (exec (m_FSM (Some ''A'') ''sync'' ''fsm'' None
          [m_State ''B'' [], m_State ''A'' []]) (Module False))) 0)) ''A'' \<noteq> Some 0 \<and>
   fsm_signal (fsm_store (snd (exec (m_FSM (Some ''A'') ''sync'' ''fsm'' None
          [m_State ''B'' [], m_State ''A'' []]) (Module False))) 0)
     = Some (Signal (FsmStateSig 0) ''fsm_state'' (RangeShape 2) 1)"
  by (simp add: exec_unfold fsm_init_key_def touched_domains_def)

subsection \<open>Priority lowering of a conditional\<close>



subsection \<open>Driver conflicts\<close>

text \<open>
  C3. Once a statement that assigns to signal \<open>s\<close> has been added under domain \<open>d1\<close>,
  then after any further builder code (whole calls, entries into bodies and exits from
  them, so at any nesting) an addition under another domain \<open>d2\<close> of an assignment to \<open>s\<close>
  raises the driver conflict that names \<open>s\<close>, \<open>d2\<close> and \<open>d1\<close>, provided the auto-close that
  precedes every addition succeeds; a list of statements with such an assignment in it
  is rejected as well (by a driver conflict naming \<open>d2\<close> and another domain, or for holding
  a statement that cannot be added). An assignment to \<open>s\<close> under \<open>d1\<close> itself is accepted
  and appended.
\<close>

theorem driver_conflict:
  "add_statement assigns1 d1 dep1 m0 = (None, m1) \<Longrightarrow>
   Assign l1 r1 \<in> set assigns1 \<Longrightarrow> s \<in> set (val_lhs_signals l1) \<Longrightarrow>
   builder_step\<^sup>*\<^sup>* m1 m2 \<Longrightarrow>
   flush_ctrl m2 = (None, m3) \<Longrightarrow>
   (d2 \<noteq> d1 \<longrightarrow>
      add_statement [Assign (VSig s) r2] d2 dep2 m2 = (Some (DriverConflict s d2 d1), m3)) \<and>
   (d2 \<noteq> d1 \<and> Assign l2 r2 \<in> set assigns2 \<and> s \<in> set (val_lhs_signals l2) \<longrightarrow>
      (\<exists>x m'. add_statement assigns2 d2 dep2 m2 = (Some x, m') \<and>
         (x = OnlyAssignments d2 \<or> (\<exists>s' cd'. x = DriverConflict s' d2 cd' \<and> cd' \<noteq> d2)))) \<and>
   add_statement [Assign (VSig s) r2] d1 dep2 m2
     = (None, m3\<lparr>statements := stmts_append d1 (Assign (VSig s) r2) (statements m3)\<rparr>)"
proof -
  assume first: "add_statement assigns1 d1 dep1 m0 = (None, m1)"
    and mem: "Assign l1 r1 \<in> set assigns1" "s \<in> set (val_lhs_signals l1)"
    and later: "builder_step\<^sup>*\<^sup>* m1 m2"
    and fl: "flush_ctrl m2 = (None, m3)"
  from first obtain m0' where "add_stmts d1 assigns1 m0' = (None, m1)"
    by (auto simp: add_statement_def split: prod.splits option.splits)
  from add_stmts_ok [OF this mem] have "driving m1 s = Some d1" .
  with builder_steps_grows [OF later] have "driving m2 s = Some d1"
    by (blast dest: grows_driving)
  with flush_ctrl_grows [OF fl] have dr: "driving m3 s = Some d1"
    by (blast dest: grows_driving)
  have a: "d2 \<noteq> d1 \<Longrightarrow>
      add_statement [Assign (VSig s) r2] d2 dep2 m2 = (Some (DriverConflict s d2 d1), m3)"
    using fl dr by (simp add: add_statement_def)
  have b: "d2 \<noteq> d1 \<Longrightarrow> Assign l2 r2 \<in> set assigns2 \<Longrightarrow> s \<in> set (val_lhs_signals l2) \<Longrightarrow>
      \<exists>x m'. add_statement assigns2 d2 dep2 m2 = (Some x, m') \<and>
         (x = OnlyAssignments d2 \<or> (\<exists>s' cd'. x = DriverConflict s' d2 cd' \<and> cd' \<noteq> d2))"
    using add_stmts_conflict [OF dr, of d2 l2 r2 assigns2] fl
    by (auto simp: add_statement_def)
  have c: "add_statement [Assign (VSig s) r2] d1 dep2 m2
     = (None, m3\<lparr>statements := stmts_append d1 (Assign (VSig s) r2) (statements m3)\<rparr>)"
    using fl dr by (simp add: add_statement_def)
  from a b c show ?thesis by blast
qed

theorem driver_conflict_witness:
  "add_statement [Assign (VSig sig_y) (VConst 0)] ''sync'' 1 in_If_after_comb_y
     = (Some (DriverConflict sig_y ''sync'' ''comb''), in_If_after_comb_y) \<and>
   add_statement [Assign (VSig sig_y) (VConst 0)] ''comb'' 1 in_If_after_comb_y
     = (None, in_If_after_comb_y\<lparr>statements :=
          stmts_append ''comb'' (Assign (VSig sig_y) (VConst 0)) (statements in_If_after_comb_y)\<rparr>)"
proof -
  have first: "add_statement [Assign (VSig sig_y) (VConst 1)] ''comb'' 0 (Module False)
      = (None, after_comb_y)"
    by (simp add: exec_unfold)
  have step: "builder_step\<^sup>*\<^sup>* after_comb_y in_If_after_comb_y"
    by (rule r_into_rtranclp, rule step_If_enter [where cond = "VSig sig_a"
            and res = "fst (If_enter (VSig sig_a) after_comb_y)"])
      (simp add: in_If_after_comb_y_def)
  have fl: "flush_ctrl in_If_after_comb_y = (None, in_If_after_comb_y)"
    by (rule flush_ctrl_noop) (simp add: exec_unfold)
  show ?thesis
    using driver_conflict [OF first _ _ step fl, of "VSig sig_y" "VConst 1" sig_y "''sync''"
        "VConst 0" 1]
    by simp
qed

subsection \<open>A repeated pattern set\<close>

text \<open>
  C4. A \<open>Case\<close> is opened in a switch frame that already has a body registered for the very
  tuple of patterns this \<open>Case\<close> normalises to. When its body and the closing of the frames
  nested in it complete, the \<open>Case\<close> completes without an exception and registers nothing:
  the final state is the one after the body with only the outer accumulator and the
  context put back, so the cases of the frame are those the body left, the pattern tuple
  still maps to the first body, and the statements of the second body are in no
  accumulator.
\<close>

theorem duplicate_case_dropped:
  assumes enter: "Case_enter patterns m = (Inr (r, new_patterns, outer), m1)"
    and first: "od_get (switch_cases (switch_store m r)) new_patterns = Some first_body"
    and alloc: "r < next_ref m"
    and body: "exec_body body m1 = (None, m2)"
    and fl: "flush_ctrl m2 = (None, m3)"
  shows "\<exists>m'. exec (m_Case patterns body) m = (None, m') \<and>
      m' = Case_finally outer m3 \<and>
      switch_cases (switch_store m' r) = switch_cases (switch_store m3 r) \<and>
      od_get (switch_cases (switch_store m' r)) new_patterns = Some first_body \<and>
      statements m' = statements m"
proof -
  have "grows m m3"
    using Case_enter_grows [OF enter] exec_grows(2) [OF body] flush_ctrl_grows [OF fl]
    by (blast intro: grows_trans)
  from grows_switch_cases [OF this alloc first]
  have kept: "od_get (switch_cases (switch_store m3 r)) new_patterns = Some first_body" .
  then have mem: "od_mem new_patterns (switch_cases (switch_store m3 r))"
    by (simp add: od_mem_iff)
  have outer: "outer = statements m"
    using enter unfolding Case_enter_def Let_def
    by (auto split: option.splits if_splits prod.splits sum.splits
        dest!: case_patterns_statements simp: warn_def)
  have "exec (m_Case patterns body) m = (None, Case_finally outer m3)"
    using enter body fl mem by (simp add: Case_exit_def)
  with kept outer show ?thesis
    by (simp add: Case_finally_def)
qed

theorem duplicate_case_dropped_witness:
  "Case_enter [PStr ''01''] after_Case_01
     = (Inr (0, [PatStr ''01''], []), snd (Case_enter [PStr ''01''] after_Case_01)) \<and>
   switch_cases (switch_store after_Case_01 0)
     = [([PatStr ''01''], [(''comb'', [Assign (VSig sig_y) (VConst 1)])])] \<and>
   fst (exec (m_Case [PStr ''01''] [d_add ''comb'' [Assign (VSig sig_y) (VConst 0)]]) after_Case_01)
     = None \<and>
   switch_cases (switch_store (snd (exec (m_Case [PStr ''01'']
        [d_add ''comb'' [Assign (VSig sig_y) (VConst 0)]]) after_Case_01)) 0)
     = [([PatStr ''01''], [(''comb'', [Assign (VSig sig_y) (VConst 1)])])] \<and>
   statements (snd (exec (m_Case [PStr ''01'']
        [d_add ''comb'' [Assign (VSig sig_y) (VConst 0)]]) after_Case_01)) = []"
  using duplicate_case_dropped [of "[PStr ''01'']" after_Case_01 0 "[PatStr ''01'']" "[]"
      "snd (Case_enter [PStr ''01''] after_Case_01)"
      "[(''comb'', [Assign (VSig sig_y) (VConst 1)])]"
      "[d_add ''comb'' [Assign (VSig sig_y) (VConst 0)]]"
      "snd (exec_body [d_add ''comb'' [Assign (VSig sig_y) (VConst 0)]]
              (snd (Case_enter [PStr ''01''] after_Case_01)))"
      "snd (exec_body [d_add ''comb'' [Assign (VSig sig_y) (VConst 0)]]
              (snd (Case_enter [PStr ''01''] after_Case_01)))"]
  by (simp add: exec_unfold)

subsection \<open>Patterns wider than the switch value\<close>

text \<open>
  C5. In a \<open>Case\<close> of a switch frame whose patterns are all values that cast to constants,
  entering raises nothing: the patterns whose minimal width (that of the constant's value,
  \<open>0\<close> for the value \<open>0\<close>) exceeds the width of the switch value are dropped, each one with
  exactly one warning, the others are kept in order, and besides those warnings there is
  only the one about a case after the default. If all patterns were dropped and the body
  and the closing of its nested frames complete, the \<open>Case\<close> completes and registers no
  case: the stored cases of the frame are those the body left. In a list with other
  patterns before it, a constant that is too wide is skipped in the same way: one warning,
  and the loop goes on with the patterns collected so far.
\<close>

theorem oversized_patterns_dropped:
  assumes ctx: "ctrl_context m = Some CtxSwitch"
    and top: "get_ctrl_Switch m = Some r"
    and w: "w = val_len (switch_test (switch_store m r))"
  shows "Case_enter (map PConst vs) m =
      (Inr (r, map PatInt (filter (\<lambda>v. \<not> w < (if v = 0 then 0 else bits_for v)) vs), statements m),
       m\<lparr>warnings := warnings m @
            (if od_mem [] (switch_cases (switch_store m r)) then [CaseAfterDefault] else []) @
            map (\<lambda>v. WiderPattern v (bits_for v) w)
              (filter (\<lambda>v. w < (if v = 0 then 0 else bits_for v)) vs),
          statements := [], ctrl_context := None\<rparr>) \<and>
    ((\<forall>v \<in> set vs. w < (if v = 0 then 0 else bits_for v)) \<and>
      exec_body body (snd (Case_enter (map PConst vs) m)) = (None, m2) \<and>
      flush_ctrl m2 = (None, m3) \<longrightarrow>
      exec (m_Case (map PConst vs) body) m = (None, Case_finally (statements m) m3) \<and>
      switch_store (Case_finally (statements m) m3) = switch_store m3) \<and>
    (case_patterns w' ps1 new m0 = (Inr new1, m1) \<and> w' < (if v = 0 then 0 else bits_for v) \<longrightarrow>
      case_patterns w' (ps1 @ PConst v # ps2) new m0 =
        case_patterns w' ps2 new1 (warn (WiderPattern v (bits_for v) w') m1))"
proof (intro conjI impI; (elim conjE)?)
  assume "case_patterns w' ps1 new m0 = (Inr new1, m1)" "w' < (if v = 0 then 0 else bits_for v)"
  then show "case_patterns w' (ps1 @ PConst v # ps2) new m0 =
        case_patterns w' ps2 new1 (warn (WiderPattern v (bits_for v) w') m1)"
    by (cases "v = 0") (simp_all add: case_patterns_append Let_def)
next
  show e: "Case_enter (map PConst vs) m =
      (Inr (r, map PatInt (filter (\<lambda>v. \<not> w < (if v = 0 then 0 else bits_for v)) vs), statements m),
       m\<lparr>warnings := warnings m @
            (if od_mem [] (switch_cases (switch_store m r)) then [CaseAfterDefault] else []) @
            map (\<lambda>v. WiderPattern v (bits_for v) w)
              (filter (\<lambda>v. w < (if v = 0 then 0 else bits_for v)) vs),
          statements := [], ctrl_context := None\<rparr>)"
    using ctx top w
    by (simp add: Case_enter_def check_context_def case_patterns_consts warn_def)
  assume all: "\<forall>v \<in> set vs. w < (if v = 0 then 0 else bits_for v)"
    and body: "exec_body body (snd (Case_enter (map PConst vs) m)) = (None, m2)"
    and fl: "flush_ctrl m2 = (None, m3)"
  from all have none: "filter (\<lambda>v. \<not> w < (if v = 0 then 0 else bits_for v)) vs = []"
    by (simp add: filter_empty_conv)
  from e body fl none
  show "exec (m_Case (map PConst vs) body) m = (None, Case_finally (statements m) m3)"
    by (simp add: Case_exit_def)
  show "switch_store (Case_finally (statements m) m3) = switch_store m3"
    by (simp add: Case_finally_def)
qed

theorem oversized_patterns_dropped_witness:
  "ctrl_context in_Switch = Some CtxSwitch \<and> get_ctrl_Switch in_Switch = Some 0 \<and>
   val_len (switch_test (switch_store in_Switch 0)) = 2 \<and> (2 :: nat) < bits_for 4 \<and>
   fst (Case_enter [PConst 4] in_Switch) = Inr (0, [], []) \<and>
   warnings (snd (Case_enter [PConst 4] in_Switch)) = [WiderPattern 4 3 2] \<and>
   fst (exec (m_Case [PConst 4] [d_add ''comb'' [Assign (VSig sig_y) (VConst 1)]]) in_Switch) = None \<and>
   switch_cases (switch_store (snd (exec (m_Case [PConst 4]
        [d_add ''comb'' [Assign (VSig sig_y) (VConst 1)]]) in_Switch)) 0) = [] \<and>
   statements (snd (exec (m_Case [PConst 4]
        [d_add ''comb'' [Assign (VSig sig_y) (VConst 1)]]) in_Switch)) = [] \<and>
   warnings (snd (exec (m_Case [PConst 4]
        [d_add ''comb'' [Assign (VSig sig_y) (VConst 1)]]) in_Switch)) = [WiderPattern 4 3 2] \<and>
   case_patterns 2 [PStr ''01''] [] in_Switch = (Inr [PatStr ''01''], in_Switch) \<and>
   case_patterns 2 ([PStr ''01''] @ PConst 4 # []) [] in_Switch
     = (Inr [PatStr ''01''], warn (WiderPattern 4 3 2) in_Switch)"
proof -
  have ctx: "ctrl_context in_Switch = Some CtxSwitch" and top: "get_ctrl_Switch in_Switch = Some 0"
    and w: "2 = val_len (switch_test (switch_store in_Switch 0))"
    by (simp_all add: exec_unfold)
  show ?thesis
    using oversized_patterns_dropped [OF ctx top w, where vs = "[4]"
        and body = "[d_add ''comb'' [Assign (VSig sig_y) (VConst 1)]]"
        and ?m2.0 = "snd (exec_body [d_add ''comb'' [Assign (VSig sig_y) (VConst 1)]]
                (snd (Case_enter [PConst 4] in_Switch)))"
        and ?m3.0 = "snd (exec_body [d_add ''comb'' [Assign (VSig sig_y) (VConst 1)]]
                (snd (Case_enter [PConst 4] in_Switch)))"
        and w' = 2 and ?ps1.0 = "[PStr ''01'']" and new = "[]" and ?m0.0 = in_Switch
        and ?new1.0 = "[PatStr ''01'']" and ?m1.0 = in_Switch and v = 4 and ?ps2.0 = "[]"]
    by (simp add: exec_unfold bits_for_examples)
qed

subsection \<open>A state that is referenced and never declared\<close>

text \<open>
  C6. A state name \<open>x\<close> is referenced for the FSM whose dictionary is at \<open>r\<close>, by an
  assignment to \<open>m.next\<close> that finds this FSM or by \<open>fsm.ongoing(x)\<close>, and the reference is
  accepted. Neither kind of reference can raise the naming error, whatever the state of
  the builder. If, after any further builder code, the body of the FSM ends without a
  \<open>State\<close> body registered for \<open>x\<close>, the code that \<open>FSM\<close> runs on the normal exit of its body
  raises the naming error for a state that has no body (the first such state in encoding
  order), after restoring the depth and the context and without closing the frame; so
  does the \<open>FSM\<close> construct as a whole.
\<close>

theorem undefined_state_raises_at_close:
  assumes ref: "(next_setter x ma = (None, mb) \<and> find_fsm (rev (ctrl_stack ma)) = Some r) \<or>
                (\<exists>sg. FSM_ongoing r x ma = (Inr sg, mb))"
    and alloc: "r < next_ref ma"
    and later: "builder_step\<^sup>*\<^sup>* mb m2"
    and undeclared: "\<not> od_mem x (fsm_states (fsm_store m2 r))"
  shows "(\<exists>y. FSM_exit r (None, m2) = (Some (StateNotDefined y), FSM_finally m2) \<and>
            \<not> od_mem y (fsm_states (fsm_store m2 r)) \<and>
            (FSM_enter init d name reset m = (Inr r, m1) \<and> exec_body body m1 = (None, m2) \<longrightarrow>
               exec (m_FSM init d name reset body) m
                 = (Some (StateNotDefined y), FSM_finally m2))) \<and>
         fst (next_setter x ma) \<noteq> Some (StateNotDefined z) \<and>
         fst (FSM_ongoing r x ma) \<noteq> Inl (StateNotDefined z)"
proof -
  from ref have reg: "od_mem x (fsm_encoding (fsm_store mb r))" and g: "grows ma mb"
    using alloc
    by (auto dest: next_setter_registers FSM_ongoing_registers next_setter_grows FSM_ongoing_grows)
  then obtain e where e: "od_get (fsm_encoding (fsm_store mb r)) x = Some e"
    by (auto simp: od_mem_iff)
  have "r < next_ref mb"
    using g alloc by (rule grows_next_ref)
  from grows_fsm_encoding [OF builder_steps_grows [OF later] this e]
  have "od_mem x (fsm_encoding (fsm_store m2 r))"
    by (simp add: od_mem_iff)
  from fsm_undefined_some [OF this undeclared] obtain y
    where y: "fsm_undefined (fsm_encoding (fsm_store m2 r)) (fsm_states (fsm_store m2 r)) = Some y"
      and ny: "\<not> od_mem y (fsm_states (fsm_store m2 r))"
    by blast
  have ex: "FSM_exit r (None, m2) = (Some (StateNotDefined y), FSM_finally m2)"
    using y by (simp add: FSM_exit_def)
  have "fst (next_setter x ma) \<noteq> Some (StateNotDefined z)"
    using next_setter_error [of x ma "StateNotDefined z" "snd (next_setter x ma)" z]
    by (cases "next_setter x ma") auto
  moreover have "fst (FSM_ongoing r x ma) \<noteq> Inl (StateNotDefined z)"
    using FSM_ongoing_error [of r x ma "StateNotDefined z" "snd (FSM_ongoing r x ma)" z]
    by (cases "FSM_ongoing r x ma") auto
  ultimately show ?thesis
    using ex ny by auto
qed

theorem undefined_state_raises_at_close_witness:
  "next_setter ''X'' in_State_A = (None, after_next_X) \<and>
   find_fsm (rev (ctrl_stack in_State_A)) = Some 0 \<and>
   0 < next_ref in_State_A \<and>
   \<not> od_mem ''X'' (fsm_states (fsm_store after_State_A 0)) \<and>
   FSM_enter None ''sync'' ''fsm'' None (Module False) = (Inr 0, in_FSM) \<and>
   exec_body [m_State ''A'' [m_next ''X'']] in_FSM = (None, after_State_A) \<and>
   exec (m_FSM None ''sync'' ''fsm'' None [m_State ''A'' [m_next ''X'']]) (Module False)
     = (Some (StateNotDefined ''X''), FSM_finally after_State_A) \<and>
   ctrl_stack (FSM_finally after_State_A) = [FSMFrame 0]"
proof -
  have ref: "(next_setter ''X'' in_State_A = (None, after_next_X) \<and>
              find_fsm (rev (ctrl_stack in_State_A)) = Some 0) \<or>
             (\<exists>sg. FSM_ongoing 0 ''X'' in_State_A = (Inr sg, after_next_X))"
    by (simp add: exec_unfold)
  have alloc: "0 < next_ref in_State_A"
    by (simp add: exec_unfold)
  have later: "builder_step\<^sup>*\<^sup>* after_next_X after_State_A"
    by (rule r_into_rtranclp, rule step_State_exit [where r = 0 and name = "''A''" and outer = "[]"
            and x = None and y = "fst (State_exit 0 ''A'' [] (None, after_next_X))"])
      (simp add: after_State_A_def)
  have undeclared: "\<not> od_mem ''X'' (fsm_states (fsm_store after_State_A 0))"
    by (simp add: exec_unfold)
  show ?thesis
    using undefined_state_raises_at_close [OF ref alloc later undeclared,
        where init = None and d = "''sync''" and name = "''fsm''" and reset = None
        and m = "Module False" and ?m1.0 = in_FSM and body = "[m_State ''A'' [m_next ''X'']]"]
    by (simp add: exec_unfold)
qed

subsection \<open>Exceptions out of a body\<close>

text \<open>
  C7, as amended. When an exception propagates out of the body of \<open>If\<close>, \<open>Elif\<close>, \<open>Else\<close>,
  \<open>Case\<close>, \<open>Default\<close> or \<open>State\<close>, the construct raises that exception with the nesting depth
  it was called at and the outer statement accumulator as it was when the body began: for
  \<open>Elif\<close>, \<open>Else\<close>, \<open>Case\<close>, \<open>Default\<close> and \<open>State\<close> that is the accumulator from before the
  call; for \<open>If\<close> it is the accumulator after the auto-close that opening an \<open>If\<close> performs
  (the one from before the call when no deeper frame was open). \<open>Switch\<close> restores the
  depth and the context, but it never swaps the accumulator: what its body added directly
  stays in the outer accumulator.
\<close>

theorem body_exception_restores:
  "(If_enter cond m = (Inr (r, outer), m1) \<and> exec_body body m1 = (Some x, m2) \<longrightarrow>
      (\<exists>m'. exec (m_If cond body) m = (Some x, m') \<and> depth m' = depth m \<and>
         statements m' = statements (snd (flush_ctrl (check_signed_cond cond m))) \<and>
         (int (length (ctrl_stack m)) \<le> depth m \<longrightarrow> statements m' = statements m))) \<and>
   (Elif_enter cond m = (Inr (r, outer), m1) \<and> exec_body body m1 = (Some x, m2) \<longrightarrow>
      (\<exists>m'. exec (m_Elif cond body) m = (Some x, m') \<and> depth m' = depth m \<and>
         statements m' = statements m)) \<and>
   (Else_enter m = (Inr (r, outer), m1) \<and> exec_body body m1 = (Some x, m2) \<longrightarrow>
      (\<exists>m'. exec (m_Else body) m = (Some x, m') \<and> depth m' = depth m \<and>
         statements m' = statements m)) \<and>
   (Case_enter patterns m = (Inr (r, new, outer), m1) \<and> exec_body body m1 = (Some x, m2) \<longrightarrow>
      (\<exists>m'. exec (m_Case patterns body) m = (Some x, m') \<and> depth m' = depth m \<and>
         statements m' = statements m)) \<and>
   (Default_enter m = (Inr (r, outer), m1) \<and> exec_body body m1 = (Some x, m2) \<longrightarrow>
      (\<exists>m'. exec (m_Default body) m = (Some x, m') \<and> depth m' = depth m \<and>
         statements m' = statements m)) \<and>
   (State_enter name m = (Inr (r, outer), m1) \<and> exec_body body m1 = (Some x, m2) \<longrightarrow>
      (\<exists>m'. exec (m_State name body) m = (Some x, m') \<and> depth m' = depth m \<and>
         statements m' = statements m)) \<and>
   (Switch_enter test m = (None, m1) \<and> exec_body body m1 = (Some x, m2) \<longrightarrow>
      (\<exists>m'. exec (m_Switch test body) m = (Some x, m') \<and> depth m' = depth m \<and>
         ctrl_context m' = None \<and> statements m' = statements m2))"
proof (intro conjI impI; elim conjE)
  assume e: "If_enter cond m = (Inr (r, outer), m1)" and b: "exec_body body m1 = (Some x, m2)"
  have "int (length (ctrl_stack m)) \<le> depth m \<Longrightarrow>
      statements (snd (flush_ctrl (check_signed_cond cond m))) = statements m"
    by (simp add: flush_ctrl_noop check_signed_cond_def warn_def)
  with If_body_raises [OF e b] If_enter_outer(1) [OF e]
  show "\<exists>m'. exec (m_If cond body) m = (Some x, m') \<and> depth m' = depth m \<and>
         statements m' = statements (snd (flush_ctrl (check_signed_cond cond m))) \<and>
         (int (length (ctrl_stack m)) \<le> depth m \<longrightarrow> statements m' = statements m)"
    by auto
qed (blast intro: Elif_body_raises Else_body_raises Case_body_raises Default_body_raises
      State_body_raises Switch_body_raises)+

theorem body_exception_restores_witness:
  "(If_enter (VSig sig_y) after_comb_y_If = (Inr (1, [(''comb'', [Assign (VSig sig_y) (VConst 1), Switch (VCat [VSig sig_a]) [(KStr ''1'', [Assign (VSig sig_x) (VConst 1)])]])]), snd (If_enter (VSig sig_y) after_comb_y_If)) \<and>
    exec_body adds_then_raises (snd (If_enter (VSig sig_y) after_comb_y_If))
      = (Some (UserError 0), snd (exec_body adds_then_raises (snd (If_enter (VSig sig_y) after_comb_y_If)))) \<and>
    statements (snd (exec_body adds_then_raises (snd (If_enter (VSig sig_y) after_comb_y_If)))) = [(''comb'', [Assign (VSig sig_x) (VConst 2)])] \<and>
    statements after_comb_y_If = [(''comb'', [Assign (VSig sig_y) (VConst 1)])] \<and> depth after_comb_y_If = 0 \<and>
    depth (snd (exec_body adds_then_raises (snd (If_enter (VSig sig_y) after_comb_y_If)))) = 1 \<and>
    (\<exists>m'. exec (m_If (VSig sig_y) adds_then_raises) after_comb_y_If = (Some (UserError 0), m') \<and>
       depth m' = 0 \<and> statements m' = [(''comb'', [Assign (VSig sig_y) (VConst 1), Switch (VCat [VSig sig_a]) [(KStr ''1'', [Assign (VSig sig_x) (VConst 1)])]])])) \<and>
  (If_enter (VSig sig_a) after_comb_y = (Inr (0, [(''comb'', [Assign (VSig sig_y) (VConst 1)])]), snd (If_enter (VSig sig_a) after_comb_y)) \<and>
    exec_body adds_then_raises (snd (If_enter (VSig sig_a) after_comb_y))
      = (Some (UserError 0), snd (exec_body adds_then_raises (snd (If_enter (VSig sig_a) after_comb_y)))) \<and>
    statements (snd (exec_body adds_then_raises (snd (If_enter (VSig sig_a) after_comb_y)))) = [(''comb'', [Assign (VSig sig_x) (VConst 2)])] \<and>
    statements after_comb_y = [(''comb'', [Assign (VSig sig_y) (VConst 1)])] \<and> depth after_comb_y = 0 \<and>
    int (length (ctrl_stack after_comb_y)) \<le> depth after_comb_y \<and>
    (\<exists>m'. exec (m_If (VSig sig_a) adds_then_raises) after_comb_y = (Some (UserError 0), m') \<and>
       depth m' = 0 \<and> statements m' = [(''comb'', [Assign (VSig sig_y) (VConst 1)])])) \<and>
  (Elif_enter (VSig sig_y) after_comb_y_If = (Inr (0, [(''comb'', [Assign (VSig sig_y) (VConst 1)])]), snd (Elif_enter (VSig sig_y) after_comb_y_If)) \<and>
    exec_body adds_then_raises (snd (Elif_enter (VSig sig_y) after_comb_y_If))
      = (Some (UserError 0), snd (exec_body adds_then_raises (snd (Elif_enter (VSig sig_y) after_comb_y_If)))) \<and>
    statements (snd (exec_body adds_then_raises (snd (Elif_enter (VSig sig_y) after_comb_y_If)))) = [(''comb'', [Assign (VSig sig_x) (VConst 2)])] \<and>
    statements after_comb_y_If = [(''comb'', [Assign (VSig sig_y) (VConst 1)])] \<and> depth after_comb_y_If = 0 \<and>
    depth (snd (exec_body adds_then_raises (snd (Elif_enter (VSig sig_y) after_comb_y_If)))) = 1 \<and>
    (\<exists>m'. exec (m_Elif (VSig sig_y) adds_then_raises) after_comb_y_If = (Some (UserError 0), m') \<and>
       depth m' = 0 \<and> statements m' = [(''comb'', [Assign (VSig sig_y) (VConst 1)])])) \<and>
  (Else_enter after_comb_y_If = (Inr (0, [(''comb'', [Assign (VSig sig_y) (VConst 1)])]), snd (Else_enter after_comb_y_If)) \<and>
    exec_body adds_then_raises (snd (Else_enter after_comb_y_If))
      = (Some (UserError 0), snd (exec_body adds_then_raises (snd (Else_enter after_comb_y_If)))) \<and>
    statements (snd (exec_body adds_then_raises (snd (Else_enter after_comb_y_If)))) = [(''comb'', [Assign (VSig sig_x) (VConst 2)])] \<and>
    statements after_comb_y_If = [(''comb'', [Assign (VSig sig_y) (VConst 1)])] \<and> depth after_comb_y_If = 0 \<and>
    depth (snd (exec_body adds_then_raises (snd (Else_enter after_comb_y_If)))) = 1 \<and>
    (\<exists>m'. exec (m_Else adds_then_raises) after_comb_y_If = (Some (UserError 0), m') \<and>
       depth m' = 0 \<and> statements m' = [(''comb'', [Assign (VSig sig_y) (VConst 1)])])) \<and>
  (Case_enter [PConst 1] in_Switch_after_comb_y = (Inr (0, [PatInt 1], [(''comb'', [Assign (VSig sig_y) (VConst 1)])]), snd (Case_enter [PConst 1] in_Switch_after_comb_y)) \<and>
    exec_body adds_then_raises (snd (Case_enter [PConst 1] in_Switch_after_comb_y))
      = (Some (UserError 0), snd (exec_body adds_then_raises (snd (Case_enter [PConst 1] in_Switch_after_comb_y)))) \<and>
    statements (snd (exec_body adds_then_raises (snd (Case_enter [PConst 1] in_Switch_after_comb_y)))) = [(''comb'', [Assign (VSig sig_x) (VConst 2)])] \<and>
    statements in_Switch_after_comb_y = [(''comb'', [Assign (VSig sig_y) (VConst 1)])] \<and> depth in_Switch_after_comb_y = 1 \<and>
    (\<exists>m'. exec (m_Case [PConst 1] adds_then_raises) in_Switch_after_comb_y = (Some (UserError 0), m') \<and>
       depth m' = 1 \<and> statements m' = [(''comb'', [Assign (VSig sig_y) (VConst 1)])])) \<and>
  (Default_enter in_Switch_after_comb_y = (Inr (0, [(''comb'', [Assign (VSig sig_y) (VConst 1)])]), snd (Default_enter in_Switch_after_comb_y)) \<and>
    exec_body adds_then_raises (snd (Default_enter in_Switch_after_comb_y))
      = (Some (UserError 0), snd (exec_body adds_then_raises (snd (Default_enter in_Switch_after_comb_y)))) \<and>
    statements (snd (exec_body adds_then_raises (snd (Default_enter in_Switch_after_comb_y)))) = [(''comb'', [Assign (VSig sig_x) (VConst 2)])] \<and>
    statements in_Switch_after_comb_y = [(''comb'', [Assign (VSig sig_y) (VConst 1)])] \<and> depth in_Switch_after_comb_y = 1 \<and>
    (\<exists>m'. exec (m_Default adds_then_raises) in_Switch_after_comb_y = (Some (UserError 0), m') \<and>
       depth m' = 1 \<and> statements m' = [(''comb'', [Assign (VSig sig_y) (VConst 1)])])) \<and>
  (State_enter ''A'' in_FSM_after_comb_y = (Inr (0, [(''comb'', [Assign (VSig sig_y) (VConst 1)])]), snd (State_enter ''A'' in_FSM_after_comb_y)) \<and>
    exec_body adds_then_raises (snd (State_enter ''A'' in_FSM_after_comb_y))
      = (Some (UserError 0), snd (exec_body adds_then_raises (snd (State_enter ''A'' in_FSM_after_comb_y)))) \<and>
    statements (snd (exec_body adds_then_raises (snd (State_enter ''A'' in_FSM_after_comb_y)))) = [(''comb'', [Assign (VSig sig_x) (VConst 2)])] \<and>
    statements in_FSM_after_comb_y = [(''comb'', [Assign (VSig sig_y) (VConst 1)])] \<and> depth in_FSM_after_comb_y = 1 \<and>
    (\<exists>m'. exec (m_State ''A'' adds_then_raises) in_FSM_after_comb_y = (Some (UserError 0), m') \<and>
       depth m' = 1 \<and> statements m' = [(''comb'', [Assign (VSig sig_y) (VConst 1)])])) \<and>
  (Switch_enter (VSig sig_x) after_comb_y = (None, in_Switch_after_comb_y) \<and>
    exec_body [d_add ''comb'' [Assign (VSig sig_x) (VConst 2)], py_raise 0] in_Switch_after_comb_y
      = (Some (UserError 0), snd (exec_body [d_add ''comb'' [Assign (VSig sig_x) (VConst 2)], py_raise 0] in_Switch_after_comb_y)) \<and>
    depth in_Switch_after_comb_y = 1 \<and>
    (\<exists>m'. exec (m_Switch (VSig sig_x) [d_add ''comb'' [Assign (VSig sig_x) (VConst 2)], py_raise 0]) after_comb_y = (Some (UserError 0), m') \<and>
       depth m' = 0 \<and> ctrl_context m' = None \<and>
       statements m' = [(''comb'', [Assign (VSig sig_y) (VConst 1), Assign (VSig sig_x) (VConst 2)])]))"
  using
    body_exception_restores [where m = "after_comb_y_If" and ?m1.0 = "snd (If_enter (VSig sig_y) after_comb_y_If)"
      and body = "adds_then_raises" and x = "UserError 0"
      and ?m2.0 = "snd (exec_body adds_then_raises (snd (If_enter (VSig sig_y) after_comb_y_If)))" and cond = "VSig sig_y" and r = 1
      and outer = "[(''comb'', [Assign (VSig sig_y) (VConst 1), Switch (VCat [VSig sig_a]) [(KStr ''1'', [Assign (VSig sig_x) (VConst 1)])]])]",
      THEN conjunct1]
    body_exception_restores [where m = "after_comb_y" and ?m1.0 = "snd (If_enter (VSig sig_a) after_comb_y)"
      and body = "adds_then_raises" and x = "UserError 0"
      and ?m2.0 = "snd (exec_body adds_then_raises (snd (If_enter (VSig sig_a) after_comb_y)))" and cond = "VSig sig_a" and r = 0
      and outer = "[(''comb'', [Assign (VSig sig_y) (VConst 1)])]",
      THEN conjunct1]
    body_exception_restores [where m = "after_comb_y_If" and ?m1.0 = "snd (Elif_enter (VSig sig_y) after_comb_y_If)"
      and body = "adds_then_raises" and x = "UserError 0"
      and ?m2.0 = "snd (exec_body adds_then_raises (snd (Elif_enter (VSig sig_y) after_comb_y_If)))" and cond = "VSig sig_y" and r = 0
      and outer = "[(''comb'', [Assign (VSig sig_y) (VConst 1)])]",
      THEN conjunct2, THEN conjunct1]
    body_exception_restores [where m = "after_comb_y_If" and ?m1.0 = "snd (Else_enter after_comb_y_If)"
      and body = "adds_then_raises" and x = "UserError 0"
      and ?m2.0 = "snd (exec_body adds_then_raises (snd (Else_enter after_comb_y_If)))" and r = 0
      and outer = "[(''comb'', [Assign (VSig sig_y) (VConst 1)])]",
      THEN conjunct2, THEN conjunct2, THEN conjunct1]
    body_exception_restores [where m = "in_Switch_after_comb_y" and ?m1.0 = "snd (Case_enter [PConst 1] in_Switch_after_comb_y)"
      and body = "adds_then_raises" and x = "UserError 0"
      and ?m2.0 = "snd (exec_body adds_then_raises (snd (Case_enter [PConst 1] in_Switch_after_comb_y)))" and r = 0 and patterns = "[PConst 1]" and new = "[PatInt 1]"
      and outer = "[(''comb'', [Assign (VSig sig_y) (VConst 1)])]",
      THEN conjunct2, THEN conjunct2, THEN conjunct2, THEN conjunct1]
    body_exception_restores [where m = "in_Switch_after_comb_y" and ?m1.0 = "snd (Default_enter in_Switch_after_comb_y)"
      and body = "adds_then_raises" and x = "UserError 0"
      and ?m2.0 = "snd (exec_body adds_then_raises (snd (Default_enter in_Switch_after_comb_y)))" and r = 0
      and outer = "[(''comb'', [Assign (VSig sig_y) (VConst 1)])]",
      THEN conjunct2, THEN conjunct2, THEN conjunct2, THEN conjunct2, THEN conjunct1]
    body_exception_restores [where m = "in_FSM_after_comb_y" and ?m1.0 = "snd (State_enter ''A'' in_FSM_after_comb_y)"
      and body = "adds_then_raises" and x = "UserError 0"
      and ?m2.0 = "snd (exec_body adds_then_raises (snd (State_enter ''A'' in_FSM_after_comb_y)))" and r = 0 and name = "''A''"
      and outer = "[(''comb'', [Assign (VSig sig_y) (VConst 1)])]",
      THEN conjunct2, THEN conjunct2, THEN conjunct2, THEN conjunct2, THEN conjunct2, THEN conjunct1]
    body_exception_restores [where m = "after_comb_y" and ?m1.0 = "in_Switch_after_comb_y"
      and body = "[d_add ''comb'' [Assign (VSig sig_x) (VConst 2)], py_raise 0]" and x = "UserError 0"
      and ?m2.0 = "snd (exec_body [d_add ''comb'' [Assign (VSig sig_x) (VConst 2)], py_raise 0] in_Switch_after_comb_y)" and test = "VSig sig_x",
      THEN conjunct2, THEN conjunct2, THEN conjunct2, THEN conjunct2, THEN conjunct2, THEN conjunct2]
  by (simp add: exec_unfold bits_for_examples if_switch_def touched_domains_def stmts_get_def
      if_match_def rjust_def)

theorem switch_body_exception_counterexample:
  "Switch_enter (VSig sig_x) (Module False) = (None, in_Switch) \<and>
   fst (exec_body [d_add ''comb'' [Assign (VSig sig_y) (VConst 1)], py_raise 0] in_Switch)
     = Some (UserError 0) \<and>
   fst (exec (m_Switch (VSig sig_x) [d_add ''comb'' [Assign (VSig sig_y) (VConst 1)], py_raise 0])
          (Module False)) = Some (UserError 0) \<and>
   statements (snd (exec (m_Switch (VSig sig_x)
          [d_add ''comb'' [Assign (VSig sig_y) (VConst 1)], py_raise 0]) (Module False)))
     = [(''comb'', [Assign (VSig sig_y) (VConst 1)])] \<and>
   statements (Module False) = []"
  by (simp add: exec_unfold)

subsection \<open>The ongoing indicators of an FSM\<close>

text \<open>
  C8. In a state that builder code reaches from a new builder, closing an FSM frame that
  has at least one state body appends to \<open>_top_comb_statements\<close>, for every entry of the
  frame's \<open>ongoing\<close> dictionary in order, the assignment of the comparison of the new state
  signal with the encoding of that state to the ongoing signal; the dictionary has the
  keys of \<open>encoding\<close>, so there is one assignment per named state. The accumulators by
  domain only receive branch nodes. Elaboration flushes the builder; the fragment it
  returns has the statements of \<open>_top_comb_statements\<close>, as they are after the flush and
  so with all that were appended before, at the end of its statements for \<open>"comb"\<close>, and
  every signal they assign to is registered as driven by \<open>"comb"\<close>. The domain of the FSM
  plays no part in either.
\<close>

theorem fsm_ongoing_comb:
  "(builder_step\<^sup>*\<^sup>* (Module b) m \<and> ctrl_stack m = fs @ [FSMFrame r] \<and>
    fsm_states (fsm_store m r) \<noteq> [] \<and> pop_ctrl m = (None, m') \<longrightarrow>
      (\<exists>sg new. fsm_signal (fsm_store m' r) = Some sg \<and>
         top_comb_statements m' = top_comb_statements m @ new \<and>
         list_all2 (\<lambda>no st. \<exists>e. od_get (fsm_encoding (fsm_store m r)) (fst no) = Some e \<and>
              st = Assign (VSig (snd no)) (VEq (VSig sg) (VConst (int e))))
           (fsm_ongoing (fsm_store m r)) new \<and>
         map fst (fsm_ongoing (fsm_store m r)) = map fst (fsm_encoding (fsm_store m r)) \<and>
         (\<forall>d. \<exists>rest. stmts_get (statements m') d = stmts_get (statements m) d @ rest \<and>
            (\<forall>st \<in> set rest. \<exists>t cs. st = Switch t cs)))) \<and>
   (elaborate m = (Inr f, me) \<longrightarrow>
      flush m = (None, me) \<and>
      (\<exists>ss. top_comb_statements me = top_comb_statements m @ ss) \<and>
      (\<exists>pre. stmts_get (frag_statements f) ''comb'' = pre @ top_comb_statements me) \<and>
      (\<forall>sg \<in> set (stmts_lhs_signals (top_comb_statements me)).
          \<exists>l. od_get (frag_drivers f) ''comb'' = Some l \<and> sg \<in> set l))"
proof (intro conjI impI; (elim conjE)?)
  assume reach: "builder_step\<^sup>*\<^sup>* (Module b) m" and stack: "ctrl_stack m = fs @ [FSMFrame r]"
    and states: "fsm_states (fsm_store m r) \<noteq> []" and pop: "pop_ctrl m = (None, m')"
  let ?m1 = "m\<lparr>ctrl_stack := fs\<rparr>"
  from pop stack have "pop_fsm r ?m1 = (None, m')"
    by (simp add: pop_ctrl_def)
  from pop_fsm_result [OF this] states
  have "\<exists>sg new. fsm_signal (fsm_store m' r) = Some sg \<and>
      top_comb_statements m' = top_comb_statements m @ new \<and>
      list_all2 (\<lambda>no st. \<exists>e. od_get (fsm_encoding (fsm_store m r)) (fst no) = Some e \<and>
         st = Assign (VSig (snd no)) (VEq (VSig sg) (VConst (int e))))
        (fsm_ongoing (fsm_store m r)) new \<and>
      (\<forall>d. \<exists>rest. stmts_get (statements m') d = stmts_get (statements m) d @ rest \<and>
         (\<forall>st \<in> set rest. \<exists>t cs. st = Switch t cs))"
    by simp
  moreover have "map fst (fsm_ongoing (fsm_store m r)) = map fst (fsm_encoding (fsm_store m r))"
    using reachable_keys_ok [OF reach] by (simp add: fsm_keys_ok_def)
  ultimately show "\<exists>sg new. fsm_signal (fsm_store m' r) = Some sg \<and>
         top_comb_statements m' = top_comb_statements m @ new \<and>
         list_all2 (\<lambda>no st. \<exists>e. od_get (fsm_encoding (fsm_store m r)) (fst no) = Some e \<and>
              st = Assign (VSig (snd no)) (VEq (VSig sg) (VConst (int e))))
           (fsm_ongoing (fsm_store m r)) new \<and>
         map fst (fsm_ongoing (fsm_store m r)) = map fst (fsm_encoding (fsm_store m r)) \<and>
         (\<forall>d. \<exists>rest. stmts_get (statements m') d = stmts_get (statements m) d @ rest \<and>
            (\<forall>st \<in> set rest. \<exists>t cs. st = Switch t cs))"
    by blast
next
  assume el: "elaborate m = (Inr f, me)"
  then show fl: "flush m = (None, me)"
    by (auto simp: elaborate_def split: prod.splits option.splits sum.splits)
  from flush_grows [OF fl] show "\<exists>ss. top_comb_statements me = top_comb_statements m @ ss"
    by (simp add: grows_def)
  from el fl obtain f0 where f: "f = (foldl (\<lambda>f sg. add_driver sg ''comb'' f)
                        (add_statements ''comb'' (top_comb_statements me) f0)
                        (stmts_lhs_signals (top_comb_statements me)))
                     \<lparr>frag_generated := generated me\<rparr>"
    by (auto simp: elaborate_def split: sum.splits)
  show "\<exists>pre. stmts_get (frag_statements f) ''comb'' = pre @ top_comb_statements me"
    by (simp add: f add_statements_get)
  show "\<forall>sg \<in> set (stmts_lhs_signals (top_comb_statements me)).
          \<exists>l. od_get (frag_drivers f) ''comb'' = Some l \<and> sg \<in> set l"
    using add_drivers_mem [of _ "stmts_lhs_signals (top_comb_statements me)" "''comb''"
        "add_statements ''comb'' (top_comb_statements me) f0"]
    by (simp add: f)
qed

theorem fsm_ongoing_comb_witness:
  "builder_step\<^sup>*\<^sup>* (Module False) after_FSM_raise \<and>
   ctrl_stack after_FSM_raise = [] @ [FSMFrame 0] \<and>
   fsm_states (fsm_store after_FSM_raise 0) \<noteq> [] \<and>
   fst (pop_ctrl after_FSM_raise) = None \<and>
   fsm_domain (fsm_store after_FSM_raise 0) = ''sync'' \<and>
   top_comb_statements (snd (pop_ctrl after_FSM_raise))
     = [Assign (VSig (Signal (FsmOngoingSig 0 ''A'') ''fsm_ongoing_A'' (Unsigned 1) 0))
          (VEq (VSig (Signal (FsmStateSig 0) ''fsm_state'' (RangeShape 2) 0)) (VConst 0)),
        Assign (VSig (Signal (FsmOngoingSig 0 ''B'') ''fsm_ongoing_B'' (Unsigned 1) 0))
          (VEq (VSig (Signal (FsmStateSig 0) ''fsm_state'' (RangeShape 2) 0)) (VConst 1))] \<and>
   (\<exists>f. elaborate after_FSM_raise = (Inr f, snd (elaborate after_FSM_raise)) \<and>
      (\<exists>pre. stmts_get (frag_statements f) ''comb'' = pre @
         [Assign (VSig (Signal (FsmOngoingSig 0 ''A'') ''fsm_ongoing_A'' (Unsigned 1) 0))
            (VEq (VSig (Signal (FsmStateSig 0) ''fsm_state'' (RangeShape 2) 0)) (VConst 0)),
          Assign (VSig (Signal (FsmOngoingSig 0 ''B'') ''fsm_ongoing_B'' (Unsigned 1) 0))
            (VEq (VSig (Signal (FsmStateSig 0) ''fsm_state'' (RangeShape 2) 0)) (VConst 1))]) \<and>
      (\<exists>l. od_get (frag_drivers f) ''comb'' = Some l \<and>
         Signal (FsmOngoingSig 0 ''A'') ''fsm_ongoing_A'' (Unsigned 1) 0 \<in> set l \<and>
         Signal (FsmOngoingSig 0 ''B'') ''fsm_ongoing_B'' (Unsigned 1) 0 \<in> set l))"
proof -
  note ev = exec_unfold fsm_init_key_def touched_domains_def fsm_switch_def od_of_def stmts_get_def
    elaborate_def flush.simps add_statements_def add_driver_def
  have reach: "builder_step\<^sup>*\<^sup>* (Module False) after_FSM_raise"
    by (rule r_into_rtranclp, rule step_exec [where c = "m_FSM None ''sync'' ''fsm'' None
            [m_State ''A'' [m_next ''B''], m_State ''B'' [], py_raise 0]"
          and x = "fst (exec (m_FSM None ''sync'' ''fsm'' None
            [m_State ''A'' [m_next ''B''], m_State ''B'' [], py_raise 0]) (Module False))"])
      (simp add: after_FSM_raise_def)
  have stack: "ctrl_stack after_FSM_raise = [] @ [FSMFrame 0]"
    and states: "fsm_states (fsm_store after_FSM_raise 0) \<noteq> []"
    and dom: "fsm_domain (fsm_store after_FSM_raise 0) = ''sync''"
    by (simp_all add: ev)
  have pop: "pop_ctrl after_FSM_raise = (None, snd (pop_ctrl after_FSM_raise))"
    by (simp add: ev)
  have tc: "top_comb_statements (snd (pop_ctrl after_FSM_raise))
     = [Assign (VSig (Signal (FsmOngoingSig 0 ''A'') ''fsm_ongoing_A'' (Unsigned 1) 0))
          (VEq (VSig (Signal (FsmStateSig 0) ''fsm_state'' (RangeShape 2) 0)) (VConst 0)),
        Assign (VSig (Signal (FsmOngoingSig 0 ''B'') ''fsm_ongoing_B'' (Unsigned 1) 0))
          (VEq (VSig (Signal (FsmStateSig 0) ''fsm_state'' (RangeShape 2) 0)) (VConst 1))]"
    by (simp add: ev)
  have "\<exists>f. fst (elaborate after_FSM_raise) = Inr f"
    by (simp add: ev)
  then obtain f where el: "elaborate after_FSM_raise = (Inr f, snd (elaborate after_FSM_raise))"
    by (metis prod.collapse)
  have tce: "top_comb_statements (snd (elaborate after_FSM_raise))
     = [Assign (VSig (Signal (FsmOngoingSig 0 ''A'') ''fsm_ongoing_A'' (Unsigned 1) 0))
          (VEq (VSig (Signal (FsmStateSig 0) ''fsm_state'' (RangeShape 2) 0)) (VConst 0)),
        Assign (VSig (Signal (FsmOngoingSig 0 ''B'') ''fsm_ongoing_B'' (Unsigned 1) 0))
          (VEq (VSig (Signal (FsmStateSig 0) ''fsm_state'' (RangeShape 2) 0)) (VConst 1))]"
    by (simp add: ev)
  from fsm_ongoing_comb [where b = False and m = after_FSM_raise and fs = "[]" and r = 0
      and m' = "snd (pop_ctrl after_FSM_raise)" and f = f
      and me = "snd (elaborate after_FSM_raise)"] reach stack states pop el tce
  have "(\<exists>pre. stmts_get (frag_statements f) ''comb'' = pre @
         [Assign (VSig (Signal (FsmOngoingSig 0 ''A'') ''fsm_ongoing_A'' (Unsigned 1) 0))
            (VEq (VSig (Signal (FsmStateSig 0) ''fsm_state'' (RangeShape 2) 0)) (VConst 0)),
          Assign (VSig (Signal (FsmOngoingSig 0 ''B'') ''fsm_ongoing_B'' (Unsigned 1) 0))
            (VEq (VSig (Signal (FsmStateSig 0) ''fsm_state'' (RangeShape 2) 0)) (VConst 1))]) \<and>
      (\<exists>l. od_get (frag_drivers f) ''comb'' = Some l \<and>
         Signal (FsmOngoingSig 0 ''A'') ''fsm_ongoing_A'' (Unsigned 1) 0 \<in> set l \<and>
         Signal (FsmOngoingSig 0 ''B'') ''fsm_ongoing_B'' (Unsigned 1) 0 \<in> set l)"
    by (simp only:) (auto simp: od_keys_add.simps)
  moreover have "fst (pop_ctrl after_FSM_raise) = None"
    using pop by (metis fst_conv)
  ultimately show ?thesis
    using reach stack states dom tc el by auto
qed

subsection \<open>Auto-closing\<close>

text \<open>
  C9, as amended. \<open>_add_statement\<close> and the three calls that open a construct with a frame
  of its own (\<open>If\<close>, \<open>Switch\<close>, \<open>FSM\<close>, through \<open>_set_ctrl\<close>) first close every frame at a
  stack position at or above the current depth: where they succeed, only the frames below
  the depth are left (and the new frame on top of them). With exactly one such frame open,
  the previous sibling, the flush is one \<open>_pop_ctrl\<close> of it, so the body of a sibling \<open>If\<close>
  starts with an outer accumulator that already holds the branch node of the previous
  \<open>If\<close>. \<open>Elif\<close>, \<open>Else\<close>, \<open>Case\<close>, \<open>Default\<close> and \<open>State\<close> close nothing before their body:
  where they succeed the stack is as it was, with the frame they continue on top of it,
  and where another frame is on top (a deeper one that an exception has left open, or for
  \<open>Elif\<close> and \<open>Else\<close> an \<open>If\<close> of another depth) they raise and leave it there. They flush
  when their body ends normally, so a sibling of \<open>Case\<close>, \<open>Default\<close> or \<open>State\<close> then opens
  with no deeper frame left.
\<close>

theorem auto_close_before_add_or_open:
  "(add_statement assigns d dep m = (None, m') \<longrightarrow>
      ctrl_stack m' = take (nat (depth m)) (ctrl_stack m) \<and>
      int (length (ctrl_stack m')) \<le> depth m) \<and>
   (If_enter cond m = (Inr (r, outer), m1) \<longrightarrow>
      ctrl_stack m1 = take (nat (depth m)) (ctrl_stack m) @ [IfFrame r]) \<and>
   (Switch_enter test m = (None, m1) \<longrightarrow>
      (\<exists>r. ctrl_stack m1 = take (nat (depth m)) (ctrl_stack m) @ [SwitchFrame r])) \<and>
   (FSM_enter init dmn name reset m = (Inr r, m1) \<longrightarrow>
      ctrl_stack m1 = take (nat (depth m)) (ctrl_stack m) @ [FSMFrame r]) \<and>
   (ctrl_stack m = fs @ [f] \<and> int (length fs) = depth m \<longrightarrow> flush_ctrl m = pop_ctrl m) \<and>
   (ctrl_stack m = fs @ [IfFrame r0] \<and> int (length fs) = depth m \<and>
    If_enter cond m = (Inr (r, outer), m1) \<longrightarrow>
      outer = if_emit (if_store m r0) (touched_domains (if_bodies (if_store m r0))) (statements m)) \<and>
   (Elif_enter cond m = (Inr (r, outer), m1) \<longrightarrow>
      ctrl_stack m1 = ctrl_stack m \<and> (\<exists>fs. ctrl_stack m = fs @ [IfFrame r])) \<and>
   (Else_enter m = (Inr (r, outer), m1) \<longrightarrow>
      ctrl_stack m1 = ctrl_stack m \<and> (\<exists>fs. ctrl_stack m = fs @ [IfFrame r])) \<and>
   (Case_enter patterns m = (Inr (r, new, outer), m1) \<longrightarrow>
      ctrl_stack m1 = ctrl_stack m \<and> (\<exists>fs. ctrl_stack m = fs @ [SwitchFrame r])) \<and>
   (Default_enter m = (Inr (r, outer), m1) \<longrightarrow>
      ctrl_stack m1 = ctrl_stack m \<and> (\<exists>fs. ctrl_stack m = fs @ [SwitchFrame r])) \<and>
   (State_enter name m = (Inr (r, outer), m1) \<longrightarrow>
      ctrl_stack m1 = ctrl_stack m \<and> (\<exists>fs. ctrl_stack m = fs @ [FSMFrame r])) \<and>
   (ctrl_context m = None \<and> ctrl_stack m = fs @ [f] \<and>
    (\<forall>r. f = IfFrame r \<longrightarrow> if_depth (if_store m r) \<noteq> depth m) \<longrightarrow>
      Elif_enter cond m = (Inl ElifWithoutIf, check_signed_cond cond m) \<and>
      ctrl_stack (check_signed_cond cond m) = ctrl_stack m \<and>
      Else_enter m = (Inl ElseWithoutIf, m)) \<and>
   (ctrl_context m = Some CtxSwitch \<and> ctrl_stack m = fs @ [f] \<and> (\<forall>r. f \<noteq> SwitchFrame r) \<longrightarrow>
      Case_enter patterns m = (Inl NoneNotSubscriptable, m) \<and>
      Default_enter m = (Inl NoneNotSubscriptable, m)) \<and>
   (ctrl_context m = Some CtxFSM \<and> ctrl_stack m = fs @ [f] \<and> (\<forall>r. f \<noteq> FSMFrame r) \<longrightarrow>
      State_enter name m = (Inl NoneNotSubscriptable, m)) \<and>
   (exec (m_Case patterns body) m = (None, m') \<longrightarrow> int (length (ctrl_stack m')) \<le> depth m') \<and>
   (exec (m_Default body) m = (None, m') \<longrightarrow> int (length (ctrl_stack m')) \<le> depth m') \<and>
   (exec (m_State name body) m = (None, m') \<longrightarrow> int (length (ctrl_stack m')) \<le> depth m')"
proof -
  have outer: "outer = if_emit (if_store m r0) (touched_domains (if_bodies (if_store m r0))) (statements m)"
    if s: "ctrl_stack m = fs @ [IfFrame r0]" and l: "int (length fs) = depth m"
      and e: "If_enter cond m = (Inr (r, outer), m1)"
  proof -
    let ?m = "check_signed_cond cond m"
    have "ctrl_stack ?m = fs @ [IfFrame r0]" "int (length fs) = depth ?m"
      using s l by (simp_all add: check_signed_cond_def warn_def)
    then have "flush_ctrl ?m = pop_ctrl ?m"
      by (rule flush_ctrl_sibling)
    moreover have "statements (snd (pop_ctrl ?m))
        = if_emit (if_store m r0) (touched_domains (if_bodies (if_store m r0))) (statements m)"
      using s by (simp add: pop_ctrl_def pop_if_def check_signed_cond_def warn_def)
    ultimately show ?thesis
      using If_enter_outer(1) [OF e] by simp
  qed
  have lf: "\<And>xs a. xs \<noteq> [] \<Longrightarrow> last xs = a \<Longrightarrow> \<exists>fs. xs = fs @ [a :: frame]"
    by (metis append_butlast_last_id)
  have elif: "ctrl_stack m1 = ctrl_stack m \<and> (\<exists>fs. ctrl_stack m = fs @ [IfFrame r])"
    if "Elif_enter cond m = (Inr (r, outer), m1)"
    using that unfolding Elif_enter_def Let_def get_ctrl_If_def
    by (auto split: option.splits if_splits frame.splits
        simp: check_signed_cond_def warn_def intro: lf)
  have else: "ctrl_stack m1 = ctrl_stack m \<and> (\<exists>fs. ctrl_stack m = fs @ [IfFrame r])"
    if "Else_enter m = (Inr (r, outer), m1)"
    using that unfolding Else_enter_def Let_def get_ctrl_If_def
    by (auto split: option.splits if_splits frame.splits
        intro: lf)
  have cps: "\<And>w ps new m res m'. case_patterns w ps new m = (res, m') \<Longrightarrow> ctrl_stack m' = ctrl_stack m"
    subgoal for w ps new m res m'
      by (induction w ps new m rule: case_patterns.induct)
        (auto split: if_splits simp: Let_def warn_def)
    done
  have "case": "ctrl_stack m1 = ctrl_stack m \<and> (\<exists>fs. ctrl_stack m = fs @ [SwitchFrame r])"
    if "Case_enter patterns m = (Inr (r, new, outer), m1)"
    using that unfolding Case_enter_def Let_def get_ctrl_Switch_def
    by (auto split: option.splits if_splits frame.splits prod.splits sum.splits
        simp: warn_def dest!: cps intro: lf)
  have default: "ctrl_stack m1 = ctrl_stack m \<and> (\<exists>fs. ctrl_stack m = fs @ [SwitchFrame r])"
    if "Default_enter m = (Inr (r, outer), m1)"
    using that unfolding Default_enter_def Let_def get_ctrl_Switch_def
    by (auto split: option.splits if_splits frame.splits
        simp: warn_def intro: lf)
  have state: "ctrl_stack m1 = ctrl_stack m \<and> (\<exists>fs. ctrl_stack m = fs @ [FSMFrame r])"
    if "State_enter name m = (Inr (r, outer), m1)"
    using that unfolding State_enter_def Let_def get_ctrl_FSM_def
    by (auto split: option.splits if_splits frame.splits
        simp: fsm_register_def Let_def intro: lf)
  have no_if: "Elif_enter cond m = (Inl ElifWithoutIf, check_signed_cond cond m) \<and>
      ctrl_stack (check_signed_cond cond m) = ctrl_stack m \<and>
      Else_enter m = (Inl ElseWithoutIf, m)"
    if "ctrl_context m = None" "ctrl_stack m = fs @ [f]"
      "\<forall>r. f = IfFrame r \<longrightarrow> if_depth (if_store m r) \<noteq> depth m"
    using that unfolding Elif_enter_def Else_enter_def Let_def get_ctrl_If_def check_context_def
    by (auto split: frame.splits simp: check_signed_cond_def warn_def)
  have no_switch: "Case_enter patterns m = (Inl NoneNotSubscriptable, m) \<and>
      Default_enter m = (Inl NoneNotSubscriptable, m)"
    if "ctrl_context m = Some CtxSwitch" "ctrl_stack m = fs @ [f]" "\<forall>r. f \<noteq> SwitchFrame r"
    using that unfolding Case_enter_def Default_enter_def Let_def get_ctrl_Switch_def check_context_def
    by (auto split: frame.splits)
  have no_fsm: "State_enter name m = (Inl NoneNotSubscriptable, m)"
    if "ctrl_context m = Some CtxFSM" "ctrl_stack m = fs @ [f]" "\<forall>r. f \<noteq> FSMFrame r"
    using that unfolding State_enter_def Let_def get_ctrl_FSM_def check_context_def
    by (auto split: frame.splits)
  have c1: "add_statement assigns d dep m = (None, m') \<longrightarrow>
      ctrl_stack m' = take (nat (depth m)) (ctrl_stack m) \<and>
      int (length (ctrl_stack m')) \<le> depth m"
    using add_statement_stack by blast
  have c2: "If_enter cond m = (Inr (r, outer), m1) \<longrightarrow>
      ctrl_stack m1 = take (nat (depth m)) (ctrl_stack m) @ [IfFrame r]"
    using If_enter_stack by blast
  have c3: "Switch_enter test m = (None, m1) \<longrightarrow>
      (\<exists>r. ctrl_stack m1 = take (nat (depth m)) (ctrl_stack m) @ [SwitchFrame r])"
    using Switch_enter_stack by blast
  have c4: "FSM_enter init dmn name reset m = (Inr r, m1) \<longrightarrow>
      ctrl_stack m1 = take (nat (depth m)) (ctrl_stack m) @ [FSMFrame r]"
    using FSM_enter_stack by blast
  have c5: "ctrl_stack m = fs @ [f] \<and> int (length fs) = depth m \<longrightarrow> flush_ctrl m = pop_ctrl m"
    using flush_ctrl_sibling by blast
  have c6: "ctrl_stack m = fs @ [IfFrame r0] \<and> int (length fs) = depth m \<and>
      If_enter cond m = (Inr (r, outer), m1) \<longrightarrow>
      outer = if_emit (if_store m r0) (touched_domains (if_bodies (if_store m r0))) (statements m)"
    using outer by blast
  have c7: "Elif_enter cond m = (Inr (r, outer), m1) \<longrightarrow>
      ctrl_stack m1 = ctrl_stack m \<and> (\<exists>fs. ctrl_stack m = fs @ [IfFrame r])"
    using elif by blast
  have c8: "Else_enter m = (Inr (r, outer), m1) \<longrightarrow>
      ctrl_stack m1 = ctrl_stack m \<and> (\<exists>fs. ctrl_stack m = fs @ [IfFrame r])"
    using else by blast
  have c9: "Case_enter patterns m = (Inr (r, new, outer), m1) \<longrightarrow>
      ctrl_stack m1 = ctrl_stack m \<and> (\<exists>fs. ctrl_stack m = fs @ [SwitchFrame r])"
    using "case" by blast
  have c10: "Default_enter m = (Inr (r, outer), m1) \<longrightarrow>
      ctrl_stack m1 = ctrl_stack m \<and> (\<exists>fs. ctrl_stack m = fs @ [SwitchFrame r])"
    using default by blast
  have c11: "State_enter name m = (Inr (r, outer), m1) \<longrightarrow>
      ctrl_stack m1 = ctrl_stack m \<and> (\<exists>fs. ctrl_stack m = fs @ [FSMFrame r])"
    using state by blast
  have c12: "ctrl_context m = None \<and> ctrl_stack m = fs @ [f] \<and>
      (\<forall>r. f = IfFrame r \<longrightarrow> if_depth (if_store m r) \<noteq> depth m) \<longrightarrow>
      Elif_enter cond m = (Inl ElifWithoutIf, check_signed_cond cond m) \<and>
      ctrl_stack (check_signed_cond cond m) = ctrl_stack m \<and>
      Else_enter m = (Inl ElseWithoutIf, m)"
    using no_if by blast
  have c13: "ctrl_context m = Some CtxSwitch \<and> ctrl_stack m = fs @ [f] \<and> (\<forall>r. f \<noteq> SwitchFrame r) \<longrightarrow>
      Case_enter patterns m = (Inl NoneNotSubscriptable, m) \<and>
      Default_enter m = (Inl NoneNotSubscriptable, m)"
    using no_switch by blast
  have c14: "ctrl_context m = Some CtxFSM \<and> ctrl_stack m = fs @ [f] \<and> (\<forall>r. f \<noteq> FSMFrame r) \<longrightarrow>
      State_enter name m = (Inl NoneNotSubscriptable, m)"
    using no_fsm by blast
  have c15: "exec (m_Case patterns body) m = (None, m') \<longrightarrow> int (length (ctrl_stack m')) \<le> depth m'"
    using scoped_exit_closed(1) by blast
  have c16: "exec (m_Default body) m = (None, m') \<longrightarrow> int (length (ctrl_stack m')) \<le> depth m'"
    using scoped_exit_closed(2) by blast
  have c17: "exec (m_State name body) m = (None, m') \<longrightarrow> int (length (ctrl_stack m')) \<le> depth m'"
    using scoped_exit_closed(3) by blast
  show ?thesis
    by (intro conjI) (rule c1 c2 c3 c4 c5 c6 c7 c8 c9 c10 c11 c12 c13 c14 c15 c16 c17)+
qed

theorem auto_close_before_add_or_open_witness:
  "ctrl_stack after_If = [] @ [IfFrame 0] \<and> int (length ([] :: frame list)) = depth after_If \<and>
   flush_ctrl after_If = pop_ctrl after_If \<and>
   fst (add_statement [Assign (VSig sig_x) (VConst 2)] ''comb'' 0 after_If) = None \<and>
   ctrl_stack (snd (add_statement [Assign (VSig sig_x) (VConst 2)] ''comb'' 0 after_If)) = [] \<and>
   fst (If_enter (VSig sig_x) after_If) = Inr (1, [(''comb'', [Switch (VCat [VSig sig_a])
        [(KStr ''1'', [Assign (VSig sig_y) (VConst 1)])]])]) \<and>
   ctrl_stack (snd (If_enter (VSig sig_x) after_If)) = [IfFrame 1] \<and>
   ctrl_stack (snd (Switch_enter (VSig sig_x) after_If)) = [SwitchFrame 1] \<and>
   ctrl_stack (snd (FSM_enter None ''sync'' ''fsm'' None after_If)) = [FSMFrame 1] \<and>
   fst (Elif_enter (VSig sig_y) after_If) = Inr (0, []) \<and>
   ctrl_stack (snd (Elif_enter (VSig sig_y) after_If)) = [IfFrame 0] \<and>
   fst (Else_enter after_If) = Inr (0, []) \<and>
   ctrl_stack (snd (Else_enter after_If)) = [IfFrame 0] \<and>
   ctrl_stack in_Switch = [SwitchFrame 0] \<and>
   fst (Case_enter [PConst 1] in_Switch) = Inr (0, [PatInt 1], []) \<and>
   ctrl_stack (snd (Case_enter [PConst 1] in_Switch)) = [SwitchFrame 0] \<and>
   fst (Default_enter in_Switch) = Inr (0, []) \<and>
   ctrl_stack (snd (Default_enter in_Switch)) = [SwitchFrame 0] \<and>
   ctrl_stack in_FSM = [FSMFrame 0] \<and>
   fst (State_enter ''A'' in_FSM) = Inr (0, []) \<and>
   ctrl_stack (snd (State_enter ''A'' in_FSM)) = [FSMFrame 0] \<and>
   ctrl_context after_If_raise = None \<and> ctrl_stack after_If_raise = [IfFrame 0] @ [IfFrame 1] \<and>
   if_depth (if_store after_If_raise 1) = 1 \<and> depth after_If_raise = 0 \<and>
   fst (Elif_enter (VSig sig_y) after_If_raise) = Inl ElifWithoutIf \<and>
   ctrl_stack (snd (Elif_enter (VSig sig_y) after_If_raise)) = [IfFrame 0, IfFrame 1] \<and>
   fst (Else_enter after_If_raise) = Inl ElseWithoutIf \<and>
   ctrl_stack (snd (Else_enter after_If_raise)) = [IfFrame 0, IfFrame 1] \<and>
   ctrl_context after_Case_raise = Some CtxSwitch \<and>
   ctrl_stack after_Case_raise = [SwitchFrame 0] @ [IfFrame 1] \<and> depth after_Case_raise = 1 \<and>
   fst (Case_enter [PConst 0] after_Case_raise) = Inl NoneNotSubscriptable \<and>
   ctrl_stack (snd (Case_enter [PConst 0] after_Case_raise)) = [SwitchFrame 0, IfFrame 1] \<and>
   fst (Default_enter after_Case_raise) = Inl NoneNotSubscriptable \<and>
   ctrl_stack (snd (Default_enter after_Case_raise)) = [SwitchFrame 0, IfFrame 1] \<and>
   ctrl_context after_State_raise = Some CtxFSM \<and>
   ctrl_stack after_State_raise = [FSMFrame 0] @ [IfFrame 1] \<and> depth after_State_raise = 1 \<and>
   fst (State_enter ''B'' after_State_raise) = Inl NoneNotSubscriptable \<and>
   ctrl_stack (snd (State_enter ''B'' after_State_raise)) = [FSMFrame 0, IfFrame 1] \<and>
   fst (exec (m_Case [PConst 1] [m_If (VSig sig_a) []]) in_Switch) = None \<and>
   ctrl_stack (snd (exec (m_Case [PConst 1] [m_If (VSig sig_a) []]) in_Switch)) = [SwitchFrame 0] \<and>
   depth (snd (exec (m_Case [PConst 1] [m_If (VSig sig_a) []]) in_Switch)) = 1 \<and>
   fst (exec (m_Default [m_If (VSig sig_a) []]) in_Switch) = None \<and>
   ctrl_stack (snd (exec (m_Default [m_If (VSig sig_a) []]) in_Switch)) = [SwitchFrame 0] \<and>
   fst (exec (m_State ''A'' [m_If (VSig sig_a) []]) in_FSM) = None \<and>
   ctrl_stack (snd (exec (m_State ''A'' [m_If (VSig sig_a) []]) in_FSM)) = [FSMFrame 0]"
  using
    auto_close_before_add_or_open [where m = after_If
      and assigns = "[Assign (VSig sig_x) (VConst 2)]" and d = "''comb''" and dep = 0
      and m' = "snd (add_statement [Assign (VSig sig_x) (VConst 2)] ''comb'' 0 after_If)", THEN conjunct1]
    auto_close_before_add_or_open [where m = after_If and cond = "VSig sig_x" and r = 1
      and outer = "[(''comb'', [Switch (VCat [VSig sig_a])
        [(KStr ''1'', [Assign (VSig sig_y) (VConst 1)])]])]"
      and ?m1.0 = "snd (If_enter (VSig sig_x) after_If)", THEN conjunct2, THEN conjunct1]
    auto_close_before_add_or_open [where m = after_If and test = "VSig sig_x"
      and ?m1.0 = "snd (Switch_enter (VSig sig_x) after_If)", THEN conjunct2, THEN conjunct2, THEN conjunct1]
    auto_close_before_add_or_open [where m = after_If and init = None and dmn = "''sync''"
      and name = "''fsm''" and reset = None and r = 1
      and ?m1.0 = "snd (FSM_enter None ''sync'' ''fsm'' None after_If)", THEN conjunct2, THEN conjunct2, THEN conjunct2, THEN conjunct1]
    auto_close_before_add_or_open [where m = after_If and fs = "[]" and f = "IfFrame 0", THEN conjunct2, THEN conjunct2, THEN conjunct2, THEN conjunct2, THEN conjunct1]
    auto_close_before_add_or_open [where m = after_If and fs = "[]" and ?r0.0 = 0
      and cond = "VSig sig_x" and r = 1
      and outer = "[(''comb'', [Switch (VCat [VSig sig_a])
        [(KStr ''1'', [Assign (VSig sig_y) (VConst 1)])]])]"
      and ?m1.0 = "snd (If_enter (VSig sig_x) after_If)", THEN conjunct2, THEN conjunct2, THEN conjunct2, THEN conjunct2, THEN conjunct2, THEN conjunct1]
    auto_close_before_add_or_open [where m = after_If and cond = "VSig sig_y" and r = 0 and outer = "[]"
      and ?m1.0 = "snd (Elif_enter (VSig sig_y) after_If)", THEN conjunct2, THEN conjunct2, THEN conjunct2, THEN conjunct2, THEN conjunct2, THEN conjunct2, THEN conjunct1]
    auto_close_before_add_or_open [where m = after_If and r = 0 and outer = "[]"
      and ?m1.0 = "snd (Else_enter after_If)", THEN conjunct2, THEN conjunct2, THEN conjunct2, THEN conjunct2, THEN conjunct2, THEN conjunct2, THEN conjunct2, THEN conjunct1]
    auto_close_before_add_or_open [where m = in_Switch and patterns = "[PConst 1]" and r = 0 and new = "[PatInt 1]"
      and outer = "[]" and ?m1.0 = "snd (Case_enter [PConst 1] in_Switch)", THEN conjunct2, THEN conjunct2, THEN conjunct2, THEN conjunct2, THEN conjunct2, THEN conjunct2, THEN conjunct2, THEN conjunct2, THEN conjunct1]
    auto_close_before_add_or_open [where m = in_Switch and r = 0 and outer = "[]"
      and ?m1.0 = "snd (Default_enter in_Switch)", THEN conjunct2, THEN conjunct2, THEN conjunct2, THEN conjunct2, THEN conjunct2, THEN conjunct2, THEN conjunct2, THEN conjunct2, THEN conjunct2, THEN conjunct1]
    auto_close_before_add_or_open [where m = in_FSM and name = "''A''" and r = 0 and outer = "[]"
      and ?m1.0 = "snd (State_enter ''A'' in_FSM)", THEN conjunct2, THEN conjunct2, THEN conjunct2, THEN conjunct2, THEN conjunct2, THEN conjunct2, THEN conjunct2, THEN conjunct2, THEN conjunct2, THEN conjunct2, THEN conjunct1]
    auto_close_before_add_or_open [where m = after_If_raise and fs = "[IfFrame 0]" and f = "IfFrame 1"
      and cond = "VSig sig_y", THEN conjunct2, THEN conjunct2, THEN conjunct2, THEN conjunct2, THEN conjunct2, THEN conjunct2, THEN conjunct2, THEN conjunct2, THEN conjunct2, THEN conjunct2, THEN conjunct2, THEN conjunct1]
    auto_close_before_add_or_open [where m = after_Case_raise and fs = "[SwitchFrame 0]" and f = "IfFrame 1"
      and patterns = "[PConst 0]", THEN conjunct2, THEN conjunct2, THEN conjunct2, THEN conjunct2, THEN conjunct2, THEN conjunct2, THEN conjunct2, THEN conjunct2, THEN conjunct2, THEN conjunct2, THEN conjunct2, THEN conjunct2, THEN conjunct1]
    auto_close_before_add_or_open [where m = after_State_raise and fs = "[FSMFrame 0]" and f = "IfFrame 1"
      and name = "''B''", THEN conjunct2, THEN conjunct2, THEN conjunct2, THEN conjunct2, THEN conjunct2, THEN conjunct2, THEN conjunct2, THEN conjunct2, THEN conjunct2, THEN conjunct2, THEN conjunct2, THEN conjunct2, THEN conjunct2, THEN conjunct1]
    auto_close_before_add_or_open [where m = in_Switch and patterns = "[PConst 1]"
      and body = "[m_If (VSig sig_a) []]"
      and m' = "snd (exec (m_Case [PConst 1] [m_If (VSig sig_a) []]) in_Switch)", THEN conjunct2, THEN conjunct2, THEN conjunct2, THEN conjunct2, THEN conjunct2, THEN conjunct2, THEN conjunct2, THEN conjunct2, THEN conjunct2, THEN conjunct2, THEN conjunct2, THEN conjunct2, THEN conjunct2, THEN conjunct2, THEN conjunct1]
    auto_close_before_add_or_open [where m = in_Switch and body = "[m_If (VSig sig_a) []]"
      and m' = "snd (exec (m_Default [m_If (VSig sig_a) []]) in_Switch)", THEN conjunct2, THEN conjunct2, THEN conjunct2, THEN conjunct2, THEN conjunct2, THEN conjunct2, THEN conjunct2, THEN conjunct2, THEN conjunct2, THEN conjunct2, THEN conjunct2, THEN conjunct2, THEN conjunct2, THEN conjunct2, THEN conjunct2, THEN conjunct1]
    auto_close_before_add_or_open [where m = in_FSM and name = "''A''" and body = "[m_If (VSig sig_a) []]"
      and m' = "snd (exec (m_State ''A'' [m_If (VSig sig_a) []]) in_FSM)", THEN conjunct2, THEN conjunct2, THEN conjunct2, THEN conjunct2, THEN conjunct2, THEN conjunct2, THEN conjunct2, THEN conjunct2, THEN conjunct2, THEN conjunct2, THEN conjunct2, THEN conjunct2, THEN conjunct2, THEN conjunct2, THEN conjunct2, THEN conjunct2]
  by (simp add: exec_unfold bits_for_examples if_switch_def touched_domains_def stmts_get_def
      if_match_def rjust_def)

theorem no_auto_close_counterexample:
  "ctrl_context after_Case_raise = Some CtxSwitch \<and>
   ctrl_stack after_Case_raise = [SwitchFrame 0, IfFrame 1] \<and> depth after_Case_raise = 1 \<and>
   fst (exec (m_Case [PConst 0] []) after_Case_raise) = Some NoneNotSubscriptable \<and>
   ctrl_stack (snd (exec (m_Case [PConst 0] []) after_Case_raise)) = [SwitchFrame 0, IfFrame 1] \<and>
   ctrl_context after_If_raise = None \<and>
   ctrl_stack after_If_raise = [IfFrame 0, IfFrame 1] \<and> depth after_If_raise = 0 \<and>
   fst (exec (m_Elif (VSig sig_y) []) after_If_raise) = Some ElifWithoutIf \<and>
   ctrl_stack (snd (exec (m_Elif (VSig sig_y) []) after_If_raise)) = [IfFrame 0, IfFrame 1] \<and>
   fst (exec (m_If (VSig sig_y) []) after_If_raise) = None \<and>
   ctrl_stack (snd (exec (m_If (VSig sig_y) []) after_If_raise)) = [IfFrame 2]"
  by (simp add: exec_unfold bits_for_examples if_switch_def touched_domains_def stmts_get_def
      if_match_def rjust_def)

subsection \<open>An FSM in the combinational domain\<close>

text \<open>
  C10. Opening an FSM with the domain name \<open>"comb"\<close> raises at once and leaves the builder
  as it was, so no FSM frame is on the control stack afterwards; where an FSM may be
  opened at all (outside of \<open>Switch\<close> and \<open>FSM\<close>) the exception is the \<open>ValueError\<close> of the
  domain check. Conversely a call that does push an FSM frame has another domain.
\<close>

theorem FSM_comb_domain_rejected:
  "(\<exists>x. exec (m_FSM init ''comb'' name reset body) m = (Some x, m)) \<and>
   (ctrl_context m = None \<longrightarrow>
      exec (m_FSM init ''comb'' name reset body) m = (Some (FsmCombDomain ''comb''), m)) \<and>
   (\<forall>r m'. FSM_enter init d name reset m = (Inr r, m') \<longrightarrow> d \<noteq> ''comb'')"
  by (auto simp: FSM_enter_def check_context_def split: option.splits ctx.splits)

theorem FSM_comb_domain_rejected_witness:
  "ctrl_context (Module False) = None \<and>
   exec (m_FSM None ''comb'' ''fsm'' None [m_State ''A'' []]) (Module False)
     = (Some (FsmCombDomain ''comb''), Module False) \<and>
   ctrl_stack (Module False) = []"
  using FSM_comb_domain_rejected [of None "''fsm''" None "[m_State ''A'' []]" "Module False" "''sync''"]
  by (simp add: Module_def)

end
